theory Spec2Isabelle
  imports Main "HOL-Library.Word" "HOL-Library.Signed_Division"
begin

unbundle bit_operations_syntax

chapter \<open>The model\<close>

section \<open>JavaScript primitives used by the transpiler\<close>

text \<open>
  The transpiler (\<^verbatim>\<open>yul.js\<close>) computes with JavaScript \<^verbatim>\<open>BigInt\<close> values, which are
  unbounded integers (\<^typ>\<open>int\<close> here), and with ordinary strings (\<^typ>\<open>string\<close>; every
  string the modelled functions handle is ASCII).  Exceptions are values of the type
  \<open>error\<close>; a function that may throw returns \<open>error + 'a\<close>.
\<close>

datatype error =
    ParseError            \<comment> \<open>\<^verbatim>\<open>Parser.assert\<close> failed\<close>
  | SyntaxError           \<comment> \<open>\<^verbatim>\<open>BigInt(string)\<close> on a string that is no integer literal\<close>
  | TypeError             \<comment> \<open>property access on \<^verbatim>\<open>null\<close>\<close>
  | RangeError            \<comment> \<open>\<^verbatim>\<open>BigInt\<close> division by zero, negative exponent\<close>
  | Error string          \<comment> \<open>\<^verbatim>\<open>throw new Error(msg)\<close>; the string names the message\<close>
  | Unmodelled            \<comment> \<open>no exception: the input leaves the part of the source that is modelled\<close>

definition U256_MAX :: int where
  "U256_MAX = push_bit 256 1 - 1"

definition I256_SIGN :: int where
  "I256_SIGN = push_bit 255 1"

text \<open>The value of a character as a digit, for the radices up to 16.\<close>

definition digit_of :: "char \<Rightarrow> nat option" where
  "digit_of c =
     (let n = (of_char c :: nat) in
      if 48 \<le> n \<and> n \<le> 57 then Some (n - 48)
      else if 97 \<le> n \<and> n \<le> 102 then Some (n - 87)
      else if 65 \<le> n \<and> n \<le> 70 then Some (n - 55)
      else None)"

definition is_digit_in :: "nat \<Rightarrow> char \<Rightarrow> bool" where
  "is_digit_in b c = (case digit_of c of Some d \<Rightarrow> d < b | None \<Rightarrow> False)"

definition digits_val :: "nat \<Rightarrow> string \<Rightarrow> nat" where
  "digits_val b s = foldl (\<lambda>acc c. acc * b + (case digit_of c of Some d \<Rightarrow> d | None \<Rightarrow> 0)) 0 s"

definition radix_literal :: "nat \<Rightarrow> string \<Rightarrow> int option" where
  "radix_literal b ds =
     (if ds \<noteq> [] \<and> list_all (is_digit_in b) ds then Some (int (digits_val b ds)) else None)"

text \<open>
  \<^verbatim>\<open>BigInt(string)\<close>, that is \<^verbatim>\<open>StringToBigInt\<close> of ECMAScript: the empty string is 0, a
  decimal literal may carry a sign, a literal with a radix prefix may not (a signed
  hexadecimal string such as \<^verbatim>\<open>"-0x10"\<close> is a \<^verbatim>\<open>SyntaxError\<close>).  \<open>None\<close> stands for the
  \<^verbatim>\<open>SyntaxError\<close>.  White space, which the conversion would trim, occurs in none of the
  strings converted here (they are number tokens) and is not modelled.
\<close>

definition BigInt :: "string \<Rightarrow> int option" where
  "BigInt s =
     (if s = [] then Some 0
      else if take 2 s = ''0x'' \<or> take 2 s = ''0X'' then radix_literal 16 (drop 2 s)
      else if take 2 s = ''0o'' \<or> take 2 s = ''0O'' then radix_literal 8 (drop 2 s)
      else if take 2 s = ''0b'' \<or> take 2 s = ''0B'' then radix_literal 2 (drop 2 s)
      else if hd s = CHR ''-'' then map_option uminus (radix_literal 10 (tl s))
      else if hd s = CHR ''+'' then radix_literal 10 (tl s)
      else radix_literal 10 s)"

text \<open>\<^verbatim>\<open>toBigInt\<close> of the source: the two Boolean literals, else \<^verbatim>\<open>BigInt(value)\<close>.\<close>

definition toBigInt :: "string \<Rightarrow> int option" where
  "toBigInt v = (if v = ''false'' then Some 0 else if v = ''true'' then Some 1 else BigInt v)"

text \<open>
  \<^verbatim>\<open>n.toString(radix)\<close> for a radix from 2 to 16 (lower-case digits, no leading zero);
  the source uses 10 and 16.
\<close>

definition digit_char :: "nat \<Rightarrow> char" where
  "digit_char d = ''0123456789abcdef'' ! d"

function nat_toString :: "nat \<Rightarrow> nat \<Rightarrow> string" where
  "nat_toString b n =
     (if b < 2 \<or> n < b then [digit_char n]
      else nat_toString b (n div b) @ [digit_char (n mod b)])"
  by pat_completeness auto
termination
  by (relation "measure (\<lambda>(b, n). n)") auto

declare nat_toString.simps [simp del]

definition toString :: "nat \<Rightarrow> int \<Rightarrow> string" where
  "toString b n = (if n < 0 then CHR ''-'' # nat_toString b (nat (- n)) else nat_toString b (nat n))"

section \<open>The parser's number tokens\<close>

text \<open>
  The parser state that matters is the remaining input; \<^verbatim>\<open>Parser.match(rx)\<close> returns the
  matched prefix and eats it together with the white space that follows
  (\<^verbatim>\<open>eat = eatChars; eatSpace\<close>).  A production returns \<open>Inl e\<close> when it throws,
  \<open>Inr (None, input)\<close> when it returns \<^verbatim>\<open>null\<close>, and \<open>Inr (Some node, rest)\<close> otherwise.
\<close>

definition is_space :: "char \<Rightarrow> bool" where
  "is_space c = (c = CHR 0x0A \<or> c = CHR 0x0D \<or> c = CHR 0x09 \<or> c = CHR '' '')"

definition eatSpace :: "string \<Rightarrow> string" where
  "eatSpace inp = dropWhile is_space inp"

text \<open>The regular expression \<^verbatim>\<open>/^-?[0-9]+/\<close>: matched text and what follows it.\<close>

definition match_decimal :: "string \<Rightarrow> (string \<times> string) option" where
  "match_decimal inp =
     (let (sg, r) = (case inp of [] \<Rightarrow> ([], []) | c # cs \<Rightarrow> if c = CHR ''-'' then ([c], cs) else ([], inp));
          ds = takeWhile (is_digit_in 10) r
      in if ds = [] then None else Some (sg @ ds, dropWhile (is_digit_in 10) r))"

text \<open>The regular expression \<^verbatim>\<open>/^-?0x[0-9a-fA-F]+/\<close>.\<close>

definition match_hex :: "string \<Rightarrow> (string \<times> string) option" where
  "match_hex inp =
     (let (sg, r) = (case inp of [] \<Rightarrow> ([], []) | c # cs \<Rightarrow> if c = CHR ''-'' then ([c], cs) else ([], inp));
          ds = takeWhile (is_digit_in 16) (drop 2 r)
      in if take 2 r = ''0x'' \<and> ds \<noteq> [] then Some (sg @ ''0x'' @ ds, dropWhile (is_digit_in 16) (drop 2 r))
         else None)"

datatype subtype = HexNumber | DecimalNumber | StringLiteral | HexLiteral | BoolLiteral

type_synonym token = "subtype \<times> string"

text \<open>
  \<^verbatim>\<open>Parser.DecimalNumber\<close>.  The length bound counts the characters of the token, the sign
  included; a token of exactly 78 characters is range-checked.
\<close>

definition DecimalNumber_tok :: "string \<Rightarrow> error + (token option \<times> string)" where
  "DecimalNumber_tok inp =
     (case match_decimal inp of
        None \<Rightarrow> Inr (None, inp)
      | Some (v, rest) \<Rightarrow>
          if \<not> length v \<le> 78 then Inl ParseError
          else if length v = 78 \<and> BigInt v = None then Inl SyntaxError
          else if length v = 78 \<and>
                  \<not> (case BigInt v of Some n \<Rightarrow> n \<ge> - I256_SIGN \<and> n \<le> U256_MAX | None \<Rightarrow> False)
               then Inl ParseError
          else if hd v = CHR ''-'' then
            (case BigInt v of
               None \<Rightarrow> Inl SyntaxError
             | Some n \<Rightarrow> Inr (Some (HexNumber, ''0x'' @ toString 16 (n AND U256_MAX)), eatSpace rest))
          else Inr (Some (DecimalNumber, v), eatSpace rest))"

text \<open>
  \<^verbatim>\<open>Parser.HexNumber\<close>.  Both \<^verbatim>\<open>BigInt(value)\<close> calls receive the token with its sign, so
  on a negative token they throw.
\<close>

definition HexNumber_tok :: "string \<Rightarrow> error + (token option \<times> string)" where
  "HexNumber_tok inp =
     (case match_hex inp of
        None \<Rightarrow> Inr (None, inp)
      | Some (v, rest) \<Rightarrow>
          if \<not> length v \<le> (if hd v = CHR ''-'' then 1 else 0) + 2 + 64 then Inl ParseError
          else if length v = 67 \<and> BigInt v = None then Inl SyntaxError
          else if length v = 67 \<and>
                  \<not> (case BigInt v of Some n \<Rightarrow> n \<ge> - I256_SIGN | None \<Rightarrow> False)
               then Inl ParseError
          else if hd v = CHR ''-'' then
            (case BigInt v of
               None \<Rightarrow> Inl SyntaxError
             | Some n \<Rightarrow> Inr (Some (HexNumber, ''0x'' @ toString 16 (n AND U256_MAX)), eatSpace rest))
          else Inr (Some (HexNumber, v), eatSpace rest))"

text \<open>\<^verbatim>\<open>Parser.NumberLiteral = HexNumber() || DecimalNumber()\<close>.\<close>

definition NumberLiteral_tok :: "string \<Rightarrow> error + (token option \<times> string)" where
  "NumberLiteral_tok inp =
     (case HexNumber_tok inp of
        Inl e \<Rightarrow> Inl e
      | Inr (Some t, rest) \<Rightarrow> Inr (Some t, rest)
      | Inr (None, _) \<Rightarrow> DecimalNumber_tok inp)"

section \<open>The syntax tree\<close>

text \<open>
  The nodes of the tree are JavaScript objects tagged by \<^verbatim>\<open>type\<close>.  The datatype has the
  kinds that occur in statements and expressions.  A field that always holds an
  \<^verbatim>\<open>Identifier\<close> node (the name of a call, of a function, of a member) is the string of
  that identifier; the \<^verbatim>\<open>kind\<close> of a literal is the string of its type name.  The source
  position of a call (\<^verbatim>\<open>filename\<close>, \<^verbatim>\<open>line\<close>) is left out.  Constructors whose names
  clash with constants of HOL carry the suffix \<open>_node\<close>.
\<close>

datatype node =
    Root "node list"
  | Block "node list"
  | Identifier string bool
      \<comment> \<open>value, replaceable\<close>
  | Literal subtype "string option" string
      \<comment> \<open>subtype, kind, value (the text of the token)\<close>
  | FunctionCall string "node list"
  | IdentifierList "string list"
  | TypedIdentifierList "(string \<times> string option) list"
  | Assignment "string list" node
      \<comment> \<open>the items of the \<^verbatim>\<open>IdentifierList\<close> on the left, the right-hand side\<close>
  | VariableDeclaration "(string \<times> string option) list" "node option"
      \<comment> \<open>the items of the \<^verbatim>\<open>TypedIdentifierList\<close>, the initialiser\<close>
  | If_node node node "(node \<times> node) list" "node option"
      \<comment> \<open>expr, block, branches, otherwise\<close>
  | Switch node "node list" "node option"
      \<comment> \<open>expr, cases, def\<close>
  | Case_node node node
  | Default_node node
  | ForLoop node node node node
      \<comment> \<open>init, test, update, block\<close>
  | While node node
  | DoWhile node node
      \<comment> \<open>test, block\<close>
  | BreakContinue string
  | Leave
  | FunctionDefinition string "(string \<times> string option) list" "string option"
      "(string \<times> string option) list" "node list" bool
      \<comment> \<open>name, items of params, modifier, items of returns, body of the block, builtin\<close>
  | Fold node node "(node \<times> node) list" "node option"
  | CallDataIdentifier string bool
      \<comment> \<open>member, ref\<close>
  | MemberIdentifier string "string option" string
      \<comment> \<open>name, cast, member\<close>
  | StructInitializer string "node list"
  | Emit string node "node list"
      \<comment> \<open>name, offset, args\<close>
  | Throw string "node list"
      \<comment> \<open>name, args; the \<^verbatim>\<open>offset\<close> of a parsed \<^verbatim>\<open>Throw\<close> is \<^verbatim>\<open>null\<close>\<close>

subsection \<open>Node constructors of the source\<close>

definition Null :: node where
  "Null = Root []"

text \<open>
  \<^verbatim>\<open>Literal(value)\<close> dispatches on the JavaScript type of its argument.  For a \<^verbatim>\<open>bigint\<close> the
  value is reduced modulo \<open>2\<^sup>2\<^sup>5\<^sup>6\<close>; below 1024 it is printed in decimal, else in hexadecimal
  with an even number of digits.  For a \<^verbatim>\<open>number\<close> (always a small non-negative integer
  where the modelled code calls it, so the safe-integer assertion holds) it is printed in
  decimal.
\<close>

definition Literal_bigint :: "int \<Rightarrow> node" where
  "Literal_bigint v =
     (let num = v AND U256_MAX in
      if num < 1024 then Literal DecimalNumber None (toString 10 num)
      else (let str = toString 16 num;
                str' = (if odd (length str) then CHR ''0'' # str else str)
            in Literal HexNumber None (''0x'' @ str')))"

definition Literal_number :: "int \<Rightarrow> node" where
  "Literal_number n = Literal DecimalNumber None (toString 10 n)"

definition HexNumber_node :: "string \<Rightarrow> node" where
  "HexNumber_node v = Literal HexNumber None v"


definition Call :: "string \<Rightarrow> node list \<Rightarrow> node" where
  "Call name args = FunctionCall name args"

definition If_stmt :: "node \<Rightarrow> node \<Rightarrow> node" where
  "If_stmt expr block = If_node expr block [] None"



definition Add :: "node \<Rightarrow> node \<Rightarrow> node" where
  "Add x y = Call ''add'' [x, y]"


definition Or_node :: "node \<Rightarrow> node \<Rightarrow> node" where
  "Or_node x y = Call ''or'' [x, y]"

definition Xor :: "node \<Rightarrow> node \<Rightarrow> node" where
  "Xor x y = Call ''xor'' [x, y]"

definition Shl :: "int \<Rightarrow> node \<Rightarrow> node" where
  "Shl shift num = Call ''shl'' [Literal_number shift, num]"

definition Shr :: "int \<Rightarrow> node \<Rightarrow> node" where
  "Shr shift num = Call ''shr'' [Literal_number shift, num]"


definition CallValue :: node where
  "CallValue = Call ''callvalue'' []"

definition CallDataLoad :: "int \<Rightarrow> node" where
  "CallDataLoad pos = Call ''calldataload'' [Literal_number pos]"

definition CallDataSize :: node where
  "CallDataSize = Call ''calldatasize'' []"

definition IsZero :: "node \<Rightarrow> node" where
  "IsZero expr = Call ''iszero'' [expr]"

definition Eq :: "node \<Rightarrow> node \<Rightarrow> node" where
  "Eq x y = Call ''eq'' [x, y]"

definition Lt :: "node \<Rightarrow> node \<Rightarrow> node" where
  "Lt x y = Call ''lt'' [x, y]"

definition Gt :: "node \<Rightarrow> node \<Rightarrow> node" where
  "Gt x y = Call ''gt'' [x, y]"

definition Stop :: node where
  "Stop = Call ''stop'' []"

definition Revert :: node where
  "Revert = Call ''revert'' [Literal_number 0, Literal_number 0]"



definition RequireZero :: "node \<Rightarrow> node" where
  "RequireZero expr = If_stmt expr (Block [Revert])"

definition RequireEq :: "node \<Rightarrow> node \<Rightarrow> node" where
  "RequireEq x y = RequireZero (Xor x y)"

definition RequireGte :: "node \<Rightarrow> node \<Rightarrow> node" where
  "RequireGte x y = RequireZero (Lt x y)"

subsection \<open>Predicates on nodes\<close>

definition isNull :: "node \<Rightarrow> bool" where
  "isNull n = (case n of Root ns \<Rightarrow> ns = [] | _ \<Rightarrow> False)"

definition isLiteral :: "node \<Rightarrow> bool" where
  "isLiteral n = (case n of
       Literal st k v \<Rightarrow> st = HexNumber \<or> st = DecimalNumber \<or> st = BoolLiteral
     | _ \<Rightarrow> False)"

definition isStringLiteral :: "node \<Rightarrow> bool" where
  "isStringLiteral n = (case n of Literal st k v \<Rightarrow> st = StringLiteral | _ \<Rightarrow> False)"

definition isLiterals :: "node list \<Rightarrow> bool" where
  "isLiterals args = list_all isLiteral args"

definition all_zero_chars :: "string \<Rightarrow> bool" where
  "all_zero_chars s = list_all (\<lambda>c. c = CHR ''0'') s"

text \<open>
  \<^verbatim>\<open>isZero\<close> and \<^verbatim>\<open>isOne\<close> test the text of the literal with the regular expressions
  \<^verbatim>\<open>/^0x0+$/\<close>, \<^verbatim>\<open>/^0+$/\<close> and \<^verbatim>\<open>/^0x0*1$/\<close>, \<^verbatim>\<open>/^0*1$/\<close>.
\<close>

definition isZero :: "node \<Rightarrow> bool" where
  "isZero n = (case n of
       Literal st k v \<Rightarrow>
         if st = HexNumber then take 2 v = ''0x'' \<and> drop 2 v \<noteq> [] \<and> all_zero_chars (drop 2 v)
         else if st = DecimalNumber then v \<noteq> [] \<and> all_zero_chars v
         else if st = BoolLiteral then v = ''false''
         else False
     | _ \<Rightarrow> False)"

definition isOne :: "node \<Rightarrow> bool" where
  "isOne n = (case n of
       Literal st k v \<Rightarrow>
         if st = HexNumber then
           take 2 v = ''0x'' \<and> drop 2 v \<noteq> [] \<and> last v = CHR ''1'' \<and> all_zero_chars (butlast (drop 2 v))
         else if st = DecimalNumber then v \<noteq> [] \<and> last v = CHR ''1'' \<and> all_zero_chars (butlast v)
         else if st = BoolLiteral then v = ''true''
         else False
     | _ \<Rightarrow> False)"

definition isDefaultIdentifier :: "node \<Rightarrow> bool" where
  "isDefaultIdentifier n = (case n of Identifier v r \<Rightarrow> v = ''@'' | _ \<Rightarrow> False)"

definition isCall :: "node \<Rightarrow> string \<Rightarrow> nat \<Rightarrow> bool" where
  "isCall n name len = (case n of FunctionCall nm args \<Rightarrow> nm = name \<and> length args = len | _ \<Rightarrow> False)"

definition isLtCall :: "node \<Rightarrow> bool" where
  "isLtCall n = isCall n ''lt'' 2"

definition isGtCall :: "node \<Rightarrow> bool" where
  "isGtCall n = isCall n ''gt'' 2"

text \<open>\<^verbatim>\<open>filter(nodes)\<close> splices the children of every \<^verbatim>\<open>Root\<close> into the list.\<close>

definition filter_nodes :: "node list \<Rightarrow> node list" where
  "filter_nodes nodes = concat (map (\<lambda>n. case n of Root cs \<Rightarrow> cs | _ \<Rightarrow> [n]) nodes)"

subsection \<open>Traversal\<close>




subsection \<open>The code-size estimate and the padding against inlining\<close>










section \<open>ABI items: types, parameters, methods, events, errors\<close>

definition bind_err :: "error + 'a \<Rightarrow> ('a \<Rightarrow> error + 'b) \<Rightarrow> error + 'b" where
  "bind_err m f = (case m of Inl e \<Rightarrow> Inl e | Inr x \<Rightarrow> f x)"

subsection \<open>Signatures\<close>

text \<open>
  A \<^verbatim>\<open>Buffer\<close> is a list of bytes.  The Keccak-256 implementation is a library outside the
  repository; the functions that hash take the digest function as the parameter
  \<open>keccak256\<close>.
\<close>

type_synonym buffer = "8 word list"

definition Buffer_from_binary :: "string \<Rightarrow> buffer" where
  "Buffer_from_binary s = map (\<lambda>c. of_char c) s"

definition hex_byte :: "8 word \<Rightarrow> string" where
  "hex_byte b = [digit_char (unat b div 16), digit_char (unat b mod 16)]"

text \<open>\<^verbatim>\<open>buf.toString('hex')\<close> and \<^verbatim>\<open>buf.toString('hex', 0, 4)\<close>.\<close>

definition Buffer_toString_hex :: "buffer \<Rightarrow> string" where
  "Buffer_toString_hex buf = concat (map hex_byte buf)"

definition Buffer_toString_hex_range :: "buffer \<Rightarrow> nat \<Rightarrow> nat \<Rightarrow> string" where
  "Buffer_toString_hex_range buf start end = Buffer_toString_hex (drop start (take end buf))"

text \<open>\<^verbatim>\<open>Array.prototype.join\<close> on strings.\<close>

fun join :: "string \<Rightarrow> string list \<Rightarrow> string" where
  "join sep [] = []"
| "join sep [x] = x"
| "join sep (x # y # ys) = x @ sep @ join sep (y # ys)"

definition canonicalize :: "string \<Rightarrow> string" where
  "canonicalize type =
     (if type = ''uint'' then ''uint256''
      else if type = ''int'' then ''int256''
      else if type = ''uint[]'' then ''uint256[]''
      else if type = ''int[]'' then ''int256[]''
      else type)"

definition abiHash :: "(buffer \<Rightarrow> buffer) \<Rightarrow> string \<Rightarrow> string list \<Rightarrow> buffer" where
  "abiHash keccak256 name types =
     (let preimage = name @ ''('' @ join '','' (map canonicalize types) @ '')'';
          raw = Buffer_from_binary preimage
      in keccak256 raw)"

definition methodHash :: "(buffer \<Rightarrow> buffer) \<Rightarrow> string \<Rightarrow> string list \<Rightarrow> string" where
  "methodHash keccak256 name types =
     (let hash = abiHash keccak256 name types in ''0x'' @ Buffer_toString_hex_range hash 0 4)"

definition eventHash :: "(buffer \<Rightarrow> buffer) \<Rightarrow> string \<Rightarrow> string list \<Rightarrow> string" where
  "eventHash keccak256 name types =
     (let hash = abiHash keccak256 name types in ''0x'' @ Buffer_toString_hex hash)"

text \<open>
  The signature as the specification words it: the preimage is the name, an opening
  parenthesis, the canonical types separated by commas, a closing parenthesis; the
  selector is the first four bytes of its digest, the topic the whole digest.
\<close>

definition spec_canon :: "string \<Rightarrow> string" where
  "spec_canon t =
     (case map_of [(''uint'', ''uint256''), (''int'', ''int256''),
                   (''uint[]'', ''uint256[]''), (''int[]'', ''int256[]'')] t of
        Some c \<Rightarrow> c | None \<Rightarrow> t)"

definition spec_preimage :: "string \<Rightarrow> string list \<Rightarrow> string" where
  "spec_preimage n ts =
     n @ ''('' @
       (case ts of [] \<Rightarrow> [] | t # ts' \<Rightarrow> spec_canon t @ concat (map (\<lambda>u. CHR '','' # spec_canon u) ts'))
     @ '')''"

definition spec_selector :: "(buffer \<Rightarrow> buffer) \<Rightarrow> string \<Rightarrow> string list \<Rightarrow> buffer" where
  "spec_selector keccak256 n ts = take 4 (keccak256 (map of_char (spec_preimage n ts)))"

definition spec_topic0 :: "(buffer \<Rightarrow> buffer) \<Rightarrow> string \<Rightarrow> string list \<Rightarrow> buffer" where
  "spec_topic0 keccak256 n ts = keccak256 (map of_char (spec_preimage n ts))"

subsection \<open>Tokens of a parameter list\<close>

definition is_lower :: "char \<Rightarrow> bool" where
  "is_lower c = (97 \<le> (of_char c :: nat) \<and> (of_char c :: nat) \<le> 122)"

definition is_ident_start :: "char \<Rightarrow> bool" where
  "is_ident_start c =
     (let n = (of_char c :: nat) in
      (97 \<le> n \<and> n \<le> 122) \<or> (65 \<le> n \<and> n \<le> 90) \<or> c = CHR ''_'' \<or> c = CHR ''$'')"

text \<open>The class \<^verbatim>\<open>[\w$.]\<close>.\<close>

definition is_ident_char :: "char \<Rightarrow> bool" where
  "is_ident_char c = (is_ident_start c \<or> is_digit_in 10 c \<or> c = CHR ''.'')"

text \<open>\<^verbatim>\<open>Parser.consume(str)\<close>: \<open>None\<close> when the input does not start with \<open>str\<close>.\<close>

definition consume :: "string \<Rightarrow> string \<Rightarrow> string option" where
  "consume str inp = (if take (length str) inp = str then Some (eatSpace (drop (length str) inp)) else None)"

definition expect :: "string \<Rightarrow> string \<Rightarrow> error + string" where
  "expect str inp = (case consume str inp of None \<Rightarrow> Inl ParseError | Some rest \<Rightarrow> Inr rest)"

text \<open>\<^verbatim>\<open>Parser.keyword(str)\<close>: the word must not run on into an identifier character.\<close>

definition keyword :: "string \<Rightarrow> string \<Rightarrow> string option" where
  "keyword str inp =
     (if take (length str) inp \<noteq> str then None
      else if length str < length inp \<and> is_ident_char (inp ! length str) then None
      else Some (eatSpace (drop (length str) inp)))"

text \<open>\<^verbatim>\<open>Parser.Identifier\<close>, the regular expression \<^verbatim>\<open>/^[a-zA-Z_$][\w$.]*/\<close>.\<close>

definition Identifier_tok :: "string \<Rightarrow> string option \<times> string" where
  "Identifier_tok inp =
     (case inp of
        [] \<Rightarrow> (None, inp)
      | c # cs \<Rightarrow>
          if is_ident_start c
          then (Some (c # takeWhile is_ident_char cs), eatSpace (dropWhile is_ident_char cs))
          else (None, inp))"

record abitype =
  t_value :: string
  t_base :: string
  t_width :: int
  t_array :: bool

text \<open>
  The regular expression \<^verbatim>\<open>/^([a-z]+)(\d{1,3})?(\[\])?/\<close> of \<^verbatim>\<open>Parser.ABIType\<close>: the base, the
  digits (empty when the group does not take part), whether the brackets are there, and the
  rest of the input.
\<close>

definition match_abitype :: "string \<Rightarrow> (string \<times> string \<times> bool \<times> string) option" where
  "match_abitype inp =
     (let base = takeWhile is_lower inp;
          r1 = dropWhile is_lower inp;
          digits = takeWhile (is_digit_in 10) (take 3 r1);
          r2 = drop (length digits) r1;
          brackets = (take 2 r2 = ''[]'');
          r3 = (if brackets then drop 2 r2 else r2)
      in if base = [] then None else Some (base, digits, brackets, r3))"

definition ABIType :: "string \<Rightarrow> error + (abitype option \<times> string)" where
  "ABIType inp =
     (case match_abitype inp of
        None \<Rightarrow> Inr (None, inp)
      | Some (base, digits, brackets, rest) \<Rightarrow>
          (let v = base @ digits @ (if brackets then ''[]'' else []);
               num = int (digits_val 10 digits);
               res = (\<lambda>w a. if w \<le> 256
                             then Inr (Some \<lparr>t_value = v, t_base = base, t_width = w, t_array = a\<rparr>,
                                       eatSpace rest)
                             else Inl ParseError)
           in if base = ''uint'' \<or> base = ''int'' then
                (let width = (if digits = [] then 256 else num)
                 in if width > 0 \<and> width mod 8 = 0 then res width brackets else Inl ParseError)
              else if base = ''address'' then
                (if digits = [] then res 160 brackets else Inl ParseError)
              else if base = ''bool'' then
                (if digits = [] then res 1 brackets else Inl ParseError)
              else if base = ''fixed'' \<or> base = ''ufixed'' then Inl ParseError
              else if base = ''bytes'' then
                (if digits \<noteq> [] then
                   (if num * 8 > 0 then res (num * 8) brackets else Inl ParseError)
                 else if brackets then Inl ParseError else res 0 True)
              else if base = ''string'' then
                (if digits \<noteq> [] \<or> brackets then Inl ParseError else res 0 True)
              else if base = ''function'' then
                (if digits = [] then res 192 brackets else Inl ParseError)
              else Inl ParseError))"

text \<open>
  \<^verbatim>\<open>Parser.MethodParams\<close> after the opening parenthesis: the loop
  \<^verbatim>\<open>do { type; name } while (consume(','))\<close>.  The fuel bounds the number of items by the
  length of the input, which every item shortens.
\<close>

fun MethodParams_loop :: "nat \<Rightarrow> string \<Rightarrow> error + ((abitype \<times> string option) list \<times> string)" where
  "MethodParams_loop 0 inp = Inl ParseError"
| "MethodParams_loop (Suc fuel) inp =
     (case ABIType inp of
        Inl e \<Rightarrow> Inl e
      | Inr (None, _) \<Rightarrow> Inl ParseError
      | Inr (Some type, r1) \<Rightarrow>
          (let (name, r2) = Identifier_tok r1 in
           case consume '','' r2 of
             None \<Rightarrow> Inr ([(type, name)], r2)
           | Some r3 \<Rightarrow>
               (case MethodParams_loop fuel r3 of
                  Inl e \<Rightarrow> Inl e
                | Inr (items, r4) \<Rightarrow> Inr ((type, name) # items, r4))))"

definition MethodParams :: "string \<Rightarrow> error + ((abitype \<times> string option) list \<times> string)" where
  "MethodParams inp =
     bind_err (expect ''('' inp) (\<lambda>r0.
       if take 1 r0 = '')'' then bind_err (expect '')'' r0) (\<lambda>r. Inr ([], r))
       else bind_err (MethodParams_loop (Suc (length r0)) r0) (\<lambda>(items, r1).
              bind_err (expect '')'' r1) (\<lambda>r. Inr (items, r))))"

subsection \<open>Method parameters\<close>

record MethodParam =
  p_name :: "string option"
  p_type :: string
  p_base :: string
  p_width :: int
  p_array :: bool
  p_offset :: int

definition new_MethodParam :: "string option \<Rightarrow> abitype \<Rightarrow> int \<Rightarrow> MethodParam" where
  "new_MethodParam name type offset =
     \<lparr>p_name = name, p_type = t_value type, p_base = t_base type, p_width = t_width type,
      p_array = t_array type, p_offset = offset\<rparr>"

definition param_unit :: "MethodParam \<Rightarrow> int" where
  "param_unit p = (if p_width p = 0 then 1 else 32)"

definition param_ref :: "MethodParam \<Rightarrow> node" where
  "param_ref p = Literal_number (p_offset p)"

definition isPadded :: "MethodParam \<Rightarrow> bool" where
  "isPadded p =
     (if p_array p \<or> p_width p = 256 then False
      else p_base p = ''bytes'' \<or> p_base p = ''function'')"

definition param_decode :: "MethodParam \<Rightarrow> node \<Rightarrow> node" where
  "param_decode p expr = (if isPadded p then Shr (256 - p_width p) expr else expr)"

definition param_read :: "MethodParam \<Rightarrow> node" where
  "param_read p =
     (if p_array p then Add (CallDataLoad (p_offset p)) (Literal_number 4)
      else param_decode p (CallDataLoad (p_offset p)))"

text \<open>
  \<^verbatim>\<open>MethodParam.check(expr, pos = null)\<close>, called here with \<^verbatim>\<open>pos\<close> absent.  The assertion
  \<^verbatim>\<open>this.width > 0\<close> is an exception of its own.
\<close>

definition param_check :: "MethodParam \<Rightarrow> node \<Rightarrow> error + node" where
  "param_check p expr =
     (if p_array p then
        (let unit = Literal_number (param_unit p) in
         case expr of
           FunctionCall nm args \<Rightarrow>
             if nm = ''calldataload'' then
               (case args of [] \<Rightarrow> Inl TypeError | a # _ \<Rightarrow> Inr (Call ''__check_calldata_array'' [a, unit]))
             else Inl (Error ''Invalid expression for check().'')
         | Identifier v r \<Rightarrow> Inr (Call ''__check_memory_array'' [expr, unit, Literal_number 0])
         | _ \<Rightarrow> Inl (Error ''Invalid expression for check().''))
      else if \<not> p_width p > 0 then Inl (Error ''AssertionError'')
      else if p_width p = 256 then Inr Null
      else if p_base p = ''int'' then Inr (Call ''__check_int'' [expr, Literal_number (p_width p)])
      else if p_base p = ''bytes'' \<or> p_base p = ''function'' then Inr (RequireZero (Shl (p_width p) expr))
      else Inr (RequireZero (Shr (p_width p) expr)))"

subsection \<open>Methods\<close>

text \<open>The fields of a \<^verbatim>\<open>MethodDeclaration\<close> or \<^verbatim>\<open>MethodDefinition\<close> node that \<^verbatim>\<open>Method\<close> reads.\<close>

record method_decl =
  d_name :: string
  d_params :: "(abitype \<times> string option) list"
  d_visibility :: "string option"
  d_mutability :: "string option"
  d_modifier :: "string option"
  d_returns :: "(abitype \<times> string option) list"

record Method =
  m_type :: string
  m_name :: string
  m_params :: "MethodParam list"
  m_map :: "(string \<times> MethodParam) list"
  m_visibility :: "string option"
  m_mutability :: "string option"
  m_modifier :: "string option"
  m_returns :: "MethodParam list"
  m_signature :: string
  m_array :: bool
  m_signed :: bool
  m_retArray :: bool
  m_retSigned :: bool

text \<open>
  The first loop of \<^verbatim>\<open>Method.init\<close>: the parameters at the offsets 4, 36, 68 and so on, the
  map from the names to the parameters (a repeated name throws), and the two flags.
\<close>

fun init_params ::
  "(abitype \<times> string option) list \<Rightarrow> int \<Rightarrow> MethodParam list \<times> (string \<times> MethodParam) list \<times> bool \<times> bool \<Rightarrow>
   error + (MethodParam list \<times> (string \<times> MethodParam) list \<times> bool \<times> bool)" where
  "init_params [] offset st = Inr st"
| "init_params ((type, ident) # items) offset (params, mp, arr, sg) =
     (let param = new_MethodParam ident type offset;
          dup = (case ident of None \<Rightarrow> False | Some name \<Rightarrow> map_of mp name \<noteq> None);
          mp' = (case ident of None \<Rightarrow> mp | Some name \<Rightarrow> mp @ [(name, param)]);
          arr' = (if t_array type then True else arr);
          sg' = (if \<not> t_array type \<and> t_base type = ''int'' \<and> t_width type < 256 then True else sg)
      in if dup then Inl (Error ''Duplicate parameter name'')
         else init_params items (offset + 32) (params @ [param], mp', arr', sg'))"

text \<open>The second loop: the return values at the offsets 0, 32, 64 and so on.\<close>

fun init_returns ::
  "(abitype \<times> string option) list \<Rightarrow> int \<Rightarrow> MethodParam list \<times> bool \<times> bool \<Rightarrow>
   MethodParam list \<times> bool \<times> bool" where
  "init_returns [] offset st = st"
| "init_returns ((type, ident) # items) offset (rets, arr, sg) =
     init_returns items (offset + 32)
       (rets @ [new_MethodParam ident type offset],
        (if t_array type then True else arr),
        (if \<not> t_array type \<and> t_base type = ''int'' \<and> t_width type < 256 then True else sg))"

definition Method_init :: "(buffer \<Rightarrow> buffer) \<Rightarrow> method_decl \<Rightarrow> error + Method" where
  "Method_init keccak256 node =
     (let name = d_name node;
          special = (name = ''receive'' \<or> name = ''fallback'')
      in if CHR ''.'' \<in> set name then Inl (Error ''has invalid name.'')
         else if special \<and> (length (d_params node) > 0 \<or> length (d_returns node) > 0)
           then Inl (Error ''cannot have params/returns.'')
         else if special \<and> d_visibility node \<noteq> None \<and> d_visibility node \<noteq> Some ''external''
           then Inl (Error ''must be defined as external.'')
         else if name = ''receive'' \<and> d_mutability node \<noteq> Some ''payable''
           then Inl (Error ''must be payable.'')
         else
           bind_err (init_params (d_params node) 4 ([], [], False, False)) (\<lambda>(params, mp, arr, sg).
             (let (rets, rarr, rsg) = init_returns (d_returns node) 0 ([], False, False);
                  types = map (\<lambda>(type, ident). t_value type) (d_params node)
              in Inr \<lparr>m_type = (if special then name else ''function''),
                      m_name = name, m_params = params, m_map = mp,
                      m_visibility = d_visibility node, m_mutability = d_mutability node,
                      m_modifier = d_modifier node, m_returns = rets,
                      m_signature = methodHash keccak256 name types,
                      m_array = arr, m_signed = sg, m_retArray = rarr, m_retSigned = rsg\<rparr>)))"

definition isFunction :: "Method \<Rightarrow> bool" where
  "isFunction m = (m_type m = ''function'')"

text \<open>The loop of \<^verbatim>\<open>Method.check\<close> over the parameters.\<close>

fun check_params :: "MethodParam list \<Rightarrow> node list \<Rightarrow> error + node list" where
  "check_params [] nodes = Inr nodes"
| "check_params (param # params) nodes =
     (case param_check param (CallDataLoad (p_offset param)) of
        Inl e \<Rightarrow> Inl e
      | Inr check \<Rightarrow> check_params params (if \<not> isNull check then nodes @ [check] else nodes))"

text \<open>\<^verbatim>\<open>Method.check\<close>; the result is the list \<^verbatim>\<open>nodes\<close> of the \<^verbatim>\<open>Root\<close> it returns.\<close>

definition Method_check :: "Method \<Rightarrow> error + node list" where
  "Method_check m =
     (let nodes = (if m_mutability m \<noteq> Some ''payable'' then [RequireZero CallValue] else [])
      in if \<not> isFunction m then Inr nodes
         else
           (let size = Literal_number (4 + int (length (m_params m)) * 32);
                nodes' = nodes @ [if m_array m then RequireGte CallDataSize size
                                  else RequireEq CallDataSize size]
            in check_params (m_params m) nodes'))"

subsection \<open>Errors and events\<close>

record error_decl =
  ed_name :: string
  ed_params :: "(abitype \<times> string option) list"

record VMError =
  ve_name :: string
  ve_ident :: string
  ve_params :: "MethodParam list"
  ve_signature :: string
  ve_array :: bool

fun error_params :: "(abitype \<times> string option) list \<Rightarrow> int \<Rightarrow> MethodParam list \<times> bool \<Rightarrow> MethodParam list \<times> bool" where
  "error_params [] offset st = st"
| "error_params ((type, ident) # items) offset (params, arr) =
     error_params items (offset + 32)
       (params @ [new_MethodParam ident type offset], (if t_array type then True else arr))"

definition VMError_init :: "(buffer \<Rightarrow> buffer) \<Rightarrow> error_decl \<Rightarrow> nat \<Rightarrow> VMError" where
  "VMError_init keccak256 node depth =
     (let (params, arr) = error_params (ed_params node) 4 ([], False);
          types = map (\<lambda>(type, ident). t_value type) (ed_params node)
      in \<lparr>ve_name = ed_name node,
          ve_ident = ''__throw_'' @ ed_name node @ ''_'' @ toString 10 (int depth),
          ve_params = params,
          ve_signature = methodHash keccak256 (ed_name node) types,
          ve_array = arr\<rparr>)"

record event_decl =
  vd_name :: string
  vd_params :: "(abitype \<times> string option \<times> bool) list"
  vd_anonymous :: bool
  vd_packed :: bool
  vd_modifier :: "string option"

record EventParam =
  ep_name :: "string option"
  ep_type :: string
  ep_base :: string
  ep_width :: int
  ep_bytes :: int
  ep_array :: bool
  ep_indexed :: bool

text \<open>The width is rounded up to a multiple of 8: \<^verbatim>\<open>(type.width + 7) & ~7\<close>.\<close>

definition new_EventParam :: "string option \<Rightarrow> abitype \<Rightarrow> bool \<Rightarrow> EventParam" where
  "new_EventParam name type indexed =
     (let width = (t_width type + 7) AND NOT 7
      in \<lparr>ep_name = name, ep_type = t_value type, ep_base = t_base type, ep_width = width,
          ep_bytes = width div 8, ep_array = t_array type, ep_indexed = indexed\<rparr>)"

record Event =
  ev_name :: string
  ev_ident :: string
  ev_params :: "EventParam list"
  ev_packed :: bool
  ev_anonymous :: bool
  ev_modifier :: "string option"
  ev_signature :: string
  ev_array :: bool

text \<open>
  \<^verbatim>\<open>Event.init\<close>: the check of the packed parameters (an array only in the last place), the
  bound on the indexed parameters, then the signature.
\<close>

definition Event_init :: "(buffer \<Rightarrow> buffer) \<Rightarrow> event_decl \<Rightarrow> nat \<Rightarrow> error + Event" where
  "Event_init keccak256 node depth =
     (let items = vd_params node;
          params = map (\<lambda>(type, ident, indexed). new_EventParam ident type indexed) items;
          arr = list_ex (\<lambda>(type, ident, indexed). t_array type \<and> \<not> indexed) items;
          heap = (if vd_packed node then filter (\<lambda>p. \<not> ep_indexed p) params else []);
          total = length (filter (\<lambda>(type, ident, indexed). indexed) items);
          types = map (\<lambda>(type, ident, indexed). t_value type) items
      in if list_ex ep_array (butlast heap)
           then Inl (Error ''misuses array type.'')
         else if total > 3 + (if vd_anonymous node then 1 else 0)
           then Inl (Error ''has too many indexed parameters'')
         else Inr \<lparr>ev_name = vd_name node,
                   ev_ident = ''__emit_'' @ vd_name node @ ''_'' @ toString 10 (int depth),
                   ev_params = params, ev_packed = vd_packed node, ev_anonymous = vd_anonymous node,
                   ev_modifier = vd_modifier node,
                   ev_signature = eventHash keccak256 (vd_name node) types,
                   ev_array = arr\<rparr>)"

subsection \<open>The scope, as far as the dispatcher needs it\<close>

text \<open>
  \<^verbatim>\<open>Scope.dependsOn(name, optional)\<close> looks the function up through the scope chain and
  records it in the map \<^verbatim>\<open>depends\<close> of the enclosing code scope.  The chain is the predicate
  \<open>has_func\<close> (the lookup finds the name), the map is the list of its keys in insertion
  order.
\<close>

definition dependsOn :: "(string \<Rightarrow> bool) \<Rightarrow> string list \<Rightarrow> string \<Rightarrow> bool \<Rightarrow> error + string list" where
  "dependsOn has_func depends name optional =
     (if \<not> has_func name \<and> \<not> optional then Inl (Error (name @ ''() not available.''))
      else if has_func name \<and> name \<notin> set depends then Inr (depends @ [name])
      else Inr depends)"

definition Method_addDeps :: "(string \<Rightarrow> bool) \<Rightarrow> string list \<Rightarrow> Method \<Rightarrow> error + string list" where
  "Method_addDeps has_func depends m =
     bind_err (if m_array m then dependsOn has_func depends ''__check_calldata_array'' False else Inr depends)
       (\<lambda>deps. if m_signed m then dependsOn has_func deps ''__check_int'' False else Inr deps)"

subsection \<open>The dispatcher \<^verbatim>\<open>method.select()\<close> and \<^verbatim>\<open>method.call(name)\<close>\<close>

definition locked_calls :: "string \<Rightarrow> node list" where
  "locked_calls name = [Call ''__mutex_lock'' [], Call (''__method_'' @ name) [], Call ''__mutex_unlock'' []]"

text \<open>
  One round of the loop over \<^verbatim>\<open>scope.methods.values()\<close>: the block of the method, and the
  dependencies recorded on the way.
\<close>

definition select_arm :: "(string \<Rightarrow> bool) \<Rightarrow> string list \<Rightarrow> Method \<Rightarrow> error + (node \<times> string list)" where
  "select_arm has_func depends m =
     bind_err (Method_check m) (\<lambda>check.
     bind_err (Method_addDeps has_func depends m) (\<lambda>d0.
       if m_modifier m = Some ''locked'' then
         bind_err (dependsOn has_func d0 ''__mutex_key'' False) (\<lambda>d1.
         bind_err (dependsOn has_func d1 ''__mutex_lock'' False) (\<lambda>d2.
         bind_err (dependsOn has_func d2 ''__mutex_unlock'' False) (\<lambda>d3.
           Inr (Block (check @ locked_calls (m_name m)), d3))))
       else Inr (Block (check @ [Call (''__method_'' @ m_name m) []]), d0)))"

record select_state =
  s_fallback :: node
  s_receive :: "node option"
  s_cases :: "node list"
  s_depends :: "string list"

fun select_loop :: "(string \<Rightarrow> bool) \<Rightarrow> Method list \<Rightarrow> select_state \<Rightarrow> error + select_state" where
  "select_loop has_func [] st = Inr st"
| "select_loop has_func (m # ms) st =
     (case select_arm has_func (s_depends st) m of
        Inl e \<Rightarrow> Inl e
      | Inr (block, deps) \<Rightarrow>
          select_loop has_func ms
            (if m_name m = ''receive'' then st\<lparr>s_receive := Some block, s_depends := deps\<rparr>
             else if m_name m = ''fallback'' then st\<lparr>s_fallback := block, s_depends := deps\<rparr>
             else st\<lparr>s_cases := s_cases st @ [Case_node (HexNumber_node (m_signature m)) block],
                     s_depends := deps\<rparr>))"

text \<open>The tree that \<^verbatim>\<open>method.select()\<close> returns once the loop is over.\<close>

definition select_tree :: "node \<Rightarrow> node option \<Rightarrow> node list \<Rightarrow> node" where
  "select_tree fallback receive cases =
     (let either = (case receive of
            None \<Rightarrow> fallback
          | Some r \<Rightarrow>
              Block [Switch (Eq CallDataSize (Literal_number 0))
                       [Case_node (Literal_number 1) r]
                       (Some (Default_node fallback))])
      in Root [Switch (Lt CallDataSize (Literal_number 4))
                 [Case_node (Literal_number 1) either]
                 (Some (Default_node (Block [Switch (Shr 224 (CallDataLoad 0)) cases
                                               (Some (Default_node fallback))]))),
               Stop])"

text \<open>
  \<^verbatim>\<open>method.select()\<close> on the arguments of the call, the methods of the scope in insertion
  order, and the dependencies so far.
\<close>

definition method_select ::
  "(string \<Rightarrow> bool) \<Rightarrow> string list \<Rightarrow> Method list \<Rightarrow> node list \<Rightarrow> error + (node \<times> string list)" where
  "method_select has_func depends methods args =
     (if length args \<noteq> 0 then Inl (Error ''method.select() requires 0 arguments.'')
      else if length methods = 0 then Inr (Stop, depends)
      else
        bind_err (select_loop has_func methods
                    \<lparr>s_fallback = Block [Revert], s_receive = None, s_cases = [], s_depends = depends\<rparr>)
          (\<lambda>st. Inr (select_tree (s_fallback st) (s_receive st) (s_cases st), s_depends st)))"

text \<open>
  \<^verbatim>\<open>method.call(name)\<close>.  The argument arrives rewritten (\<open>arg\<close>); \<open>findMethod\<close> is the lookup
  through the scope chain.
\<close>

definition method_call ::
  "(string \<Rightarrow> bool) \<Rightarrow> (string \<Rightarrow> Method option) \<Rightarrow> string list \<Rightarrow> node list \<Rightarrow> error + (node \<times> string list)" where
  "method_call has_func findMethod depends args =
     (case args of
        [arg] \<Rightarrow>
          (case arg of
             Identifier name r \<Rightarrow>
               (case findMethod name of
                  None \<Rightarrow> Inl (Error (''Method '' @ name @ '' not found.''))
                | Some method \<Rightarrow>
                    if m_modifier method = Some ''locked'' then
                      bind_err (dependsOn has_func depends ''__mutex_key'' False) (\<lambda>d1.
                      bind_err (dependsOn has_func d1 ''__mutex_lock'' False) (\<lambda>d2.
                      bind_err (dependsOn has_func d2 ''__mutex_unlock'' False) (\<lambda>d3.
                        Inr (Root (locked_calls name), d3))))
                    else Inr (Call (''__method_'' @ name) [], depends))
           | _ \<Rightarrow> Inl (Error ''method.call(): argument 0 must be an identifier.''))
      | _ \<Rightarrow> Inl (Error ''method.call(name) requires 1 argument.''))"

subsection \<open>Calldata identifiers\<close>

text \<open>
  The case \<^verbatim>\<open>CallDataIdentifier\<close> of \<^verbatim>\<open>Transformer.rewrite\<close>.  \<open>calldata\<close> is the result of
  \<^verbatim>\<open>scope.findCalldata()\<close>, \<open>value_of\<close> is \<^verbatim>\<open>this.value\<close> on the member identifier (the
  rewriting of an identifier may replace it by a macro).
\<close>

definition rewrite_CallDataIdentifier ::
  "(string \<Rightarrow> error + string) \<Rightarrow> Method option \<Rightarrow> string \<Rightarrow> bool \<Rightarrow> error + node" where
  "rewrite_CallDataIdentifier value_of calldata member ref =
     (case calldata of
        None \<Rightarrow> Inl (Error ''No method available.'')
      | Some method \<Rightarrow>
          bind_err (value_of member) (\<lambda>name.
            case map_of (m_map method) name of
              None \<Rightarrow> Inl (Error (''Unknown method parameter: '' @ name))
            | Some param \<Rightarrow> if ref then Inr (param_ref param) else Inr (param_read param)))"

text \<open>
  A calldata identifier inside the body of a method: the method is built from its
  declaration and bound as the \<^verbatim>\<open>calldata\<close> of the scope of the body, and no macro replaces
  the name of the member.
\<close>

definition rewrite_calldata_in ::
  "(buffer \<Rightarrow> buffer) \<Rightarrow> method_decl \<Rightarrow> string \<Rightarrow> bool \<Rightarrow> error + node" where
  "rewrite_calldata_in keccak256 decl member ref =
     bind_err (Method_init keccak256 decl) (\<lambda>m. rewrite_CallDataIdentifier Inr (Some m) member ref)"

subsection \<open>Notions for stating the properties of the dispatcher\<close>

text \<open>The block the loop builds for a method whose prelude is \<open>pre\<close>.\<close>

definition arm_of :: "Method \<Rightarrow> node list \<Rightarrow> node" where
  "arm_of m pre = Block (pre @ (if m_modifier m = Some ''locked'' then locked_calls (m_name m)
                                 else [Call (''__method_'' @ m_name m) []]))"

text \<open>Where the loop stores the block of a method: as receive, as fallback, or as a case.\<close>

definition recorded :: "node \<Rightarrow> node option \<Rightarrow> node list \<Rightarrow> Method \<Rightarrow> node \<Rightarrow> bool" where
  "recorded fallback receive cases m arm =
     (if m_name m = ''receive'' then receive = Some arm
      else if m_name m = ''fallback'' then fallback = arm
      else Case_node (HexNumber_node (m_signature m)) arm \<in> set cases)"

subsection \<open>Examples\<close>

text \<open>A stand-in for the digest where the signature plays no part.\<close>

definition digest0 :: "buffer \<Rightarrow> buffer" where
  "digest0 b = [0, 0, 0, 0, 0, 0, 0, 0, 0, 0, 0, 0, 0, 0, 0, 0,
                0, 0, 0, 0, 0, 0, 0, 0, 0, 0, 0, 0, 0, 0, 0, 0]"

text \<open>The declaration \<^verbatim>\<open>method foobar(uint32 id, uint64 amount, bytes32[] hashes)\<close>.\<close>

definition foobar_decl :: method_decl where
  "foobar_decl =
     \<lparr>d_name = ''foobar'',
      d_params =
        [(\<lparr>t_value = ''uint32'', t_base = ''uint'', t_width = 32, t_array = False\<rparr>, Some ''id''),
         (\<lparr>t_value = ''uint64'', t_base = ''uint'', t_width = 64, t_array = False\<rparr>, Some ''amount''),
         (\<lparr>t_value = ''bytes32[]'', t_base = ''bytes'', t_width = 256, t_array = True\<rparr>, Some ''hashes'')],
      d_visibility = None, d_mutability = None, d_modifier = None, d_returns = []\<rparr>"

text \<open>The declarations \<^verbatim>\<open>method f() locked\<close> and \<^verbatim>\<open>method g(uint256 x) view\<close>.\<close>

definition locked_decl :: method_decl where
  "locked_decl =
     \<lparr>d_name = ''f'', d_params = [], d_visibility = None, d_mutability = None,
      d_modifier = Some ''locked'', d_returns = []\<rparr>"

definition view_decl :: method_decl where
  "view_decl =
     \<lparr>d_name = ''g'',
      d_params = [(\<lparr>t_value = ''uint256'', t_base = ''uint'', t_width = 256, t_array = False\<rparr>, Some ''x'')],
      d_visibility = None, d_mutability = Some ''view'', d_modifier = None, d_returns = []\<rparr>"

text \<open>The methods that \<^verbatim>\<open>Method.init\<close> builds from the two declarations, with \<open>digest0\<close>.\<close>

definition locked_method :: Method where
  "locked_method =
     \<lparr>m_type = ''function'', m_name = ''f'', m_params = [], m_map = [],
      m_visibility = None, m_mutability = None, m_modifier = Some ''locked'', m_returns = [],
      m_signature = ''0x00000000'', m_array = False, m_signed = False,
      m_retArray = False, m_retSigned = False\<rparr>"

definition view_method :: Method where
  "view_method =
     \<lparr>m_type = ''function'', m_name = ''g'',
      m_params = [\<lparr>p_name = Some ''x'', p_type = ''uint256'', p_base = ''uint'', p_width = 256,
                    p_array = False, p_offset = 4\<rparr>],
      m_map = [(''x'', \<lparr>p_name = Some ''x'', p_type = ''uint256'', p_base = ''uint'', p_width = 256,
                          p_array = False, p_offset = 4\<rparr>)],
      m_visibility = None, m_mutability = Some ''view'', m_modifier = None, m_returns = [],
      m_signature = ''0x00000000'', m_array = False, m_signed = False,
      m_retArray = False, m_retSigned = False\<rparr>"

section \<open>Structs\<close>

text \<open>
  The shift operators of \<^verbatim>\<open>BigInt\<close>: a negative count shifts the other way, and the shift to
  the right rounds towards minus infinity.
\<close>

definition bigint_shl :: "int \<Rightarrow> int \<Rightarrow> int" where
  "bigint_shl x s = (if 0 \<le> s then push_bit (nat s) x else drop_bit (nat (- s)) x)"

definition bigint_shr :: "int \<Rightarrow> int \<Rightarrow> int" where
  "bigint_shr x s = (if 0 \<le> s then drop_bit (nat s) x else push_bit (nat (- s)) x)"

text \<open>The fields of a \<^verbatim>\<open>StructMember\<close> node: the type name, the name, the default value.\<close>

record struct_member_decl =
  sd_kind :: string
  sd_name :: string
  sd_value :: node

record StructMember =
  sm_name :: string
  sm_offset :: int
  sm_width :: int
  sm_value :: int
  sm_shift :: int
  sm_mask :: node
  sm_imask :: node
  sm_mod :: int

record Struct =
  st_name :: string
  st_members :: "StructMember list"
  st_map :: "(string \<times> StructMember) list"
  st_value :: node
  st_width :: int

text \<open>
  A string that is the prefix \<open>pre\<close> followed by at least one and at most \<open>hi\<close> decimal
  digits, as the regular expressions \<^verbatim>\<open>/^uint\d{1,3}$/\<close>, \<^verbatim>\<open>/^int\d{1,3}$/\<close> and
  \<^verbatim>\<open>/^bytes\d{1,2}$/\<close> test it.
\<close>

definition prefix_digits :: "string \<Rightarrow> nat \<Rightarrow> string \<Rightarrow> bool" where
  "prefix_digits pre hi s =
     (take (length pre) s = pre \<and>
      (let d = drop (length pre) s in 1 \<le> length d \<and> length d \<le> hi \<and> list_all (is_digit_in 10) d))"

text \<open>The width of a member type in \<^verbatim>\<open>Struct.init\<close>; \<open>None\<close> when the type is refused.\<close>

definition struct_type_width :: "string \<Rightarrow> int option" where
  "struct_type_width type =
     (if prefix_digits ''uint'' 3 type then Some (int (digits_val 10 (drop 4 type)))
      else if prefix_digits ''int'' 3 type then Some (int (digits_val 10 (drop 3 type)))
      else if type = ''address'' then Some 160
      else if type = ''bool'' then Some 1
      else if prefix_digits ''bytes'' 2 type then Some (int (digits_val 10 (drop 5 type)) * 8)
      else if type = ''function'' then Some 192
      else None)"

text \<open>The constructor of \<^verbatim>\<open>StructMember\<close>; \<^verbatim>\<open>toBigInt\<close> may throw.\<close>

definition new_StructMember :: "string \<Rightarrow> int \<Rightarrow> int \<Rightarrow> string \<Rightarrow> error + StructMember" where
  "new_StructMember name offset width v =
     (let shift = 256 - (offset + width);
          mask = bigint_shl 1 width - 1;
          imask = (bigint_shl mask shift) XOR U256_MAX
      in case toBigInt v of
           None \<Rightarrow> Inl SyntaxError
         | Some b \<Rightarrow>
             Inr \<lparr>sm_name = name, sm_offset = offset, sm_width = width, sm_value = b AND mask,
                  sm_shift = shift, sm_mask = Literal_bigint mask, sm_imask = Literal_bigint imask,
                  sm_mod = mask\<rparr>)"

text \<open>The text of the value of a literal node.\<close>

definition literal_value :: "node \<Rightarrow> string" where
  "literal_value n = (case n of Literal st k v \<Rightarrow> v | _ \<Rightarrow> [])"

text \<open>
  The loop of \<^verbatim>\<open>Struct.init\<close> over the members, on the state \<open>(offset, n, members, map)\<close>.
  A member named \<^verbatim>\<open>+\<close> is padding: it advances the offset and nothing else.
\<close>

fun init_members ::
  "struct_member_decl list \<Rightarrow> int \<times> int \<times> StructMember list \<times> (string \<times> StructMember) list \<Rightarrow>
   error + (int \<times> int \<times> StructMember list \<times> (string \<times> StructMember) list)" where
  "init_members [] st = Inr st"
| "init_members (member # rest) (offset, n, members, mp) =
     (case struct_type_width (sd_kind member) of
        None \<Rightarrow> Inl (Error ''Invalid struct type'')
      | Some width \<Rightarrow>
          if sd_name member = ''+'' then init_members rest (offset + width, n, members, mp)
          else if map_of mp (sd_name member) \<noteq> None then Inl (Error ''Duplicate struct member name'')
          else if \<not> isLiteral (sd_value member) then Inl (Error ''Default value must be a literal.'')
          else
            (case new_StructMember (sd_name member) offset width (literal_value (sd_value member)) of
               Inl e \<Rightarrow> Inl e
             | Inr mem \<Rightarrow>
                 init_members rest
                   (offset + width, n OR bigint_shl (sm_value mem) (sm_shift mem),
                    members @ [mem], mp @ [(sd_name member, mem)])))"

text \<open>\<^verbatim>\<open>new Struct(node)\<close>, that is the constructor followed by \<^verbatim>\<open>Struct.init\<close>.\<close>

definition Struct_init :: "string \<Rightarrow> struct_member_decl list \<Rightarrow> error + Struct" where
  "Struct_init name decls =
     (case init_members decls (0, 0, [], []) of
        Inl e \<Rightarrow> Inl e
      | Inr (offset, n, members, mp) \<Rightarrow>
          if offset = 0 \<or> offset > 256 then Inl (Error ''Invalid struct size'')
          else Inr \<lparr>st_name = name, st_members = members, st_map = mp,
                    st_value = Literal_bigint n, st_width = offset\<rparr>)"

text \<open>\<^verbatim>\<open>StructMember.accumulate\<close>.\<close>

definition accumulate :: "StructMember \<Rightarrow> node \<Rightarrow> node \<Rightarrow> node" where
  "accumulate mem acc v =
     (if isZero acc then (if sm_shift mem = 0 then v else Shl (sm_shift mem) v)
      else if sm_shift mem = 0 then Or_node acc v
      else Or_node acc (Shl (sm_shift mem) v))"

text \<open>
  The first loop of \<^verbatim>\<open>Struct.fold\<close>, over the arguments paired with their members, on the
  state \<open>(n, stack)\<close>.
\<close>

fun fold_args ::
  "(StructMember \<times> node) list \<Rightarrow> int \<times> (StructMember \<times> node) list \<Rightarrow>
   error + (int \<times> (StructMember \<times> node) list)" where
  "fold_args [] st = Inr st"
| "fold_args ((mem, arg) # rest) (n, stack) =
     (if isDefaultIdentifier arg then
        fold_args rest (n OR bigint_shl (sm_value mem) (sm_shift mem), stack)
      else if isLiteral arg then
        (case toBigInt (literal_value arg) of
           None \<Rightarrow> Inl SyntaxError
         | Some b \<Rightarrow> fold_args rest (n OR bigint_shl (b AND sm_mod mem) (sm_shift mem), stack))
      else fold_args rest (n, stack @ [(mem, arg)]))"

text \<open>\<^verbatim>\<open>Struct.fold(args)\<close>.\<close>

definition Struct_fold :: "Struct \<Rightarrow> node list \<Rightarrow> error + node" where
  "Struct_fold s args =
     (if length args = 0 then Inr (st_value s)
      else if length args > length (st_members s) then Inl (Error ''Too many arguments passed to struct'')
      else
        (case fold_args (zip (st_members s) args) (0, []) of
           Inl e \<Rightarrow> Inl e
         | Inr (n1, stack) \<Rightarrow>
             (let n = foldl (\<lambda>n mem. n OR bigint_shl (sm_value mem) (sm_shift mem)) n1
                        (drop (length args) (st_members s));
                  expr = Literal_bigint n
              in Inr (foldl (\<lambda>expr (mem, arg). accumulate mem expr arg) expr stack))))"

text \<open>
  The layout as the specification words it: the members occupy consecutive bit ranges
  from the most significant bit on, so a member stands at the offset that is the sum of the
  widths declared before it, padding included.
\<close>

fun spec_layout :: "(string \<times> int) list \<Rightarrow> int \<Rightarrow> (string \<times> int \<times> int) list" where
  "spec_layout [] off = []"
| "spec_layout ((name, w) # rest) off =
     (if name = ''+'' then spec_layout rest (off + w) else (name, off, w) # spec_layout rest (off + w))"

text \<open>The struct \<^verbatim>\<open>btc_output\<close> of the documentation.\<close>

definition btc_output :: "struct_member_decl list" where
  "btc_output =
     [\<lparr>sd_kind = ''uint64'', sd_name = ''value'', sd_value = Literal DecimalNumber None ''0''\<rparr>,
      \<lparr>sd_kind = ''uint24'', sd_name = ''prefix'', sd_value = Literal HexNumber None ''0x160014''\<rparr>,
      \<lparr>sd_kind = ''bytes20'', sd_name = ''hash'', sd_value = Literal DecimalNumber None ''0''\<rparr>]"

section \<open>The preprocessor construct \<^verbatim>\<open>@if\<close>\<close>

text \<open>
  The case \<^verbatim>\<open>Fold\<close> of \<^verbatim>\<open>Transformer.rewrite\<close> calls \<^verbatim>\<open>this.rewrite\<close> on the conditions and
  on one block.  The recursive call is the parameter \<open>rw\<close>, so that the case is modelled for
  every behaviour of the rewriting of its parts.
\<close>

text \<open>The test \<^verbatim>\<open>isLiteral(result) && toBigInt(result.value)\<close>; the conversion may throw.\<close>

definition fold_test :: "node \<Rightarrow> error + bool" where
  "fold_test result =
     (if isLiteral result then
        (case toBigInt (literal_value result) of
           None \<Rightarrow> Inl SyntaxError
         | Some b \<Rightarrow> Inr (b \<noteq> 0))
      else Inr False)"

text \<open>
  The loop over the branches: \<open>Some r\<close> when a branch returned \<open>r\<close>, \<open>None\<close> when the loop
  ran to its end.
\<close>

fun fold_branches :: "(node \<Rightarrow> error + node) \<Rightarrow> (node \<times> node) list \<Rightarrow> error + node option" where
  "fold_branches rw [] = Inr None"
| "fold_branches rw ((expr, block) # rest) =
     (case rw expr of
        Inl e \<Rightarrow> Inl e
      | Inr result \<Rightarrow>
          (case fold_test result of
             Inl e \<Rightarrow> Inl e
           | Inr True \<Rightarrow> (case rw block of Inl e \<Rightarrow> Inl e | Inr r \<Rightarrow> Inr (Some r))
           | Inr False \<Rightarrow> fold_branches rw rest))"

definition rewrite_Fold :: "(node \<Rightarrow> error + node) \<Rightarrow> node \<Rightarrow> error + node" where
  "rewrite_Fold rw node =
     (case node of
        Fold expr block branches otherwise \<Rightarrow>
          (case fold_branches rw ((expr, block) # branches) of
             Inl e \<Rightarrow> Inl e
           | Inr (Some r) \<Rightarrow> Inr r
           | Inr None \<Rightarrow> (case otherwise of Some b \<Rightarrow> rw b | None \<Rightarrow> Inr Null))
      | _ \<Rightarrow> Inl (Error ''unreachable''))"

text \<open>
  A rewritten condition selects its branch when it is a numeric or Boolean literal other
  than zero; it passes the branch over when it is no such literal or is zero.
\<close>

definition selects :: "node \<Rightarrow> bool" where
  "selects r = (isLiteral r \<and> (\<exists>b. toBigInt (literal_value r) = Some b \<and> b \<noteq> 0))"

definition passes_over :: "node \<Rightarrow> bool" where
  "passes_over r = (\<not> isLiteral r \<or> toBigInt (literal_value r) = Some 0)"

section \<open>Expression folding\<close>

subsection \<open>Operations of \<^verbatim>\<open>BigInt\<close> that can throw\<close>

text \<open>
  Division and remainder truncate towards zero and throw on a zero divisor; the power
  throws on a negative exponent.  A \<^verbatim>\<open>BigInt\<close> is unbounded up to the limit of the engine: V8,
  the engine of Node, throws a \<^verbatim>\<open>RangeError\<close> when a result needs more than \<open>2 ^ 30\<close> bits.
  Among the operations of \<^verbatim>\<open>fold\<close> on literals (values below \<open>2 ^ 256\<close>) only the power and
  the left shift by a literal can reach this limit.
\<close>

definition bigint_max_bits :: nat where
  "bigint_max_bits = 2 ^ 30"

definition bigint_too_big :: "int \<Rightarrow> bool" where
  "bigint_too_big v = (2 ^ bigint_max_bits \<le> \<bar>v\<bar>)"

definition bigint_div :: "int \<Rightarrow> int \<Rightarrow> error + int" where
  "bigint_div x y = (if y = 0 then Inl RangeError else Inr (x sdiv y))"

definition bigint_rem :: "int \<Rightarrow> int \<Rightarrow> error + int" where
  "bigint_rem x y = (if y = 0 then Inl RangeError else Inr (x smod y))"

definition bigint_pow :: "int \<Rightarrow> int \<Rightarrow> error + int" where
  "bigint_pow x y =
     (if y < 0 then Inl RangeError
      else if bigint_too_big (x ^ nat y) then Inl RangeError
      else Inr (x ^ nat y))"

text \<open>The left shift \<^verbatim>\<open>x << s\<close> where the count is not bounded.\<close>

definition bigint_shl_checked :: "int \<Rightarrow> int \<Rightarrow> error + int" where
  "bigint_shl_checked x s =
     (if bigint_too_big (bigint_shl x s) then Inl RangeError else Inr (bigint_shl x s))"

text \<open>The step \<^verbatim>\<open>if (x & I256_SIGN) x = -(-x & U256_MAX)\<close>.\<close>

definition to_signed :: "int \<Rightarrow> int" where
  "to_signed x = (if x AND I256_SIGN \<noteq> 0 then - ((- x) AND U256_MAX) else x)"

text \<open>\<^verbatim>\<open>Literal(Number(b))\<close> for a Boolean \<open>b\<close>.\<close>

definition Literal_bool :: "bool \<Rightarrow> node" where
  "Literal_bool b = Literal_number (if b then 1 else 0)"

text \<open>
  \<^verbatim>\<open>JSON.parse\<close> on the text of a string token: the characters between the quotes, with the
  escapes of JSON resolved, as a list of code units; \<open>None\<close> when the text is no JSON string
  (a control character, an escape that JSON does not have), where \<^verbatim>\<open>JSON.parse\<close> throws.
\<close>

fun json_chars :: "string \<Rightarrow> nat list option" where
  "json_chars [] = None"
| "json_chars [c] = (if c = CHR 0x22 then Some [] else None)"
| "json_chars (c # d # cs) =
     (if c = CHR 0x22 then None
      else if c = CHR 0x5C then
        (if d = CHR ''u'' then
           (if length cs \<ge> 4 \<and> list_all (is_digit_in 16) (take 4 cs)
            then map_option ((#) (digits_val 16 (take 4 cs))) (json_chars (drop 4 cs))
            else None)
         else
           (case map_of [(CHR 0x22, 34), (CHR 0x5C, 92), (CHR ''/'', 47), (CHR ''b'', 8),
                         (CHR ''f'', 12), (CHR ''n'', 10), (CHR ''r'', 13), (CHR ''t'', 9)] d of
              None \<Rightarrow> None
            | Some u \<Rightarrow> map_option ((#) u) (json_chars cs)))
      else if (of_char c :: nat) < 32 then None
      else map_option ((#) (of_char c)) (json_chars (d # cs)))"

definition JSON_parse_string :: "string \<Rightarrow> nat list option" where
  "JSON_parse_string v = (case v of [] \<Rightarrow> None | c # cs \<Rightarrow> if c = CHR 0x22 then json_chars cs else None)"

subsection \<open>The cases of \<^verbatim>\<open>fold\<close>\<close>

text \<open>
  A case returns \<open>Inr None\<close> for \<^verbatim>\<open>null\<close> (no folding), \<open>Inr (Some n)\<close> for the replacement
  \<open>n\<close>, and \<open>Inl e\<close> when it throws.  The common tail of the binary cases: both arguments
  must be numeric literals, then their values are converted and combined.
\<close>

definition with_values2 :: "node \<Rightarrow> node \<Rightarrow> (int \<Rightarrow> int \<Rightarrow> error + node option) \<Rightarrow> error + node option" where
  "with_values2 a0 a1 f =
     (if \<not> isLiterals [a0, a1] then Inr None
      else (case toBigInt (literal_value a0) of
              None \<Rightarrow> Inl SyntaxError
            | Some x \<Rightarrow>
                (case toBigInt (literal_value a1) of
                   None \<Rightarrow> Inl SyntaxError
                 | Some y \<Rightarrow> f x y)))"

definition with_values3 ::
  "node \<Rightarrow> node \<Rightarrow> node \<Rightarrow> (int \<Rightarrow> int \<Rightarrow> int \<Rightarrow> error + node option) \<Rightarrow> error + node option" where
  "with_values3 a0 a1 a2 f =
     (if \<not> isLiterals [a0, a1, a2] then Inr None
      else (case toBigInt (literal_value a0) of
              None \<Rightarrow> Inl SyntaxError
            | Some x \<Rightarrow>
                (case toBigInt (literal_value a1) of
                   None \<Rightarrow> Inl SyntaxError
                 | Some y \<Rightarrow>
                     (case toBigInt (literal_value a2) of
                        None \<Rightarrow> Inl SyntaxError
                      | Some m \<Rightarrow> f x y m))))"

definition lit :: "int \<Rightarrow> error + node option" where
  "lit v = Inr (Some (Literal_bigint v))"

definition lit_of :: "error + int \<Rightarrow> error + node option" where
  "lit_of r = (case r of Inl e \<Rightarrow> Inl e | Inr v \<Rightarrow> lit v)"

definition fold_add :: "node list \<Rightarrow> error + node option" where
  "fold_add args =
     (case args of
        [a0, a1] \<Rightarrow>
          if isZero a0 then Inr (Some a1)
          else if isZero a1 then Inr (Some a0)
          else with_values2 a0 a1 (\<lambda>x y. lit (x + y))
      | _ \<Rightarrow> Inr None)"

definition fold_sub :: "node list \<Rightarrow> error + node option" where
  "fold_sub args =
     (case args of
        [a0, a1] \<Rightarrow>
          if isZero a1 then Inr (Some a0)
          else with_values2 a0 a1 (\<lambda>x y. lit (x - y))
      | _ \<Rightarrow> Inr None)"

definition fold_mul :: "node list \<Rightarrow> error + node option" where
  "fold_mul args =
     (case args of
        [a0, a1] \<Rightarrow>
          if isZero a0 \<or> isZero a1 then Inr (Some (Literal_number 0))
          else if isOne a0 then Inr (Some a1)
          else if isOne a1 then Inr (Some a0)
          else with_values2 a0 a1 (\<lambda>x y. lit (x * y))
      | _ \<Rightarrow> Inr None)"

text \<open>The cases \<^verbatim>\<open>div\<close> and \<^verbatim>\<open>sdiv\<close> share their code; \<open>is_signed\<close> tells them apart.\<close>

definition fold_div :: "bool \<Rightarrow> node list \<Rightarrow> error + node option" where
  "fold_div is_signed args =
     (case args of
        [a0, a1] \<Rightarrow>
          if isZero a0 \<or> isZero a1 then Inr (Some (Literal_number 0))
          else if \<not> is_signed \<and> isOne a1 then Inr (Some a0)
          else with_values2 a0 a1 (\<lambda>x y.
                 if is_signed then lit_of (bigint_div (to_signed x) (to_signed y))
                 else lit_of (bigint_div x y))
      | _ \<Rightarrow> Inr None)"

definition fold_mod :: "bool \<Rightarrow> node list \<Rightarrow> error + node option" where
  "fold_mod is_signed args =
     (case args of
        [a0, a1] \<Rightarrow>
          if isZero a0 \<or> isZero a1 then Inr (Some (Literal_number 0))
          else if isOne a1 then Inr (Some (Literal_number 0))
          else with_values2 a0 a1 (\<lambda>x y.
                 if is_signed then lit_of (bigint_rem (to_signed x) (to_signed y))
                 else lit_of (bigint_rem x y))
      | _ \<Rightarrow> Inr None)"

text \<open>
  The case \<^verbatim>\<open>exp\<close>.  The third test, for a base that is zero, comes before the test that
  both arguments are literals.
\<close>

definition fold_exp :: "node list \<Rightarrow> error + node option" where
  "fold_exp args =
     (case args of
        [a0, a1] \<Rightarrow>
          if isZero a1 then Inr (Some (Literal_number 1))
          else if isOne a1 then Inr (Some a0)
          else if isZero a0 then Inr (Some (Literal_number 0))
          else with_values2 a0 a1 (\<lambda>x y. lit_of (bigint_pow x y))
      | _ \<Rightarrow> Inr None)"

definition fold_addmod :: "node list \<Rightarrow> error + node option" where
  "fold_addmod args =
     (case args of
        [a0, a1, a2] \<Rightarrow>
          if isZero a2 then Inr (Some (Literal_number 0))
          else with_values3 a0 a1 a2 (\<lambda>x y m. lit_of (bigint_rem (x + y) m))
      | _ \<Rightarrow> Inr None)"

definition fold_mulmod :: "node list \<Rightarrow> error + node option" where
  "fold_mulmod args =
     (case args of
        [a0, a1, a2] \<Rightarrow>
          if isZero a0 \<or> isZero a1 \<or> isZero a2 then Inr (Some (Literal_number 0))
          else with_values3 a0 a1 a2 (\<lambda>x y m. lit_of (bigint_rem (x * y) m))
      | _ \<Rightarrow> Inr None)"

definition fold_not :: "node list \<Rightarrow> error + node option" where
  "fold_not args =
     (case args of
        [a0] \<Rightarrow>
          if \<not> isLiterals [a0] then Inr None
          else (case toBigInt (literal_value a0) of
                  None \<Rightarrow> Inl SyntaxError
                | Some x \<Rightarrow> lit (x XOR U256_MAX))
      | _ \<Rightarrow> Inr None)"

definition fold_and :: "node list \<Rightarrow> error + node option" where
  "fold_and args =
     (case args of
        [a0, a1] \<Rightarrow>
          if isZero a0 then Inr (Some (Literal_number 0))
          else if isZero a1 then Inr (Some (Literal_number 0))
          else with_values2 a0 a1 (\<lambda>x y. lit (x AND y))
      | _ \<Rightarrow> Inr None)"

definition fold_or :: "node list \<Rightarrow> error + node option" where
  "fold_or args =
     (case args of
        [a0, a1] \<Rightarrow>
          if isZero a0 then Inr (Some a1)
          else if isZero a1 then Inr (Some a0)
          else with_values2 a0 a1 (\<lambda>x y. lit (x OR y))
      | _ \<Rightarrow> Inr None)"

definition fold_xor :: "node list \<Rightarrow> error + node option" where
  "fold_xor args =
     (case args of
        [a0, a1] \<Rightarrow>
          if isZero a0 then Inr (Some a1)
          else if isZero a1 then Inr (Some a0)
          else with_values2 a0 a1 (\<lambda>x y. lit (x XOR y))
      | _ \<Rightarrow> Inr None)"

definition fold_shl :: "node list \<Rightarrow> error + node option" where
  "fold_shl args =
     (case args of
        [a0, a1] \<Rightarrow>
          if isZero a0 then Inr (Some a1)
          else with_values2 a0 a1 (\<lambda>shift num. lit_of (bigint_shl_checked num shift))
      | _ \<Rightarrow> Inr None)"

text \<open>The cases \<^verbatim>\<open>shr\<close> and \<^verbatim>\<open>sar\<close> share their code.\<close>

definition fold_shr :: "bool \<Rightarrow> node list \<Rightarrow> error + node option" where
  "fold_shr is_signed args =
     (case args of
        [a0, a1] \<Rightarrow>
          if isZero a0 then Inr (Some a1)
          else with_values2 a0 a1 (\<lambda>shift num.
                 lit (bigint_shr (if is_signed then to_signed num else num) shift))
      | _ \<Rightarrow> Inr None)"

definition fold_signextend :: "node list \<Rightarrow> error + node option" where
  "fold_signextend args =
     (case args of
        [a0, a1] \<Rightarrow>
          with_values2 a0 a1 (\<lambda>b x.
            if b > 31 then lit x
            else (let bit = b * 8 + 7;
                      mask = bigint_shl 1 bit - 1
                  in if x AND bigint_shl 1 bit \<noteq> 0 then lit (x OR (mask XOR U256_MAX))
                     else lit (x AND mask)))
      | _ \<Rightarrow> Inr None)"

definition fold_byte :: "node list \<Rightarrow> error + node option" where
  "fold_byte args =
     (case args of
        [a0, a1] \<Rightarrow>
          with_values2 a0 a1 (\<lambda>pos num.
            if pos > 31 then Inr (Some (Literal_number 0))
            else (let shift = bigint_shl (31 - pos) 3
                  in lit (bigint_shr num shift AND 255)))
      | _ \<Rightarrow> Inr None)"

text \<open>
  The case \<^verbatim>\<open>iszero\<close>.  An argument \<^verbatim>\<open>lt(x, y)\<close> or \<^verbatim>\<open>gt(x, y)\<close> with a literal \<open>y\<close> is
  rewritten to the opposite strict comparison; when \<open>y\<close> is no literal the case goes on.
\<close>

definition fold_iszero :: "node list \<Rightarrow> error + node option" where
  "fold_iszero args =
     (case args of
        [a0] \<Rightarrow>
          (let plain =
                 (if \<not> isLiteral a0 then Inr None
                  else (case toBigInt (literal_value a0) of
                          None \<Rightarrow> Inl SyntaxError
                        | Some x \<Rightarrow> Inr (Some (Literal_bool (x = 0)))))
           in case a0 of
                FunctionCall nm [x, y] \<Rightarrow>
                  if nm = ''lt'' \<and> isLiteral y then
                    (case toBigInt (literal_value y) of
                       None \<Rightarrow> Inl SyntaxError
                     | Some n \<Rightarrow>
                         if n = 0 then Inr (Some (Literal_number 1))
                         else Inr (Some (Gt x (Literal_bigint (n - 1)))))
                  else if nm = ''gt'' \<and> isLiteral y then
                    (case toBigInt (literal_value y) of
                       None \<Rightarrow> Inl SyntaxError
                     | Some n \<Rightarrow>
                         if n = U256_MAX then Inr (Some (Literal_number 1))
                         else Inr (Some (Lt x (Literal_bigint (n + 1)))))
                  else plain
              | _ \<Rightarrow> plain)
      | _ \<Rightarrow> Inr None)"

definition fold_eq :: "node list \<Rightarrow> error + node option" where
  "fold_eq args =
     (case args of
        [a0, a1] \<Rightarrow>
          if isStringLiteral a0 \<and> isStringLiteral a1 then
            (case JSON_parse_string (literal_value a0) of
               None \<Rightarrow> Inl SyntaxError
             | Some lhs \<Rightarrow>
                 (case JSON_parse_string (literal_value a1) of
                    None \<Rightarrow> Inl SyntaxError
                  | Some rhs \<Rightarrow> Inr (Some (Literal_bool (lhs = rhs)))))
          else if isLiterals [a0, a1] then
            with_values2 a0 a1 (\<lambda>lhs rhs. Inr (Some (Literal_bool (lhs = rhs))))
          else if isZero a0 then Inr (Some (IsZero a1))
          else if isZero a1 then Inr (Some (IsZero a0))
          else Inr None
      | _ \<Rightarrow> Inr None)"

text \<open>The cases \<^verbatim>\<open>lt\<close>, \<^verbatim>\<open>slt\<close> and \<^verbatim>\<open>gt\<close>, \<^verbatim>\<open>sgt\<close>.\<close>

definition fold_lt :: "bool \<Rightarrow> node list \<Rightarrow> error + node option" where
  "fold_lt is_signed args =
     (case args of
        [a0, a1] \<Rightarrow>
          with_values2 a0 a1 (\<lambda>lhs rhs.
            if is_signed then Inr (Some (Literal_bool (to_signed lhs < to_signed rhs)))
            else Inr (Some (Literal_bool (lhs < rhs))))
      | _ \<Rightarrow> Inr None)"

definition fold_gt :: "bool \<Rightarrow> node list \<Rightarrow> error + node option" where
  "fold_gt is_signed args =
     (case args of
        [a0, a1] \<Rightarrow>
          with_values2 a0 a1 (\<lambda>lhs rhs.
            if is_signed then Inr (Some (Literal_bool (to_signed lhs > to_signed rhs)))
            else Inr (Some (Literal_bool (lhs > rhs))))
      | _ \<Rightarrow> Inr None)"

definition bswap16 :: "int \<Rightarrow> int" where
  "bswap16 x = (bigint_shl (x AND 0x00ff) 8) OR (bigint_shr (x AND 0xff00) 8)"

definition bswap32 :: "int \<Rightarrow> int" where
  "bswap32 x =
     (let x1 = (bigint_shl (x AND 0x0000ffff) 16) OR (bigint_shr (x AND 0xffff0000) 16)
      in (bigint_shl (x1 AND 0x00ff00ff) 8) OR (bigint_shr (x1 AND 0xff00ff00) 8))"

definition bswap64 :: "int \<Rightarrow> int" where
  "bswap64 x =
     (let x1 = (bigint_shl (x AND 0x00000000ffffffff) 32) OR (bigint_shr (x AND 0xffffffff00000000) 32);
          x2 = (bigint_shl (x1 AND 0x0000ffff0000ffff) 16) OR (bigint_shr (x1 AND 0xffff0000ffff0000) 16)
      in (bigint_shl (x2 AND 0x00ff00ff00ff00ff) 8) OR (bigint_shr (x2 AND 0xff00ff00ff00ff00) 8))"

definition fold_bswap :: "(int \<Rightarrow> int) \<Rightarrow> node list \<Rightarrow> error + node option" where
  "fold_bswap swap args =
     (case args of
        [a0] \<Rightarrow>
          if \<not> isLiterals [a0] then Inr None
          else (case toBigInt (literal_value a0) of
                  None \<Rightarrow> Inl SyntaxError
                | Some x \<Rightarrow> lit (swap x))
      | _ \<Rightarrow> Inr None)"

text \<open>\<^verbatim>\<open>fold(name, args)\<close>: the switch over the name of the call (named \<open>fold_call\<close> here, the
  name \<open>fold\<close> being the one of a function on lists).\<close>

definition fold_call :: "string \<Rightarrow> node list \<Rightarrow> error + node option" where
  "fold_call name args =
     (if name = ''add'' then fold_add args
      else if name = ''sub'' then fold_sub args
      else if name = ''mul'' then fold_mul args
      else if name = ''div'' then fold_div False args
      else if name = ''sdiv'' then fold_div True args
      else if name = ''mod'' then fold_mod False args
      else if name = ''smod'' then fold_mod True args
      else if name = ''exp'' then fold_exp args
      else if name = ''addmod'' then fold_addmod args
      else if name = ''mulmod'' then fold_mulmod args
      else if name = ''not'' then fold_not args
      else if name = ''and'' then fold_and args
      else if name = ''or'' then fold_or args
      else if name = ''xor'' then fold_xor args
      else if name = ''shl'' then fold_shl args
      else if name = ''shr'' then fold_shr False args
      else if name = ''sar'' then fold_shr True args
      else if name = ''signextend'' then fold_signextend args
      else if name = ''byte'' then fold_byte args
      else if name = ''iszero'' then fold_iszero args
      else if name = ''eq'' then fold_eq args
      else if name = ''lt'' then fold_lt False args
      else if name = ''slt'' then fold_lt True args
      else if name = ''gt'' then fold_gt False args
      else if name = ''sgt'' then fold_gt True args
      else if name = ''__bswap16'' then fold_bswap bswap16 args
      else if name = ''__bswap32'' then fold_bswap bswap32 args
      else if name = ''__bswap64'' then fold_bswap bswap64 args
      else Inr None)"

text \<open>\<^verbatim>\<open>tryFold(node)\<close>: \<^verbatim>\<open>fold(node.name, node.args) || node\<close> on a call.\<close>

definition tryFold :: "node \<Rightarrow> error + node" where
  "tryFold n =
     (case n of
        FunctionCall name args \<Rightarrow>
          (case fold_call name args of Inl e \<Rightarrow> Inl e | Inr None \<Rightarrow> Inr n | Inr (Some r) \<Rightarrow> Inr r)
      | _ \<Rightarrow> Inr n)"

subsection \<open>The arithmetic of the EVM\<close>

text \<open>
  The value of an opcode of the EVM on words of 256 bits, for the opcodes that \<^verbatim>\<open>fold\<close>
  treats; \<open>None\<close> for another name or another number of arguments.  Division by zero
  yields zero; the signed operations read the words in two's complement and truncate
  towards zero; a shift by 256 or more clears the word, or fills it with the sign for
  \<^verbatim>\<open>sar\<close>; \<^verbatim>\<open>byte\<close> counts from the most significant byte.
\<close>

type_synonym u256 = "256 word"

definition evm_bool :: "bool \<Rightarrow> u256" where
  "evm_bool b = (if b then 1 else 0)"

definition evm_op :: "string \<Rightarrow> u256 list \<Rightarrow> u256 option" where
  "evm_op name vs =
     (case vs of
        [x] \<Rightarrow>
          if name = ''not'' then Some (NOT x)
          else if name = ''iszero'' then Some (evm_bool (x = 0))
          else None
      | [x, y] \<Rightarrow>
          if name = ''add'' then Some (x + y)
          else if name = ''sub'' then Some (x - y)
          else if name = ''mul'' then Some (x * y)
          else if name = ''div'' then Some (if y = 0 then 0 else x div y)
          else if name = ''sdiv'' then Some (if y = 0 then 0 else word_of_int (sint x sdiv sint y))
          else if name = ''mod'' then Some (if y = 0 then 0 else x mod y)
          else if name = ''smod'' then Some (if y = 0 then 0 else word_of_int (sint x smod sint y))
          else if name = ''exp'' then Some (x ^ unat y)
          else if name = ''and'' then Some (x AND y)
          else if name = ''or'' then Some (x OR y)
          else if name = ''xor'' then Some (x XOR y)
          else if name = ''shl'' then Some (if 256 \<le> unat x then 0 else push_bit (unat x) y)
          else if name = ''shr'' then Some (if 256 \<le> unat x then 0 else drop_bit (unat x) y)
          else if name = ''sar'' then
            Some (if 256 \<le> unat x then (if sint y < 0 then - 1 else 0) else signed_drop_bit (unat x) y)
          else if name = ''signextend'' then
            Some (if 31 \<le> unat x then y else signed_take_bit (8 * unat x + 7) y)
          else if name = ''byte'' then
            Some (if 32 \<le> unat x then 0 else drop_bit (8 * (31 - unat x)) y AND 255)
          else if name = ''eq'' then Some (evm_bool (x = y))
          else if name = ''lt'' then Some (evm_bool (x < y))
          else if name = ''gt'' then Some (evm_bool (y < x))
          else if name = ''slt'' then Some (evm_bool (sint x < sint y))
          else if name = ''sgt'' then Some (evm_bool (sint y < sint x))
          else None
      | [x, y, m] \<Rightarrow>
          if name = ''addmod'' then
            Some (if m = 0 then 0 else word_of_nat ((unat x + unat y) mod unat m))
          else if name = ''mulmod'' then
            Some (if m = 0 then 0 else word_of_nat ((unat x * unat y) mod unat m))
          else None
      | _ \<Rightarrow> None)"

text \<open>
  The value of an expression.  A numeric or Boolean literal has the value of its text; a
  call of one of the opcodes above has the value of the opcode on the values of its
  arguments; every other node (an identifier, another call, a string) has the value that
  the valuation \<open>env\<close> gives it.
\<close>

fun eval :: "(node \<Rightarrow> u256) \<Rightarrow> node \<Rightarrow> u256" where
  "eval env (Literal st k v) =
     (if isLiteral (Literal st k v) then
        (case toBigInt v of Some b \<Rightarrow> word_of_int b | None \<Rightarrow> env (Literal st k v))
      else env (Literal st k v))"
| "eval env (FunctionCall name args) =
     (case evm_op name (map (eval env) args) of
        Some v \<Rightarrow> v
      | None \<Rightarrow> env (FunctionCall name args))"
| "eval env n = env n"

text \<open>The valuation that gives the value 0 to every node it is asked about.\<close>

definition env0 :: "node \<Rightarrow> u256" where
  "env0 n = 0"

subsection \<open>The literals that reach \<^verbatim>\<open>fold\<close>\<close>

text \<open>
  A number literal comes from the parser (\<^verbatim>\<open>0x\<close> and hexadecimal digits, or decimal digits,
  with a value below \<open>2 ^ 256\<close>; a negative token has been replaced by its two's complement)
  or from \<^verbatim>\<open>Literal(value)\<close>, which writes the same forms; a Boolean literal is \<^verbatim>\<open>true\<close> or
  \<^verbatim>\<open>false\<close>.  The transformer rewrites the arguments of a call before it folds the call,
  and the rewriting of a literal resolves its unit, so the literals that \<^verbatim>\<open>fold\<close> reads
  carry none.  \<open>wf\<close> asks this of the arguments of a call and of the arguments of the
  calls among them; it asks nothing of the other nodes.
\<close>

definition wf_literal :: "subtype \<Rightarrow> string option \<Rightarrow> string \<Rightarrow> bool" where
  "wf_literal st k v =
     (k = None \<and>
      (if st = HexNumber then
         take 2 v = ''0x'' \<and> drop 2 v \<noteq> [] \<and> list_all (is_digit_in 16) (drop 2 v)
         \<and> int (digits_val 16 (drop 2 v)) \<le> U256_MAX
       else if st = DecimalNumber then
         v \<noteq> [] \<and> list_all (is_digit_in 10) v \<and> int (digits_val 10 v) \<le> U256_MAX
       else if st = BoolLiteral then v = ''true'' \<or> v = ''false''
       else True))"

fun wf :: "node \<Rightarrow> bool" where
  "wf (Literal st k v) = wf_literal st k v"
| "wf (FunctionCall name args) = list_all wf args"
| "wf n = True"

text \<open>
  The two places where the value of the replacement is not compared with the value of the
  call: \<^verbatim>\<open>exp\<close> with a literal zero as base and an exponent that is no literal, and \<^verbatim>\<open>eq\<close> on
  two string literals, which are no numbers.
\<close>

definition exp_zero_base :: "string \<Rightarrow> node list \<Rightarrow> bool" where
  "exp_zero_base name args =
     (case args of [a0, a1] \<Rightarrow> name = ''exp'' \<and> isZero a0 \<and> \<not> isLiteral a1 | _ \<Rightarrow> False)"

definition eq_strings :: "string \<Rightarrow> node list \<Rightarrow> bool" where
  "eq_strings name args =
     (case args of [a0, a1] \<Rightarrow> name = ''eq'' \<and> isStringLiteral a0 \<and> isStringLiteral a1 | _ \<Rightarrow> False)"

text \<open>The names of the opcodes that \<^verbatim>\<open>fold\<close> treats.\<close>

definition folded_opcodes :: "string list" where
  "folded_opcodes =
     [''add'', ''sub'', ''mul'', ''div'', ''sdiv'', ''mod'', ''smod'', ''exp'', ''addmod'', ''mulmod'',
      ''not'', ''and'', ''or'', ''xor'', ''shl'', ''shr'', ''sar'', ''signextend'', ''byte'', ''iszero'',
      ''eq'', ''lt'', ''slt'', ''gt'', ''sgt'']"

text \<open>The value of a well-formed literal, and of a node (0 for a node that is no literal).\<close>

definition lit_val :: "subtype \<Rightarrow> string \<Rightarrow> int" where
  "lit_val st v =
     (if st = HexNumber then int (digits_val 16 (drop 2 v))
      else if st = DecimalNumber then int (digits_val 10 v)
      else if v = ''true'' then 1 else 0)"

definition nval :: "node \<Rightarrow> int" where
  "nval n = (case n of Literal st k v \<Rightarrow> lit_val st v | _ \<Rightarrow> 0)"

definition in_range :: "int \<Rightarrow> bool" where
  "in_range x = (0 \<le> x \<and> x \<le> U256_MAX)"

section \<open>Parsing and serializing statements\<close>

text \<open>
  The model covers a fragment of the grammar: the statements \<^verbatim>\<open>emit\<close>, \<^verbatim>\<open>throw\<close>,
  \<^verbatim>\<open>break\<close>, \<^verbatim>\<open>continue\<close>, \<^verbatim>\<open>leave\<close>, assignments to identifiers and expression
  statements, with the expressions built from function calls, number and Boolean literals
  and identifiers.  The state of the parser is the rest of the input; the line counters
  serve the error messages only.  A production returns \<open>Inl e\<close> when it throws (the failed
  \<^verbatim>\<open>Parser.assert\<close> is \<open>ParseError\<close>), \<open>Inr (None, input)\<close> when it returns \<^verbatim>\<open>null\<close>, and
  \<open>Inr (Some node, rest)\<close> otherwise.

  Every production outside the fragment begins with a test that makes it return \<^verbatim>\<open>null\<close>,
  the input untouched: \<^verbatim>\<open>keyword(w)\<close>, or a regular expression that begins with a fixed
  word \<open>w\<close>.  The model keeps these tests, in the order of the source, and gives the result
  \<open>Inl Unmodelled\<close> when the input passes one of them (for a regular expression: when the
  input starts with the word, which every match needs).  The same result stands for an
  exhausted recursion depth.  So a result other than \<open>Inl Unmodelled\<close> is the result of
  the source.
\<close>

subsection \<open>\<^verbatim>\<open>stripComments\<close>\<close>

text \<open>
  The constructor of the parser strips the comments first.  Only the code that
  \<^verbatim>\<open>stripComments\<close> returns is modelled, not the table of the comments.
\<close>

datatype strip_state = NONE | SLASH | LINE | MULTI | STAR | QUOTE | BACK

fun stripComments_loop :: "strip_state \<Rightarrow> string \<Rightarrow> string \<Rightarrow> error + string" where
  "stripComments_loop st out [] = Inr out"
| "stripComments_loop st out (ch # rest) =
     (if ch = CHR 0x0D then stripComments_loop st out rest
      else (case st of
              NONE \<Rightarrow>
                if ch = CHR ''/'' then stripComments_loop SLASH out rest
                else if ch = CHR 0x22 then stripComments_loop QUOTE (out @ [ch]) rest
                else stripComments_loop NONE (out @ [ch]) rest
            | SLASH \<Rightarrow>
                if ch = CHR ''/'' then stripComments_loop LINE out rest
                else if ch = CHR ''*'' then stripComments_loop MULTI out rest
                else stripComments_loop NONE (out @ ''/'' @ [ch]) rest
            | LINE \<Rightarrow>
                if ch = CHR 0x0A then stripComments_loop NONE (out @ [ch]) rest
                else stripComments_loop LINE out rest
            | MULTI \<Rightarrow>
                if ch = CHR ''*'' then stripComments_loop STAR out rest
                else if ch = CHR 0x0A then stripComments_loop MULTI (out @ [ch]) rest
                else stripComments_loop MULTI out rest
            | STAR \<Rightarrow>
                if ch = CHR ''/'' then stripComments_loop NONE out rest
                else if ch = CHR 0x0A then stripComments_loop MULTI (out @ [ch]) rest
                else stripComments_loop MULTI out rest
            | QUOTE \<Rightarrow>
                if ch = CHR 0x22 then stripComments_loop NONE (out @ [ch]) rest
                else if ch = CHR 0x0A then Inl (Error ''No closing quote for string'')
                else if ch = CHR 0x5C then stripComments_loop BACK (out @ [ch]) rest
                else stripComments_loop QUOTE (out @ [ch]) rest
            | BACK \<Rightarrow> stripComments_loop QUOTE (out @ [ch]) rest))"

definition stripComments :: "string \<Rightarrow> error + string" where
  "stripComments inp = stripComments_loop NONE [] inp"

subsection \<open>Identifiers and literals\<close>

definition starts_with :: "string \<Rightarrow> string \<Rightarrow> bool" where
  "starts_with str inp = (take (length str) inp = str)"

text \<open>The alternative \<^verbatim>\<open>a || b\<close> of two productions: \<open>b\<close> is tried when \<open>a\<close> returns \<^verbatim>\<open>null\<close>.\<close>

definition orelse :: "error + ('a option \<times> string) \<Rightarrow> error + ('a option \<times> string) \<Rightarrow> error + ('a option \<times> string)" where
  "orelse a b =
     (case a of
        Inl e \<Rightarrow> Inl e
      | Inr (Some n, rest) \<Rightarrow> Inr (Some n, rest)
      | Inr (None, _) \<Rightarrow> b)"

text \<open>
  \<^verbatim>\<open>Parser.Identifier(replaceable)\<close> and \<^verbatim>\<open>Parser.CallDataIdentifier\<close>, the regular
  expression \<^verbatim>\<open>/^&?calldata\./\<close>.
\<close>

definition Identifier_parse :: "bool \<Rightarrow> string \<Rightarrow> node option \<times> string" where
  "Identifier_parse replaceable inp =
     (case Identifier_tok inp of
        (None, _) \<Rightarrow> (None, inp)
      | (Some v, rest) \<Rightarrow> (Some (Identifier v replaceable), rest))"

definition CallDataIdentifier_parse :: "string \<Rightarrow> error + (node option \<times> string)" where
  "CallDataIdentifier_parse inp =
     (let ref = starts_with ''&'' inp;
          r = (if ref then drop 1 inp else inp)
      in if \<not> starts_with ''calldata.'' r then Inr (None, inp)
         else (case Identifier_tok (eatSpace (drop 9 r)) of
                 (None, _) \<Rightarrow> Inl ParseError
               | (Some member, rest) \<Rightarrow> Inr (Some (CallDataIdentifier member ref), rest)))"

text \<open>
  The test of \<^verbatim>\<open>Parser.MemberIdentifier\<close>, the regular expression
  \<^verbatim>\<open>/^[a-zA-Z_$][\w$.]*(?::[a-zA-Z_$][\w$.]*)?->/\<close>.
\<close>

definition member_peek :: "string \<Rightarrow> bool" where
  "member_peek inp =
     (case inp of
        [] \<Rightarrow> False
      | c # cs \<Rightarrow>
          is_ident_start c \<and>
          (let r = dropWhile is_ident_char cs
           in starts_with ''->'' r \<or>
              (case r of
                 a # b # bs \<Rightarrow>
                   a = CHR '':'' \<and> is_ident_start b \<and> starts_with ''->'' (dropWhile is_ident_char bs)
               | _ \<Rightarrow> False)))"

text \<open>\<^verbatim>\<open>Parser.TypeName(name)\<close>, a name or nothing.\<close>

definition TypeName :: "string option \<Rightarrow> string \<Rightarrow> string option \<times> string" where
  "TypeName name inp =
     (case (name, consume ''@'' inp) of
        (Some n, Some rest) \<Rightarrow> (Some n, rest)
      | _ \<Rightarrow> Identifier_tok inp)"

definition MemberIdentifier_parse :: "string \<Rightarrow> error + (node option \<times> string)" where
  "MemberIdentifier_parse inp =
     (if \<not> member_peek inp then Inr (None, inp)
      else (case Identifier_tok inp of
              (None, _) \<Rightarrow> Inl ParseError
            | (Some name, r) \<Rightarrow>
                bind_err
                  (case consume '':'' r of
                     None \<Rightarrow> Inr (None, r)
                   | Some r1 \<Rightarrow>
                       (case TypeName (Some name) r1 of
                          (None, _) \<Rightarrow> Inl ParseError
                        | (Some t, r2) \<Rightarrow> Inr (Some t, r2)))
                  (\<lambda>(cast, r3).
                     bind_err (expect ''->'' r3) (\<lambda>r4.
                       case Identifier_tok r4 of
                         (None, _) \<Rightarrow> Inl ParseError
                       | (Some member, r5) \<Rightarrow> Inr (Some (MemberIdentifier name cast member), r5)))))"

text \<open>\<^verbatim>\<open>Parser.AnyIdentifier(replaceable)\<close>.\<close>

definition AnyIdentifier :: "bool \<Rightarrow> string \<Rightarrow> error + (node option \<times> string)" where
  "AnyIdentifier replaceable inp =
     orelse (MemberIdentifier_parse inp)
       (orelse (CallDataIdentifier_parse inp) (Inr (Identifier_parse replaceable inp)))"

text \<open>
  \<^verbatim>\<open>Parser.Literal\<close>.  String literals and \<^verbatim>\<open>hex\<close> literals are outside the fragment; their
  regular expressions need a quote, or \<^verbatim>\<open>hex\<close> and a quote, at the head of the input.
\<close>

definition Literal_kind :: "subtype \<Rightarrow> string \<Rightarrow> string \<Rightarrow> error + (node option \<times> string)" where
  "Literal_kind st v rest =
     (case consume '':'' rest of
        None \<Rightarrow> Inr (Some (Literal st None v), rest)
      | Some r \<Rightarrow>
          (case TypeName None r of
             (None, _) \<Rightarrow> Inl ParseError
           | (Some k, r1) \<Rightarrow> Inr (Some (Literal st (Some k) v), r1)))"

definition TrueLiteral :: "string \<Rightarrow> error + (token option \<times> string)" where
  "TrueLiteral inp =
     (case keyword ''true'' inp of None \<Rightarrow> Inr (None, inp) | Some rest \<Rightarrow> Inr (Some (BoolLiteral, ''true''), rest))"

definition FalseLiteral :: "string \<Rightarrow> error + (token option \<times> string)" where
  "FalseLiteral inp =
     (case keyword ''false'' inp of None \<Rightarrow> Inr (None, inp) | Some rest \<Rightarrow> Inr (Some (BoolLiteral, ''false''), rest))"

definition string_outside :: "string \<Rightarrow> bool" where
  "string_outside inp =
     (starts_with [CHR 0x22] inp \<or> starts_with (''hex'' @ [CHR 0x22]) inp
      \<or> starts_with (''hex'' @ [CHR 0x27]) inp)"

definition Literal_parse :: "string \<Rightarrow> error + (node option \<times> string)" where
  "Literal_parse inp =
     (case orelse (NumberLiteral_tok inp)
             (if string_outside inp then Inl Unmodelled
              else orelse (TrueLiteral inp) (FalseLiteral inp)) of
        Inl e \<Rightarrow> Inl e
      | Inr (None, _) \<Rightarrow> Inr (None, inp)
      | Inr (Some (st, v), rest) \<Rightarrow> Literal_kind st v rest)"

subsection \<open>Expressions\<close>

text \<open>
  The productions \<^verbatim>\<open>StructInitializer\<close>, \<^verbatim>\<open>MethodSignature\<close>, \<^verbatim>\<open>EventSignature\<close>,
  \<^verbatim>\<open>ErrorSignature\<close> and \<^verbatim>\<open>InterfaceCall\<close> are outside the fragment.  Their tests are the
  regular expressions \<^verbatim>\<open>/^struct\s*\(/\<close>, \<^verbatim>\<open>/^method\s*\(/\<close>, \<^verbatim>\<open>/^event\s*\(/\<close>,
  \<^verbatim>\<open>/^error\s*\(/\<close> and \<^verbatim>\<open>/^(?:create2?|call)\??\s+[a-zA-Z_$][\w$.]*\s*\(/\<close>; \<open>is_ws\<close> is the
  class \<^verbatim>\<open>\s\<close> on ASCII.
\<close>

definition is_ws :: "char \<Rightarrow> bool" where
  "is_ws c = (let n = (of_char c :: nat) in (9 \<le> n \<and> n \<le> 13) \<or> n = 32)"

definition word_paren :: "string \<Rightarrow> string \<Rightarrow> bool" where
  "word_paren w inp = (starts_with w inp \<and> starts_with ''('' (dropWhile is_ws (drop (length w) inp)))"

definition interface_tail :: "string \<Rightarrow> bool" where
  "interface_tail r =
     (let r1 = (if starts_with ''?'' r then drop 1 r else r);
          r2 = dropWhile is_ws r1
      in r2 \<noteq> r1 \<and>
         (case r2 of
            [] \<Rightarrow> False
          | c # cs \<Rightarrow> is_ident_start c \<and> starts_with ''('' (dropWhile is_ws (dropWhile is_ident_char cs))))"

definition interface_peek :: "string \<Rightarrow> bool" where
  "interface_peek inp =
     ((starts_with ''create2'' inp \<and> interface_tail (drop 7 inp))
      \<or> (starts_with ''create'' inp \<and> interface_tail (drop 6 inp))
      \<or> (starts_with ''call'' inp \<and> interface_tail (drop 4 inp)))"

definition expression_outside :: "string \<Rightarrow> bool" where
  "expression_outside inp =
     (word_paren ''struct'' inp \<or> word_paren ''method'' inp \<or> word_paren ''event'' inp
      \<or> word_paren ''error'' inp \<or> interface_peek inp)"

text \<open>
  \<^verbatim>\<open>Parser.Expression\<close> and \<^verbatim>\<open>Parser.FunctionCall\<close>; \<open>Arguments\<close> is the loop
  \<^verbatim>\<open>do { args.push(this.assert(this.Expression())) } while (this.consume(','))\<close>.  The first
  argument bounds the depth of the recursion.
\<close>

fun Expression :: "nat \<Rightarrow> string \<Rightarrow> error + (node option \<times> string)"
  and FunctionCall_parse :: "nat \<Rightarrow> string \<Rightarrow> error + (node option \<times> string)"
  and Arguments :: "nat \<Rightarrow> string \<Rightarrow> error + (node list \<times> string)" where
  "Expression 0 inp = Inl Unmodelled"
| "Expression (Suc n) inp =
     (if expression_outside inp then Inl Unmodelled
      else orelse (FunctionCall_parse n inp) (orelse (Literal_parse inp) (AnyIdentifier True inp)))"
| "FunctionCall_parse 0 inp = Inl Unmodelled"
| "FunctionCall_parse (Suc n) inp =
     (case Identifier_tok inp of
        (None, _) \<Rightarrow> Inr (None, inp)
      | (Some name, r) \<Rightarrow>
          (case consume ''('' r of
             None \<Rightarrow> Inr (None, inp)
           | Some r1 \<Rightarrow>
               bind_err
                 (if starts_with '')'' r1 then Inr ([], r1) else Arguments n r1)
                 (\<lambda>(args, r2).
                    bind_err (expect '')'' r2) (\<lambda>r3. Inr (Some (FunctionCall name args), r3)))))"
| "Arguments 0 inp = Inl Unmodelled"
| "Arguments (Suc n) inp =
     (case Expression n inp of
        Inl e \<Rightarrow> Inl e
      | Inr (None, _) \<Rightarrow> Inl ParseError
      | Inr (Some a, r) \<Rightarrow>
          (case consume '','' r of
             None \<Rightarrow> Inr ([a], r)
           | Some r1 \<Rightarrow> bind_err (Arguments n r1) (\<lambda>(args, r2). Inr (a # args, r2))))"

subsection \<open>Statements\<close>

text \<open>
  \<^verbatim>\<open>Parser.Emit\<close>: the offset, then the loop
  \<^verbatim>\<open>while (this.consume(',')) args.push(this.assert(this.Expression()))\<close>.
\<close>

definition Emit_parse :: "nat \<Rightarrow> string \<Rightarrow> error + (node option \<times> string)" where
  "Emit_parse fuel inp =
     (case keyword ''emit'' inp of
        None \<Rightarrow> Inr (None, inp)
      | Some r \<Rightarrow>
          (case Identifier_tok r of
             (None, _) \<Rightarrow> Inl ParseError
           | (Some name, r1) \<Rightarrow>
               bind_err (expect ''('' r1) (\<lambda>r2.
                 case Expression fuel r2 of
                   Inl e \<Rightarrow> Inl e
                 | Inr (None, _) \<Rightarrow> Inl ParseError
                 | Inr (Some offset, r3) \<Rightarrow>
                     bind_err
                       (case consume '','' r3 of
                          None \<Rightarrow> Inr ([], r3)
                        | Some r4 \<Rightarrow> Arguments fuel r4)
                       (\<lambda>(args, r5).
                          bind_err (expect '')'' r5) (\<lambda>r6. Inr (Some (Emit name offset args), r6))))))"

text \<open>\<^verbatim>\<open>Parser.Throw\<close>: the node has the field \<^verbatim>\<open>offset: null\<close>, which \<open>Throw\<close> leaves out.\<close>

definition Throw_parse :: "nat \<Rightarrow> string \<Rightarrow> error + (node option \<times> string)" where
  "Throw_parse fuel inp =
     (case keyword ''throw'' inp of
        None \<Rightarrow> Inr (None, inp)
      | Some r \<Rightarrow>
          (case Identifier_tok r of
             (None, _) \<Rightarrow> Inl ParseError
           | (Some name, r1) \<Rightarrow>
               bind_err (expect ''('' r1) (\<lambda>r2.
                 bind_err (Arguments fuel r2) (\<lambda>(args, r3).
                   bind_err (expect '')'' r3) (\<lambda>r4. Inr (Some (Throw name args), r4))))))"

text \<open>\<^verbatim>\<open>Parser.IdentifierList\<close>, on the items read so far, and \<^verbatim>\<open>Parser.Assignment\<close>.\<close>

fun IdentifierList_loop :: "nat \<Rightarrow> string list \<Rightarrow> string \<Rightarrow> error + (string list option \<times> string)" where
  "IdentifierList_loop 0 items inp = Inl Unmodelled"
| "IdentifierList_loop (Suc n) items inp =
     (case Identifier_tok inp of
        (None, _) \<Rightarrow> if items = [] then Inr (None, inp) else Inl ParseError
      | (Some name, r) \<Rightarrow>
          (case consume '','' r of
             None \<Rightarrow> Inr (Some (items @ [name]), r)
           | Some r1 \<Rightarrow> IdentifierList_loop n (items @ [name]) r1))"

definition Assignment_parse :: "nat \<Rightarrow> string \<Rightarrow> error + (node option \<times> string)" where
  "Assignment_parse fuel inp =
     (case IdentifierList_loop fuel [] inp of
        Inl e \<Rightarrow> Inl e
      | Inr (None, _) \<Rightarrow> Inr (None, inp)
      | Inr (Some lhs, r) \<Rightarrow>
          (case consume '':='' r of
             None \<Rightarrow> Inr (None, inp)
           | Some r1 \<Rightarrow>
               (case Expression fuel r1 of
                  Inl e \<Rightarrow> Inl e
                | Inr (None, _) \<Rightarrow> Inl ParseError
                | Inr (Some rhs, r2) \<Rightarrow> Inr (Some (Assignment lhs rhs), r2))))"

text \<open>
  The productions of \<^verbatim>\<open>Parser.Statement\<close> that come before \<^verbatim>\<open>MemberAssignment\<close>, all outside
  the fragment: the words of their tests.
\<close>

definition statement_outside :: "string \<Rightarrow> bool" where
  "statement_outside inp =
     (keyword ''pragma'' inp \<noteq> None \<or> keyword ''@if'' inp \<noteq> None
      \<or> starts_with ''include'' inp \<or> starts_with ''enum'' inp \<or> starts_with ''struct'' inp
      \<or> starts_with ''interface'' inp \<or> starts_with ''contract'' inp \<or> starts_with ''object'' inp
      \<or> starts_with ''code'' inp \<or> starts_with ''constructor'' inp \<or> starts_with ''data'' inp
      \<or> consume ''{'' inp \<noteq> None
      \<or> keyword ''macro'' inp \<noteq> None \<or> keyword ''function'' inp \<noteq> None
      \<or> keyword ''method'' inp \<noteq> None \<or> keyword ''event'' inp \<noteq> None
      \<or> keyword ''error'' inp \<noteq> None \<or> keyword ''let'' inp \<noteq> None
      \<or> keyword ''const'' inp \<noteq> None)"

text \<open>The productions \<^verbatim>\<open>If\<close>, \<^verbatim>\<open>Switch\<close>, \<^verbatim>\<open>ForLoop\<close>, \<^verbatim>\<open>While\<close> and \<^verbatim>\<open>DoWhile\<close>.\<close>

definition control_outside :: "string \<Rightarrow> bool" where
  "control_outside inp =
     (keyword ''if'' inp \<noteq> None \<or> keyword ''switch'' inp \<noteq> None \<or> keyword ''for'' inp \<noteq> None
      \<or> keyword ''while'' inp \<noteq> None \<or> starts_with ''do'' inp)"

text \<open>
  \<^verbatim>\<open>Parser.MemberAssignment\<close> reads a member identifier and returns \<^verbatim>\<open>null\<close>, the input
  restored, unless \<^verbatim>\<open>:=\<close> or \<^verbatim>\<open>|=\<close> follows; the assignment to a member itself is outside
  the fragment.
\<close>

definition MemberAssignment_parse :: "string \<Rightarrow> error + (node option \<times> string)" where
  "MemberAssignment_parse inp =
     (case MemberIdentifier_parse inp of
        Inl e \<Rightarrow> Inl e
      | Inr (None, _) \<Rightarrow> Inr (None, inp)
      | Inr (Some lhs, r) \<Rightarrow>
          if starts_with '':='' r \<or> starts_with ''|='' r then Inl Unmodelled
          else Inr (None, inp))"

definition BreakContinue_parse :: "string \<Rightarrow> error + (node option \<times> string)" where
  "BreakContinue_parse inp =
     (case keyword ''break'' inp of
        Some rest \<Rightarrow> Inr (Some (BreakContinue ''break''), rest)
      | None \<Rightarrow>
          (case keyword ''continue'' inp of
             Some rest \<Rightarrow> Inr (Some (BreakContinue ''continue''), rest)
           | None \<Rightarrow> Inr (None, inp)))"

definition Leave_parse :: "string \<Rightarrow> error + (node option \<times> string)" where
  "Leave_parse inp =
     (case keyword ''leave'' inp of None \<Rightarrow> Inr (None, inp) | Some rest \<Rightarrow> Inr (Some Leave, rest))"

text \<open>\<^verbatim>\<open>Parser.Statement\<close>, the alternatives in the order of the source.\<close>

definition Statement :: "nat \<Rightarrow> string \<Rightarrow> error + (node option \<times> string)" where
  "Statement fuel inp =
     (if statement_outside inp then Inl Unmodelled
      else orelse (MemberAssignment_parse inp)
          (orelse (Assignment_parse fuel inp)
             (if control_outside inp then Inl Unmodelled
              else orelse (BreakContinue_parse inp)
                  (orelse (Leave_parse inp)
                     (orelse (Emit_parse fuel inp)
                        (orelse (Throw_parse fuel inp) (Expression fuel inp)))))))"

text \<open>\<^verbatim>\<open>Parser.Statements\<close>, on the nodes read so far, and \<^verbatim>\<open>Parser.parse\<close> after the constructor.\<close>

fun Statements_loop :: "nat \<Rightarrow> nat \<Rightarrow> node list \<Rightarrow> string \<Rightarrow> error + (node \<times> string)" where
  "Statements_loop 0 fuel nodes inp = Inl Unmodelled"
| "Statements_loop (Suc n) fuel nodes inp =
     (case Statement fuel inp of
        Inl e \<Rightarrow> Inl e
      | Inr (None, _) \<Rightarrow> Inr (Root nodes, inp)
      | Inr (Some node, rest) \<Rightarrow> Statements_loop n fuel (nodes @ [node]) rest)"

definition parse :: "string \<Rightarrow> error + node" where
  "parse inp =
     bind_err (stripComments inp) (\<lambda>code.
       bind_err (Statements_loop (Suc (length code)) (Suc (length code)) [] (eatSpace code)) (\<lambda>(root, rest).
         if rest = [] then Inr root else Inl ParseError))"

subsection \<open>The serializer\<close>

text \<open>The results of a loop over nodes, up to the first that throws.\<close>

fun sequence :: "(error + 'a) list \<Rightarrow> error + 'a list" where
  "sequence [] = Inr []"
| "sequence (x # xs) = bind_err x (\<lambda>y. bind_err (sequence xs) (\<lambda>ys. Inr (y # ys)))"

text \<open>
  \<^verbatim>\<open>Serializer.encode\<close> on the nodes of the fragment.  The case for \<^verbatim>\<open>Emit\<close> and \<^verbatim>\<open>Throw\<close>
  encodes \<^verbatim>\<open>node.name\<close>, then \<^verbatim>\<open>node.offset\<close>, then the arguments, and returns
  \<^verbatim>\<open>`${type} ${name}(${offset}, ${args.join(', ')})`\<close>.  For a \<^verbatim>\<open>Throw\<close> node the offset is
  \<^verbatim>\<open>null\<close>, and \<^verbatim>\<open>encode(null)\<close> throws a \<^verbatim>\<open>TypeError\<close> at \<^verbatim>\<open>node.type\<close>.
\<close>

fun encode :: "node \<Rightarrow> error + string" where
  "encode (Root nodes) = bind_err (sequence (map encode nodes)) (\<lambda>out. Inr (join [CHR 0x0A] out))"
| "encode (Emit name offset args) =
     bind_err (encode offset) (\<lambda>off.
       bind_err (sequence (map encode args)) (\<lambda>out.
         Inr (''emit '' @ name @ ''('' @ off @ '', '' @ join '', '' out @ '')'')))"
| "encode (Throw name args) = Inl TypeError"
| "encode (FunctionCall name args) =
     bind_err (sequence (map encode args)) (\<lambda>out. Inr (name @ ''('' @ join '', '' out @ '')''))"
| "encode (Literal st kind v) = (case kind of None \<Rightarrow> Inr v | Some k \<Rightarrow> Inr (v @ '':'' @ k))"
| "encode (MemberIdentifier name cast member) =
     Inr (name @ (case cast of None \<Rightarrow> [] | Some c \<Rightarrow> '':'' @ c) @ ''->'' @ member)"
| "encode (CallDataIdentifier member ref) = Inr ((if ref then ''&'' else []) @ ''calldata.'' @ member)"
| "encode (Identifier v replaceable) = Inr v"
| "encode (Assignment lhs rhs) = bind_err (encode rhs) (\<lambda>r. Inr (join '', '' lhs @ '' := '' @ r))"
| "encode (BreakContinue v) = Inr v"
| "encode Leave = Inr ''leave''"
| "encode n = Inl Unmodelled"

definition serialize :: "node \<Rightarrow> error + string" where
  "serialize root = encode root"

chapter \<open>Properties\<close>

section \<open>Number tokens: conversions and the decimal literal\<close>

lemma U256_MAX_mask: "U256_MAX = mask 256"
  by (simp add: U256_MAX_def mask_eq_exp_minus_1)

lemma and_U256_MAX: "n AND U256_MAX = n mod 2 ^ 256"
  by (simp only: U256_MAX_mask take_bit_eq_mask [symmetric] take_bit_eq_mod)

lemma digit_of_digit_char: "d < 16 \<Longrightarrow> digit_of (digit_char d) = Some d"
proof -
  assume "d < 16"
  then have "d \<in> {0, 1, 2, 3, 4, 5, 6, 7, 8, 9, 10, 11, 12, 13, 14, 15}"
    by (simp, arith)
  then show ?thesis
    by (auto simp: digit_of_def digit_char_def)
qed

lemma mod_less_16: "2 \<le> b \<Longrightarrow> b \<le> 16 \<Longrightarrow> n mod b < (16::nat)"
  by (rule less_le_trans [of _ b]) auto

lemma digits_val_snoc:
  "digits_val b (xs @ [c]) = digits_val b xs * b + (case digit_of c of Some d \<Rightarrow> d | None \<Rightarrow> 0)"
  by (simp add: digits_val_def)

lemma nat_toString_digits:
  "2 \<le> b \<Longrightarrow> b \<le> 16 \<Longrightarrow> list_all (is_digit_in b) (nat_toString b n)"
proof (induction b n rule: nat_toString.induct)
  case (1 b n)
  show ?case
  proof (cases "n < b")
    case True
    with 1 show ?thesis
      by (simp add: nat_toString.simps [of b n] is_digit_in_def digit_of_digit_char)
  next
    case False
    have "n mod b < b" "n mod b < 16" using 1 by (simp_all add: mod_less_16)
    with 1 False show ?thesis
      by (simp add: nat_toString.simps [of b n] is_digit_in_def digit_of_digit_char)
  qed
qed

lemma nat_toString_val:
  "2 \<le> b \<Longrightarrow> b \<le> 16 \<Longrightarrow> digits_val b (nat_toString b n) = n"
proof (induction b n rule: nat_toString.induct)
  case (1 b n)
  show ?case
  proof (cases "n < b")
    case True
    with 1 show ?thesis
      by (simp add: nat_toString.simps [of b n] digits_val_def digit_of_digit_char)
  next
    case False
    have "n mod b < 16" using 1 by (simp add: mod_less_16)
    with 1 False show ?thesis
      by (simp add: nat_toString.simps [of b n] digits_val_snoc digit_of_digit_char)
  qed
qed

lemma nat_toString_nonempty: "nat_toString b n \<noteq> []"
  by (subst nat_toString.simps) simp

lemma BigInt_hex_toString:
  "0 \<le> n \<Longrightarrow> BigInt (''0x'' @ toString 16 n) = Some n"
  by (simp add: BigInt_def toString_def radix_literal_def nat_toString_digits nat_toString_val
      nat_toString_nonempty)

lemma match_decimal_neg:
  assumes "match_decimal inp = Some (CHR ''-'' # ds, rest)"
  shows "ds \<noteq> [] \<and> list_all (is_digit_in 10) ds"
proof -
  have nodig: "\<not> is_digit_in 10 (CHR ''-'')"
    by (simp add: is_digit_in_def digit_of_def)
  show ?thesis
  proof (cases inp)
    case Nil
    with assms show ?thesis by (simp add: match_decimal_def)
  next
    case (Cons c cs)
    show ?thesis
    proof (cases "c = CHR ''-''")
      case True
      with assms Cons have "ds = takeWhile (is_digit_in 10) cs" "takeWhile (is_digit_in 10) cs \<noteq> []"
        by (auto simp: match_decimal_def Let_def split: if_splits)
      then show ?thesis
        by (auto simp: list_all_iff dest: set_takeWhileD)
    next
      case False
      with assms Cons nodig show ?thesis
        by (auto simp: match_decimal_def Let_def takeWhile_eq_Nil_iff split: if_splits)
    qed
  qed
qed

lemma BigInt_neg_decimal:
  "ds \<noteq> [] \<Longrightarrow> list_all (is_digit_in 10) ds \<Longrightarrow>
   BigInt (CHR ''-'' # ds) = Some (- int (digits_val 10 ds))"
  by (cases ds) (simp_all add: BigInt_def radix_literal_def)

lemma toBigInt_hex_toString:
  "0 \<le> n \<Longrightarrow> toBigInt (''0x'' @ toString 16 n) = Some n"
  using BigInt_hex_toString [of n] by (simp add: toBigInt_def)

lemma twos_complement_mod: "(- m) mod 2 ^ 256 = (2 ^ 256 - m) mod (2 ^ 256 :: int)"
  by (metis diff_conv_add_uminus mod_add_self1)

text \<open>
  Claim C9, as the code has it.  \<^verbatim>\<open>Parser.DecimalNumber\<close> bounds the length of the token, sign
  included, by 78 characters: a longer token is rejected, and a token of exactly 78
  characters is rejected when its value lies outside \<open>[- 2\<^sup>2\<^sup>5\<^sup>5, 2\<^sup>2\<^sup>5\<^sup>6 - 1]\<close>.  Every
  negative decimal token that is accepted becomes a \<open>HexNumber\<close> whose text is the
  hexadecimal form of the two's complement of its magnitude modulo \<open>2\<^sup>2\<^sup>5\<^sup>6\<close>, and that text
  denotes this value again.
\<close>

theorem DecimalNumber_literal:
  "(\<forall>v rest. match_decimal inp = Some (v, rest) \<and> 78 < length v \<longrightarrow>
       DecimalNumber_tok inp = Inl ParseError)
   \<and> (\<forall>v rest n. match_decimal inp = Some (v, rest) \<and> length v = 78 \<and> BigInt v = Some n \<and>
         (n < - (2 ^ 255) \<or> 2 ^ 256 \<le> n) \<longrightarrow>
       DecimalNumber_tok inp = Inl ParseError)
   \<and> (\<forall>ds rest tok r.
         match_decimal inp = Some (CHR ''-'' # ds, rest) \<and> DecimalNumber_tok inp = Inr (Some tok, r) \<longrightarrow>
         tok = (HexNumber, ''0x'' @ toString 16 ((2 ^ 256 - int (digits_val 10 ds)) mod 2 ^ 256)) \<and>
         toBigInt (snd tok) = Some ((2 ^ 256 - int (digits_val 10 ds)) mod 2 ^ 256) \<and>
         r = eatSpace rest)"
proof -
  have A: "\<forall>v rest. match_decimal inp = Some (v, rest) \<and> 78 < length v \<longrightarrow>
       DecimalNumber_tok inp = Inl ParseError"
    by (simp add: DecimalNumber_tok_def)
  have B: "\<forall>v rest n. match_decimal inp = Some (v, rest) \<and> length v = 78 \<and> BigInt v = Some n \<and>
         (n < - (2 ^ 255) \<or> 2 ^ 256 \<le> n) \<longrightarrow>
       DecimalNumber_tok inp = Inl ParseError"
    by (auto simp: DecimalNumber_tok_def I256_SIGN_def U256_MAX_def)
  have C: "\<forall>ds rest tok r.
         match_decimal inp = Some (CHR ''-'' # ds, rest) \<and> DecimalNumber_tok inp = Inr (Some tok, r) \<longrightarrow>
         tok = (HexNumber, ''0x'' @ toString 16 ((2 ^ 256 - int (digits_val 10 ds)) mod 2 ^ 256)) \<and>
         toBigInt (snd tok) = Some ((2 ^ 256 - int (digits_val 10 ds)) mod 2 ^ 256) \<and>
         r = eatSpace rest"
  proof (intro allI impI)
    fix ds rest tok r
    assume a: "match_decimal inp = Some (CHR ''-'' # ds, rest) \<and> DecimalNumber_tok inp = Inr (Some tok, r)"
    let ?m = "int (digits_val 10 ds)"
    from a match_decimal_neg have "ds \<noteq> []" "list_all (is_digit_in 10) ds" by blast+
    then have b: "BigInt (CHR ''-'' # ds) = Some (- ?m)" by (rule BigInt_neg_decimal)
    from a b have tok: "tok = (HexNumber, ''0x'' @ toString 16 ((- ?m) AND U256_MAX))" and r: "r = eatSpace rest"
      by (auto simp: DecimalNumber_tok_def split: if_splits)
    have eq: "(- ?m) AND U256_MAX = (2 ^ 256 - ?m) mod 2 ^ 256"
      by (simp only: and_U256_MAX twos_complement_mod)
    have "0 \<le> (2 ^ 256 - ?m) mod (2 ^ 256 :: int)" by simp
    then have "toBigInt (''0x'' @ toString 16 ((2 ^ 256 - ?m) mod 2 ^ 256)) = Some ((2 ^ 256 - ?m) mod 2 ^ 256)"
      by (rule toBigInt_hex_toString)
    with tok r eq
    show "tok = (HexNumber, ''0x'' @ toString 16 ((2 ^ 256 - ?m) mod 2 ^ 256)) \<and>
          toBigInt (snd tok) = Some ((2 ^ 256 - ?m) mod 2 ^ 256) \<and> r = eatSpace rest"
      by (simp only: snd_conv simp_thms)
  qed
  show ?thesis by (intro conjI A B C)
qed

lemmas number_token_defs = DecimalNumber_tok_def HexNumber_tok_def NumberLiteral_tok_def
  match_decimal_def match_hex_def BigInt_def toBigInt_def radix_literal_def is_digit_in_def digit_of_def
  digits_val_def toString_def nat_toString.simps digit_char_def eatSpace_def is_space_def
  U256_MAX_def I256_SIGN_def Let_def

theorem DecimalNumber_literal_witness:
  "DecimalNumber_tok ''0000000000000000000000000000000000000000000000000000000000000000000000000000000'' = Inl ParseError
   \<and> DecimalNumber_tok ''115792089237316195423570985008687907853269984665640564039457584007913129639936'' = Inl ParseError
   \<and> DecimalNumber_tok ''-1 foo'' = Inr (Some (HexNumber, ''0xffffffffffffffffffffffffffffffffffffffffffffffffffffffffffffffff''), ''foo'')
   \<and> toBigInt ''0xffffffffffffffffffffffffffffffffffffffffffffffffffffffffffffffff'' = Some (2 ^ 256 - 1)"
proof -
  have m1: "match_decimal ''0000000000000000000000000000000000000000000000000000000000000000000000000000000'' = Some (''0000000000000000000000000000000000000000000000000000000000000000000000000000000'', [])"
    by (simp add: match_decimal_def is_digit_in_def digit_of_def)
  have m2: "match_decimal ''115792089237316195423570985008687907853269984665640564039457584007913129639936'' = Some (''115792089237316195423570985008687907853269984665640564039457584007913129639936'', [])"
    by (simp add: match_decimal_def is_digit_in_def digit_of_def)
  have b2: "BigInt ''115792089237316195423570985008687907853269984665640564039457584007913129639936'' = Some (2 ^ 256)"
    by (simp add: number_token_defs)
  have m3: "match_decimal ''-1 foo'' = Some (''-1'', '' foo'')"
    by (simp add: match_decimal_def is_digit_in_def digit_of_def)
  have e3: "DecimalNumber_tok ''-1 foo'' = Inr (Some (HexNumber, ''0xffffffffffffffffffffffffffffffffffffffffffffffffffffffffffffffff''), ''foo'')"
    by (simp add: number_token_defs)
  have v: "(2 ^ 256 - int (digits_val 10 ''1'')) mod 2 ^ 256 = 2 ^ 256 - 1"
    by (simp add: digits_val_def digit_of_def)
  note lit = DecimalNumber_literal
  from lit [of "''0000000000000000000000000000000000000000000000000000000000000000000000000000000''"] m1 have r1: "DecimalNumber_tok ''0000000000000000000000000000000000000000000000000000000000000000000000000000000'' = Inl ParseError"
    by simp
  from lit [of "''115792089237316195423570985008687907853269984665640564039457584007913129639936''"] m2 b2 have r2: "DecimalNumber_tok ''115792089237316195423570985008687907853269984665640564039457584007913129639936'' = Inl ParseError"
    by simp
  from lit [of "''-1 foo''"] m3 e3
  have "toBigInt (snd (HexNumber, ''0xffffffffffffffffffffffffffffffffffffffffffffffffffffffffffffffff'')) = Some ((2 ^ 256 - int (digits_val 10 ''1'')) mod 2 ^ 256)"
    by blast
  with v have r3: "toBigInt ''0xffffffffffffffffffffffffffffffffffffffffffffffffffffffffffffffff'' = Some (2 ^ 256 - 1)"
    by (simp only: snd_conv)
  from r1 r2 e3 r3 show ?thesis by (intro conjI)
qed

text \<open>
  The claim as written fails: a literal of more than 77 digits can be accepted.  The
  positive literal \<open>10\<^sup>7\<^sup>7\<close> has 78 digits and parses to a \<open>DecimalNumber\<close>.
\<close>

theorem DecimalNumber_78_digits_accepted:
  "length ''100000000000000000000000000000000000000000000000000000000000000000000000000000'' = 78 \<and>
   DecimalNumber_tok ''100000000000000000000000000000000000000000000000000000000000000000000000000000'' = Inr (Some (DecimalNumber, ''100000000000000000000000000000000000000000000000000000000000000000000000000000''), [])"
  by (simp add: number_token_defs)

text \<open>
  \<^verbatim>\<open>Parser.HexNumber\<close> passes a negative token, sign included, to \<^verbatim>\<open>BigInt\<close>, which
  throws on it.
\<close>

lemma HexNumber_negative_throws:
  "HexNumber_tok ''-0x10'' = Inl SyntaxError"
  by (simp add: number_token_defs)

section \<open>Padding against inlining\<close>










section \<open>Signatures of methods, errors and events\<close>

lemma join_Cons: "join sep (x # xs) = x @ concat (map (\<lambda>u. sep @ u) xs)"
  by (induction xs arbitrary: x) auto

lemma canonicalize_spec: "canonicalize t = spec_canon t"
  by (simp add: canonicalize_def spec_canon_def)

lemma preimage_spec:
  "name @ ''('' @ join '','' (map canonicalize types) @ '')'' = spec_preimage name types"
proof (cases types)
  case Nil
  then show ?thesis by (simp add: spec_preimage_def)
next
  case (Cons t ts)
  have "map (\<lambda>u. '','' @ canonicalize u) ts = map (\<lambda>u. CHR '','' # spec_canon u) ts"
    by (simp add: canonicalize_spec)
  with Cons show ?thesis
    by (simp add: spec_preimage_def join_Cons canonicalize_spec comp_def)
qed

lemma abiHash_spec: "abiHash k name types = spec_topic0 k name types"
  unfolding abiHash_def Let_def preimage_spec
  by (simp add: spec_topic0_def Buffer_from_binary_def)

lemma methodHash_spec:
  "methodHash k name types = ''0x'' @ Buffer_toString_hex (spec_selector k name types)"
  by (simp add: methodHash_def abiHash_spec spec_topic0_def spec_selector_def
      Buffer_toString_hex_range_def)

lemma eventHash_spec:
  "eventHash k name types = ''0x'' @ Buffer_toString_hex (spec_topic0 k name types)"
  by (simp add: eventHash_def abiHash_spec)

text \<open>
  Claim C2.  The signature that \<^verbatim>\<open>Method.init\<close> and \<^verbatim>\<open>VMError.init\<close> store is \<^verbatim>\<open>0x\<close> followed
  by the hexadecimal form of the first four bytes of the digest of the preimage
  \<open>name(canon(t\<^sub>1),\<dots>,canon(t\<^sub>n))\<close>; the signature that \<^verbatim>\<open>Event.init\<close> stores is the
  hexadecimal form of the whole digest.  The canonical form collapses \<^verbatim>\<open>uint\<close>, \<^verbatim>\<open>int\<close>,
  \<^verbatim>\<open>uint[]\<close> and \<^verbatim>\<open>int[]\<close> and leaves every other type as it is.
\<close>

theorem abi_signatures:
  "(\<forall>m. Method_init k d = Inr m \<longrightarrow>
        m_signature m = ''0x'' @ Buffer_toString_hex (spec_selector k (d_name d) (map (\<lambda>p. t_value (fst p)) (d_params d))))
   \<and> ve_signature (VMError_init k ed depth)
        = ''0x'' @ Buffer_toString_hex (spec_selector k (ed_name ed) (map (\<lambda>p. t_value (fst p)) (ed_params ed)))
   \<and> (\<forall>e. Event_init k vd depth = Inr e \<longrightarrow>
        ev_signature e = ''0x'' @ Buffer_toString_hex (spec_topic0 k (vd_name vd) (map (\<lambda>p. t_value (fst p)) (vd_params vd))))"
proof -
  have A: "\<forall>m. Method_init k d = Inr m \<longrightarrow>
        m_signature m = ''0x'' @ Buffer_toString_hex (spec_selector k (d_name d) (map (\<lambda>p. t_value (fst p)) (d_params d)))"
    by (auto simp: Method_init_def Let_def bind_err_def methodHash_spec case_prod_unfold
             split: if_splits sum.splits prod.splits)
  have B: "ve_signature (VMError_init k ed depth)
        = ''0x'' @ Buffer_toString_hex (spec_selector k (ed_name ed) (map (\<lambda>p. t_value (fst p)) (ed_params ed)))"
    by (simp add: VMError_init_def Let_def methodHash_spec case_prod_unfold)
  have C: "\<forall>e. Event_init k vd depth = Inr e \<longrightarrow>
        ev_signature e = ''0x'' @ Buffer_toString_hex (spec_topic0 k (vd_name vd) (map (\<lambda>p. t_value (fst p)) (vd_params vd)))"
    by (auto simp: Event_init_def Let_def eventHash_spec case_prod_unfold split: if_splits)
  show ?thesis by (intro conjI A B C)
qed

text \<open>Evaluation with the identity in the place of the digest shows the preimages.\<close>

lemmas abi_eval_defs = Method_init_def VMError_init_def Event_init_def bind_err_def Let_def
  new_MethodParam_def new_EventParam_def methodHash_def eventHash_def abiHash_def canonicalize_def
  Buffer_from_binary_def Buffer_toString_hex_def Buffer_toString_hex_range_def hex_byte_def
  digit_char_def spec_selector_def spec_topic0_def spec_preimage_def spec_canon_def

theorem abi_signatures_witness:
  "map_sum id m_signature
     (Method_init (\<lambda>b. b)
        \<lparr>d_name = ''transfer'',
         d_params = [(\<lparr>t_value = ''address'', t_base = ''address'', t_width = 160, t_array = False\<rparr>, Some ''to''),
                     (\<lparr>t_value = ''uint'', t_base = ''uint'', t_width = 256, t_array = False\<rparr>, Some ''amount'')],
         d_visibility = None, d_mutability = None, d_modifier = None, d_returns = []\<rparr>)
     = Inr ''0x7472616e''
   \<and> map_sum id ev_signature
     (Event_init (\<lambda>b. b)
        \<lparr>vd_name = ''E'',
         vd_params = [(\<lparr>t_value = ''uint'', t_base = ''uint'', t_width = 256, t_array = False\<rparr>, None, False)],
         vd_anonymous = False, vd_packed = False, vd_modifier = None\<rparr> 0)
     = Inr ''0x452875696e7432353629''"
proof -
  let ?d = "\<lparr>d_name = ''transfer'',
         d_params = [(\<lparr>t_value = ''address'', t_base = ''address'', t_width = 160, t_array = False\<rparr>, Some ''to''),
                     (\<lparr>t_value = ''uint'', t_base = ''uint'', t_width = 256, t_array = False\<rparr>, Some ''amount'')],
         d_visibility = None, d_mutability = None, d_modifier = None, d_returns = []\<rparr>"
  let ?vd = "\<lparr>vd_name = ''E'',
         vd_params = [(\<lparr>t_value = ''uint'', t_base = ''uint'', t_width = 256, t_array = False\<rparr>, None, False)],
         vd_anonymous = False, vd_packed = False, vd_modifier = None\<rparr>"
  obtain m where m: "Method_init (\<lambda>b. b) ?d = Inr m"
    by (simp add: Method_init_def bind_err_def Let_def)
  obtain e where e: "Event_init (\<lambda>b. b) ?vd 0 = Inr e"
    by (simp add: Event_init_def Let_def)
  note sig = abi_signatures [where k = "\<lambda>b. b" and d = ?d and vd = ?vd and depth = 0]
  from sig m have "m_signature m = ''0x'' @ Buffer_toString_hex (spec_selector (\<lambda>b. b) ''transfer'' [''address'', ''uint''])"
    by simp
  then have s1: "m_signature m = ''0x7472616e''"
    by (simp add: abi_eval_defs)
  from sig e have "ev_signature e = ''0x'' @ Buffer_toString_hex (spec_topic0 (\<lambda>b. b) ''E'' [''uint''])"
    by simp
  then have s2: "ev_signature e = ''0x452875696e7432353629''"
    by (simp add: abi_eval_defs)
  from m e s1 s2 show ?thesis by simp
qed

section \<open>The method dispatcher\<close>


lemma select_arm_form:
  "select_arm hf deps m = Inr (b, deps') \<Longrightarrow> \<exists>pre. Method_check m = Inr pre \<and> b = arm_of m pre"
  by (auto simp: select_arm_def bind_err_def arm_of_def split: sum.splits if_splits)

lemma select_loop_keeps:
  "select_loop hf ms st = Inr st' \<Longrightarrow>
   ((\<forall>x \<in> set ms. m_name x \<noteq> ''receive'') \<longrightarrow> s_receive st' = s_receive st) \<and>
   ((\<forall>x \<in> set ms. m_name x \<noteq> ''fallback'') \<longrightarrow> s_fallback st' = s_fallback st) \<and>
   set (s_cases st) \<subseteq> set (s_cases st')"
proof (induction ms arbitrary: st)
  case Nil
  then show ?case by simp
next
  case (Cons x xs)
  from Cons.prems obtain b d where arm: "select_arm hf (s_depends st) x = Inr (b, d)"
    by (auto split: sum.splits)
  let ?st1 = "(if m_name x = ''receive'' then st\<lparr>s_receive := Some b, s_depends := d\<rparr>
             else if m_name x = ''fallback'' then st\<lparr>s_fallback := b, s_depends := d\<rparr>
             else st\<lparr>s_cases := s_cases st @ [Case_node (HexNumber_node (m_signature x)) b],
                     s_depends := d\<rparr>)"
  from Cons.prems arm have "select_loop hf xs ?st1 = Inr st'" by simp
  from Cons.IH [OF this] show ?case by (auto split: if_splits)
qed

lemma select_loop_records:
  "select_loop hf ms st = Inr st' \<Longrightarrow> m \<in> set ms \<Longrightarrow> distinct (map m_name ms) \<Longrightarrow>
   \<exists>pre. Method_check m = Inr pre \<and> recorded (s_fallback st') (s_receive st') (s_cases st') m (arm_of m pre)"
proof (induction ms arbitrary: st)
  case Nil
  then show ?case by simp
next
  case (Cons x xs)
  from Cons.prems(1) obtain b d where arm: "select_arm hf (s_depends st) x = Inr (b, d)"
    by (auto split: sum.splits)
  let ?st1 = "(if m_name x = ''receive'' then st\<lparr>s_receive := Some b, s_depends := d\<rparr>
             else if m_name x = ''fallback'' then st\<lparr>s_fallback := b, s_depends := d\<rparr>
             else st\<lparr>s_cases := s_cases st @ [Case_node (HexNumber_node (m_signature x)) b],
                     s_depends := d\<rparr>)"
  from Cons.prems(1) arm have loop: "select_loop hf xs ?st1 = Inr st'" by simp
  show ?case
  proof (cases "m = x")
    case True
    from select_arm_form [OF arm] obtain pre where pre: "Method_check x = Inr pre" "b = arm_of x pre"
      by blast
    from Cons.prems(3) have "m_name x \<notin> m_name ` set xs" by simp
    then have others: "\<forall>y \<in> set xs. m_name y \<noteq> m_name x" by (metis imageI)
    have "recorded (s_fallback ?st1) (s_receive ?st1) (s_cases ?st1) x b"
      by (simp add: recorded_def)
    with select_loop_keeps [OF loop] others have "recorded (s_fallback st') (s_receive st') (s_cases st') x b"
      by (auto simp: recorded_def split: if_splits)
    with True pre show ?thesis by blast
  next
    case False
    with Cons.prems have "m \<in> set xs" "distinct (map m_name xs)" by auto
    from Cons.IH [OF loop this] show ?thesis .
  qed
qed

lemma method_select_state:
  assumes "method_select hf deps ms [] = Inr (out, deps')" "ms \<noteq> []"
  shows "\<exists>st. select_loop hf ms \<lparr>s_fallback = Block [Revert], s_receive = None, s_cases = [], s_depends = deps\<rparr> = Inr st
           \<and> out = select_tree (s_fallback st) (s_receive st) (s_cases st)"
  using assms by (auto simp: method_select_def bind_err_def split: sum.splits)

lemma select_tree_explicit:
  "select_tree fallback receive cases =
     Root [Switch (FunctionCall ''lt'' [FunctionCall ''calldatasize'' [], Literal DecimalNumber None ''4''])
             [Case_node (Literal DecimalNumber None ''1'') (case receive of
                  None \<Rightarrow> fallback
                | Some r \<Rightarrow>
                    Block [Switch (FunctionCall ''eq'' [FunctionCall ''calldatasize'' [], Literal DecimalNumber None ''0''])
                             [Case_node (Literal DecimalNumber None ''1'') r]
                             (Some (Default_node fallback))])]
             (Some (Default_node
                (Block [Switch (FunctionCall ''shr'' [Literal DecimalNumber None ''224'',
                                                     FunctionCall ''calldataload'' [Literal DecimalNumber None ''0'']])
                          cases
                          (Some (Default_node fallback))]))),
           FunctionCall ''stop'' []]"
  by (cases receive)
     (simp_all add: select_tree_def Let_def Lt_def Eq_def Shr_def CallDataLoad_def CallDataSize_def
        Stop_def Call_def Literal_number_def toString_def nat_toString.simps digit_char_def)

lemma locked_calls_explicit:
  "locked_calls n = [FunctionCall ''__mutex_lock'' [], FunctionCall (''__method_'' @ n) [],
                     FunctionCall ''__mutex_unlock'' []]"
  by (simp add: locked_calls_def Call_def)

text \<open>
  Claim C7.  \<^verbatim>\<open>method.select()\<close> returns the switch over \<^verbatim>\<open>lt(calldatasize(), 4)\<close>, whose
  default is the switch over the selector \<^verbatim>\<open>shr(224, calldataload(0))\<close>, followed by
  \<^verbatim>\<open>stop()\<close>.  For a method with the modifier \<^verbatim>\<open>locked\<close>, the block of the method in this
  tree (a case of the switch over the selector under the signature of the method, or the
  receive or fallback block) is the prelude of \<^verbatim>\<open>Method.check\<close> followed by the calls
  \<^verbatim>\<open>__mutex_lock()\<close>, \<^verbatim>\<open>__method_<name>()\<close>, \<^verbatim>\<open>__mutex_unlock()\<close> in this order; and
  \<^verbatim>\<open>method.call(name)\<close> on such a method yields the same three calls in the same order.  The
  methods of a scope have distinct names, since they are the values of a map keyed by the
  name.
\<close>

theorem locked_method_dispatch:
  assumes "m_modifier m = Some ''locked''"
  shows "(\<forall>out deps'. method_select hf deps ms [] = Inr (out, deps') \<and> distinct (map m_name ms) \<and> m \<in> set ms \<longrightarrow>
            (\<exists>pre fallback receive cases.
               Method_check m = Inr pre \<and>
               out = Root [Switch (FunctionCall ''lt'' [FunctionCall ''calldatasize'' [], Literal DecimalNumber None ''4''])
                        [Case_node (Literal DecimalNumber None ''1'')
                           (case receive of
                              None \<Rightarrow> fallback
                            | Some r \<Rightarrow>
                                Block [Switch (FunctionCall ''eq'' [FunctionCall ''calldatasize'' [],
                                                                   Literal DecimalNumber None ''0''])
                                         [Case_node (Literal DecimalNumber None ''1'') r]
                                         (Some (Default_node fallback))])]
                        (Some (Default_node
                           (Block [Switch (FunctionCall ''shr'' [Literal DecimalNumber None ''224'',
                                             FunctionCall ''calldataload'' [Literal DecimalNumber None ''0'']])
                                     cases
                                     (Some (Default_node fallback))]))),
                      FunctionCall ''stop'' []] \<and>
               (let arm = Block (pre @ [FunctionCall ''__mutex_lock'' [], FunctionCall (''__method_'' @ m_name m) [],
                                        FunctionCall ''__mutex_unlock'' []])
                in if m_name m = ''receive'' then receive = Some arm
                   else if m_name m = ''fallback'' then fallback = arm
                   else Case_node (Literal HexNumber None (m_signature m)) arm \<in> set cases)))
       \<and> (\<forall>res deps' r. method_call hf findMethod deps [Identifier (m_name m) r] = Inr (res, deps') \<and>
                        findMethod (m_name m) = Some m \<longrightarrow>
            res = Root [FunctionCall ''__mutex_lock'' [], FunctionCall (''__method_'' @ m_name m) [],
                        FunctionCall ''__mutex_unlock'' []])"
proof -
  have A: "\<forall>out deps'. method_select hf deps ms [] = Inr (out, deps') \<and> distinct (map m_name ms) \<and> m \<in> set ms \<longrightarrow>
            (\<exists>pre fallback receive cases.
               Method_check m = Inr pre \<and>
               out = Root [Switch (FunctionCall ''lt'' [FunctionCall ''calldatasize'' [], Literal DecimalNumber None ''4''])
                        [Case_node (Literal DecimalNumber None ''1'')
                           (case receive of
                              None \<Rightarrow> fallback
                            | Some r \<Rightarrow>
                                Block [Switch (FunctionCall ''eq'' [FunctionCall ''calldatasize'' [],
                                                                   Literal DecimalNumber None ''0''])
                                         [Case_node (Literal DecimalNumber None ''1'') r]
                                         (Some (Default_node fallback))])]
                        (Some (Default_node
                           (Block [Switch (FunctionCall ''shr'' [Literal DecimalNumber None ''224'',
                                             FunctionCall ''calldataload'' [Literal DecimalNumber None ''0'']])
                                     cases
                                     (Some (Default_node fallback))]))),
                      FunctionCall ''stop'' []] \<and>
               (let arm = Block (pre @ [FunctionCall ''__mutex_lock'' [], FunctionCall (''__method_'' @ m_name m) [],
                                        FunctionCall ''__mutex_unlock'' []])
                in if m_name m = ''receive'' then receive = Some arm
                   else if m_name m = ''fallback'' then fallback = arm
                   else Case_node (Literal HexNumber None (m_signature m)) arm \<in> set cases))"
  proof (intro allI impI)
    fix out deps'
    assume a: "method_select hf deps ms [] = Inr (out, deps') \<and> distinct (map m_name ms) \<and> m \<in> set ms"
    then have "ms \<noteq> []" by auto
    with a method_select_state obtain st where
      st: "select_loop hf ms \<lparr>s_fallback = Block [Revert], s_receive = None, s_cases = [], s_depends = deps\<rparr> = Inr st"
          "out = select_tree (s_fallback st) (s_receive st) (s_cases st)"
      by blast
    from select_loop_records [OF st(1)] a obtain pre where
      pre: "Method_check m = Inr pre" "recorded (s_fallback st) (s_receive st) (s_cases st) m (arm_of m pre)"
      by blast
    have "arm_of m pre = Block (pre @ [FunctionCall ''__mutex_lock'' [], FunctionCall (''__method_'' @ m_name m) [],
                                        FunctionCall ''__mutex_unlock'' []])"
      using assms by (simp add: arm_of_def locked_calls_explicit)
    with pre(2) have
      "recorded (s_fallback st) (s_receive st) (s_cases st) m
         (Block (pre @ [FunctionCall ''__mutex_lock'' [], FunctionCall (''__method_'' @ m_name m) [],
                                        FunctionCall ''__mutex_unlock'' []]))"
      by simp
    then have
      "(let arm = Block (pre @ [FunctionCall ''__mutex_lock'' [], FunctionCall (''__method_'' @ m_name m) [],
                                        FunctionCall ''__mutex_unlock'' []])
        in if m_name m = ''receive'' then s_receive st = Some arm
           else if m_name m = ''fallback'' then s_fallback st = arm
           else Case_node (Literal HexNumber None (m_signature m)) arm \<in> set (s_cases st))"
      unfolding recorded_def HexNumber_node_def Let_def .
    with pre(1) st(2) [unfolded select_tree_explicit] show "\<exists>pre fallback receive cases.
               Method_check m = Inr pre \<and>
               out = Root [Switch (FunctionCall ''lt'' [FunctionCall ''calldatasize'' [], Literal DecimalNumber None ''4''])
                        [Case_node (Literal DecimalNumber None ''1'')
                           (case receive of
                              None \<Rightarrow> fallback
                            | Some r \<Rightarrow>
                                Block [Switch (FunctionCall ''eq'' [FunctionCall ''calldatasize'' [],
                                                                   Literal DecimalNumber None ''0''])
                                         [Case_node (Literal DecimalNumber None ''1'') r]
                                         (Some (Default_node fallback))])]
                        (Some (Default_node
                           (Block [Switch (FunctionCall ''shr'' [Literal DecimalNumber None ''224'',
                                             FunctionCall ''calldataload'' [Literal DecimalNumber None ''0'']])
                                     cases
                                     (Some (Default_node fallback))]))),
                      FunctionCall ''stop'' []] \<and>
               (let arm = Block (pre @ [FunctionCall ''__mutex_lock'' [], FunctionCall (''__method_'' @ m_name m) [],
                                        FunctionCall ''__mutex_unlock'' []])
                in if m_name m = ''receive'' then receive = Some arm
                   else if m_name m = ''fallback'' then fallback = arm
                   else Case_node (Literal HexNumber None (m_signature m)) arm \<in> set cases)"
      by blast
  qed
  have B: "\<forall>res deps' r. method_call hf findMethod deps [Identifier (m_name m) r] = Inr (res, deps') \<and>
                        findMethod (m_name m) = Some m \<longrightarrow>
            res = Root [FunctionCall ''__mutex_lock'' [], FunctionCall (''__method_'' @ m_name m) [],
                        FunctionCall ''__mutex_unlock'' []]"
    using assms
    by (auto simp: method_call_def bind_err_def locked_calls_explicit split: sum.splits)
  show ?thesis by (intro conjI A B)
qed


lemma Method_check_guard:
  "m_mutability m \<noteq> Some ''payable'' \<Longrightarrow> Method_check m = Inr pre \<Longrightarrow>
   \<exists>rest. pre = RequireZero CallValue # rest"
proof -
  have pre: "check_params ps ns = Inr r \<Longrightarrow> \<exists>t. r = ns @ t" for ps ns r
    by (induction ps ns rule: check_params.induct) (auto split: sum.splits if_splits)
  assume "m_mutability m \<noteq> Some ''payable''" "Method_check m = Inr pre"
  then show ?thesis
    by (auto simp: Method_check_def Let_def split: if_splits dest!: pre)
qed

lemma guard_explicit:
  "RequireZero CallValue =
     If_node (FunctionCall ''callvalue'' [])
       (Block [FunctionCall ''revert'' [Literal DecimalNumber None ''0'', Literal DecimalNumber None ''0'']])
       [] None"
  by (simp add: RequireZero_def CallValue_def If_stmt_def Revert_def Call_def Literal_number_def
      toString_def nat_toString.simps digit_char_def)

lemma revert_block_explicit:
  "Block [Revert] = Block [FunctionCall ''revert'' [Literal DecimalNumber None ''0'', Literal DecimalNumber None ''0'']]"
  by (simp add: Revert_def Call_def Literal_number_def toString_def nat_toString.simps digit_char_def)

text \<open>
  Claim C10.  For a method whose mutability is not \<^verbatim>\<open>payable\<close>, the prelude of
  \<^verbatim>\<open>Method.check\<close> begins with \<^verbatim>\<open>if callvalue() { revert(0, 0) }\<close>.  \<^verbatim>\<open>method.select()\<close>
  returns the switch over \<^verbatim>\<open>lt(calldatasize(), 4)\<close>, whose default is the switch over the
  selector, followed by \<^verbatim>\<open>stop()\<close>; the block of the method in this tree (a case under the
  signature of the method, or the receive or fallback block) begins with this guard and
  calls \<^verbatim>\<open>__method_<name>()\<close> after it, so that the guard runs before the body of the method.
  When no method is named \<^verbatim>\<open>fallback\<close>, the fallback block of this tree, the default of
  the switch over the selector, is \<^verbatim>\<open>{ revert(0, 0) }\<close>.
\<close>

theorem nonpayable_guard:
  assumes "m_mutability m \<noteq> Some ''payable''"
  shows "(\<forall>pre. Method_check m = Inr pre \<longrightarrow>
            (\<exists>rest. pre =
               If_node (FunctionCall ''callvalue'' [])
                 (Block [FunctionCall ''revert'' [Literal DecimalNumber None ''0'', Literal DecimalNumber None ''0'']])
                 [] None # rest))
       \<and> (\<forall>out deps'. method_select hf deps ms [] = Inr (out, deps') \<and> distinct (map m_name ms) \<and> m \<in> set ms \<longrightarrow>
            (\<exists>rest calls fallback receive cases.
               out = Root [Switch (FunctionCall ''lt'' [FunctionCall ''calldatasize'' [], Literal DecimalNumber None ''4''])
                        [Case_node (Literal DecimalNumber None ''1'')
                           (case receive of
                              None \<Rightarrow> fallback
                            | Some r \<Rightarrow>
                                Block [Switch (FunctionCall ''eq'' [FunctionCall ''calldatasize'' [],
                                                                   Literal DecimalNumber None ''0''])
                                         [Case_node (Literal DecimalNumber None ''1'') r]
                                         (Some (Default_node fallback))])]
                        (Some (Default_node
                           (Block [Switch (FunctionCall ''shr'' [Literal DecimalNumber None ''224'',
                                             FunctionCall ''calldataload'' [Literal DecimalNumber None ''0'']])
                                     cases
                                     (Some (Default_node fallback))]))),
                      FunctionCall ''stop'' []] \<and>
               FunctionCall (''__method_'' @ m_name m) [] \<in> set calls \<and>
               (let arm = Block (If_node (FunctionCall ''callvalue'' [])
                 (Block [FunctionCall ''revert'' [Literal DecimalNumber None ''0'', Literal DecimalNumber None ''0'']])
                 [] None # rest @ calls)
                in if m_name m = ''receive'' then receive = Some arm
                   else if m_name m = ''fallback'' then fallback = arm
                   else Case_node (Literal HexNumber None (m_signature m)) arm \<in> set cases)))
       \<and> (\<forall>out deps'. method_select hf deps ms [] = Inr (out, deps') \<and> ms \<noteq> [] \<and>
                        (\<forall>x \<in> set ms. m_name x \<noteq> ''fallback'') \<longrightarrow>
            (\<exists>fallback receive cases.
               fallback = Block [FunctionCall ''revert'' [Literal DecimalNumber None ''0'', Literal DecimalNumber None ''0'']] \<and>
               out = Root [Switch (FunctionCall ''lt'' [FunctionCall ''calldatasize'' [], Literal DecimalNumber None ''4''])
                        [Case_node (Literal DecimalNumber None ''1'')
                           (case receive of
                              None \<Rightarrow> fallback
                            | Some r \<Rightarrow>
                                Block [Switch (FunctionCall ''eq'' [FunctionCall ''calldatasize'' [],
                                                                   Literal DecimalNumber None ''0''])
                                         [Case_node (Literal DecimalNumber None ''1'') r]
                                         (Some (Default_node fallback))])]
                        (Some (Default_node
                           (Block [Switch (FunctionCall ''shr'' [Literal DecimalNumber None ''224'',
                                             FunctionCall ''calldataload'' [Literal DecimalNumber None ''0'']])
                                     cases
                                     (Some (Default_node fallback))]))),
                      FunctionCall ''stop'' []]))"
proof -
  let ?guard = "If_node (FunctionCall ''callvalue'' [])
                 (Block [FunctionCall ''revert'' [Literal DecimalNumber None ''0'', Literal DecimalNumber None ''0'']])
                 [] None"
  have A: "\<forall>pre. Method_check m = Inr pre \<longrightarrow>
            (\<exists>rest. pre =
               If_node (FunctionCall ''callvalue'' [])
                 (Block [FunctionCall ''revert'' [Literal DecimalNumber None ''0'', Literal DecimalNumber None ''0'']])
                 [] None # rest)"
    using Method_check_guard [OF assms] by (simp add: guard_explicit)
  have B: "\<forall>out deps'. method_select hf deps ms [] = Inr (out, deps') \<and> distinct (map m_name ms) \<and> m \<in> set ms \<longrightarrow>
            (\<exists>rest calls fallback receive cases.
               out = Root [Switch (FunctionCall ''lt'' [FunctionCall ''calldatasize'' [], Literal DecimalNumber None ''4''])
                        [Case_node (Literal DecimalNumber None ''1'')
                           (case receive of
                              None \<Rightarrow> fallback
                            | Some r \<Rightarrow>
                                Block [Switch (FunctionCall ''eq'' [FunctionCall ''calldatasize'' [],
                                                                   Literal DecimalNumber None ''0''])
                                         [Case_node (Literal DecimalNumber None ''1'') r]
                                         (Some (Default_node fallback))])]
                        (Some (Default_node
                           (Block [Switch (FunctionCall ''shr'' [Literal DecimalNumber None ''224'',
                                             FunctionCall ''calldataload'' [Literal DecimalNumber None ''0'']])
                                     cases
                                     (Some (Default_node fallback))]))),
                      FunctionCall ''stop'' []] \<and>
               FunctionCall (''__method_'' @ m_name m) [] \<in> set calls \<and>
               (let arm = Block (If_node (FunctionCall ''callvalue'' [])
                 (Block [FunctionCall ''revert'' [Literal DecimalNumber None ''0'', Literal DecimalNumber None ''0'']])
                 [] None # rest @ calls)
                in if m_name m = ''receive'' then receive = Some arm
                   else if m_name m = ''fallback'' then fallback = arm
                   else Case_node (Literal HexNumber None (m_signature m)) arm \<in> set cases))"
  proof (intro allI impI)
    fix out deps'
    assume a: "method_select hf deps ms [] = Inr (out, deps') \<and> distinct (map m_name ms) \<and> m \<in> set ms"
    then have "ms \<noteq> []" by auto
    with a method_select_state obtain st where
      st: "select_loop hf ms \<lparr>s_fallback = Block [Revert], s_receive = None, s_cases = [], s_depends = deps\<rparr> = Inr st"
          "out = select_tree (s_fallback st) (s_receive st) (s_cases st)"
      by blast
    from select_loop_records [OF st(1)] a obtain pre where
      pre: "Method_check m = Inr pre" "recorded (s_fallback st) (s_receive st) (s_cases st) m (arm_of m pre)"
      by blast
    from A pre(1) obtain rest where rest: "pre = ?guard # rest" by blast
    define calls where "calls = (if m_modifier m = Some ''locked'' then locked_calls (m_name m)
                                 else [FunctionCall (''__method_'' @ m_name m) []])"
    have c: "FunctionCall (''__method_'' @ m_name m) [] \<in> set calls"
      by (simp add: calls_def locked_calls_explicit)
    have "arm_of m pre = Block (?guard # rest @ calls)"
      by (simp add: arm_of_def rest calls_def Call_def)
    with pre(2) have
      "recorded (s_fallback st) (s_receive st) (s_cases st) m (Block (?guard # rest @ calls))"
      by simp
    then have
      "(let arm = Block (?guard # rest @ calls)
        in if m_name m = ''receive'' then s_receive st = Some arm
           else if m_name m = ''fallback'' then s_fallback st = arm
           else Case_node (Literal HexNumber None (m_signature m)) arm \<in> set (s_cases st))"
      unfolding recorded_def HexNumber_node_def Let_def .
    with st(2) [unfolded select_tree_explicit] c show "\<exists>rest calls fallback receive cases.
               out = Root [Switch (FunctionCall ''lt'' [FunctionCall ''calldatasize'' [], Literal DecimalNumber None ''4''])
                        [Case_node (Literal DecimalNumber None ''1'')
                           (case receive of
                              None \<Rightarrow> fallback
                            | Some r \<Rightarrow>
                                Block [Switch (FunctionCall ''eq'' [FunctionCall ''calldatasize'' [],
                                                                   Literal DecimalNumber None ''0''])
                                         [Case_node (Literal DecimalNumber None ''1'') r]
                                         (Some (Default_node fallback))])]
                        (Some (Default_node
                           (Block [Switch (FunctionCall ''shr'' [Literal DecimalNumber None ''224'',
                                             FunctionCall ''calldataload'' [Literal DecimalNumber None ''0'']])
                                     cases
                                     (Some (Default_node fallback))]))),
                      FunctionCall ''stop'' []] \<and>
               FunctionCall (''__method_'' @ m_name m) [] \<in> set calls \<and>
               (let arm = Block (?guard # rest @ calls)
                in if m_name m = ''receive'' then receive = Some arm
                   else if m_name m = ''fallback'' then fallback = arm
                   else Case_node (Literal HexNumber None (m_signature m)) arm \<in> set cases)"
      by blast
  qed
  have C: "\<forall>out deps'. method_select hf deps ms [] = Inr (out, deps') \<and> ms \<noteq> [] \<and>
                        (\<forall>x \<in> set ms. m_name x \<noteq> ''fallback'') \<longrightarrow>
            (\<exists>fallback receive cases.
               fallback = Block [FunctionCall ''revert'' [Literal DecimalNumber None ''0'', Literal DecimalNumber None ''0'']] \<and>
               out = Root [Switch (FunctionCall ''lt'' [FunctionCall ''calldatasize'' [], Literal DecimalNumber None ''4''])
                        [Case_node (Literal DecimalNumber None ''1'')
                           (case receive of
                              None \<Rightarrow> fallback
                            | Some r \<Rightarrow>
                                Block [Switch (FunctionCall ''eq'' [FunctionCall ''calldatasize'' [],
                                                                   Literal DecimalNumber None ''0''])
                                         [Case_node (Literal DecimalNumber None ''1'') r]
                                         (Some (Default_node fallback))])]
                        (Some (Default_node
                           (Block [Switch (FunctionCall ''shr'' [Literal DecimalNumber None ''224'',
                                             FunctionCall ''calldataload'' [Literal DecimalNumber None ''0'']])
                                     cases
                                     (Some (Default_node fallback))]))),
                      FunctionCall ''stop'' []])"
  proof (intro allI impI)
    fix out deps'
    assume a: "method_select hf deps ms [] = Inr (out, deps') \<and> ms \<noteq> [] \<and>
                        (\<forall>x \<in> set ms. m_name x \<noteq> ''fallback'')"
    with method_select_state obtain st where
      st: "select_loop hf ms \<lparr>s_fallback = Block [Revert], s_receive = None, s_cases = [], s_depends = deps\<rparr> = Inr st"
          "out = select_tree (s_fallback st) (s_receive st) (s_cases st)"
      by blast
    from select_loop_keeps [OF st(1)] a have "s_fallback st = Block [Revert]" by simp
    then have f: "s_fallback st = Block [FunctionCall ''revert'' [Literal DecimalNumber None ''0'', Literal DecimalNumber None ''0'']]"
      by (simp only: revert_block_explicit)
    with st(2) [unfolded select_tree_explicit] show "\<exists>fallback receive cases.
               fallback = Block [FunctionCall ''revert'' [Literal DecimalNumber None ''0'', Literal DecimalNumber None ''0'']] \<and>
               out = Root [Switch (FunctionCall ''lt'' [FunctionCall ''calldatasize'' [], Literal DecimalNumber None ''4''])
                        [Case_node (Literal DecimalNumber None ''1'')
                           (case receive of
                              None \<Rightarrow> fallback
                            | Some r \<Rightarrow>
                                Block [Switch (FunctionCall ''eq'' [FunctionCall ''calldatasize'' [],
                                                                   Literal DecimalNumber None ''0''])
                                         [Case_node (Literal DecimalNumber None ''1'') r]
                                         (Some (Default_node fallback))])]
                        (Some (Default_node
                           (Block [Switch (FunctionCall ''shr'' [Literal DecimalNumber None ''224'',
                                             FunctionCall ''calldataload'' [Literal DecimalNumber None ''0'']])
                                     cases
                                     (Some (Default_node fallback))]))),
                      FunctionCall ''stop'' []]"
      by blast
  qed
  show ?thesis by (intro conjI A B C)
qed

lemmas dispatch_eval_defs = method_select_def method_call_def select_arm_def Method_check_def
  Method_addDeps_def dependsOn_def bind_err_def isFunction_def locked_calls_def Let_def
  param_check_def isNull_def Null_def

lemmas node_explicit_defs = select_tree_explicit RequireZero_def RequireEq_def Xor_def If_stmt_def
  Revert_def CallValue_def CallDataSize_def Call_def HexNumber_node_def Literal_number_def
  toString_def nat_toString.simps digit_char_def

lemma example_methods:
  "Method_init digest0 locked_decl = Inr locked_method"
  "Method_init digest0 view_decl = Inr view_method"
  by (simp_all add: abi_eval_defs locked_decl_def view_decl_def locked_method_def view_method_def
      digest0_def)

theorem locked_method_dispatch_witness:
  "method_select (\<lambda>n. True) [] [locked_method] []
     = Inr (Root [Switch (FunctionCall ''lt'' [FunctionCall ''calldatasize'' [], Literal DecimalNumber None ''4''])
                    [Case_node (Literal DecimalNumber None ''1'') (Block [FunctionCall ''revert'' [Literal DecimalNumber None ''0'', Literal DecimalNumber None ''0'']])]
                    (Some (Default_node
                       (Block [Switch (FunctionCall ''shr'' [Literal DecimalNumber None ''224'',
                                         FunctionCall ''calldataload'' [Literal DecimalNumber None ''0'']])
                                 [Case_node (Literal HexNumber None ''0x00000000'')
                                    (Block [If_node (FunctionCall ''callvalue'' [])
                            (Block [FunctionCall ''revert'' [Literal DecimalNumber None ''0'',
                                                            Literal DecimalNumber None ''0'']])
                            [] None,
                                            If_node (FunctionCall ''xor'' [FunctionCall ''calldatasize'' [], Literal DecimalNumber None ''4''])
                            (Block [FunctionCall ''revert'' [Literal DecimalNumber None ''0'',
                                                            Literal DecimalNumber None ''0'']])
                            [] None,
                                            FunctionCall ''__mutex_lock'' [], FunctionCall ''__method_f'' [],
                                            FunctionCall ''__mutex_unlock'' []])]
                                 (Some (Default_node (Block [FunctionCall ''revert'' [Literal DecimalNumber None ''0'', Literal DecimalNumber None ''0'']])))]))),
                  FunctionCall ''stop'' []],
            [''__mutex_key'', ''__mutex_lock'', ''__mutex_unlock''])
   \<and> method_call (\<lambda>n. True) (\<lambda>n. if n = ''f'' then Some locked_method else None) []
        [Identifier ''f'' True]
     = Inr (Root [FunctionCall ''__mutex_lock'' [], FunctionCall ''__method_f'' [],
                  FunctionCall ''__mutex_unlock'' []],
            [''__mutex_key'', ''__mutex_lock'', ''__mutex_unlock''])"
proof -
  have locked: "m_modifier locked_method = Some ''locked''" and name: "m_name locked_method = ''f''"
    by (simp_all add: locked_method_def)
  have e1: "method_select (\<lambda>n. True) [] [locked_method] []
     = Inr (Root [Switch (FunctionCall ''lt'' [FunctionCall ''calldatasize'' [], Literal DecimalNumber None ''4''])
                    [Case_node (Literal DecimalNumber None ''1'') (Block [FunctionCall ''revert'' [Literal DecimalNumber None ''0'', Literal DecimalNumber None ''0'']])]
                    (Some (Default_node
                       (Block [Switch (FunctionCall ''shr'' [Literal DecimalNumber None ''224'',
                                         FunctionCall ''calldataload'' [Literal DecimalNumber None ''0'']])
                                 [Case_node (Literal HexNumber None ''0x00000000'')
                                    (Block [If_node (FunctionCall ''callvalue'' [])
                            (Block [FunctionCall ''revert'' [Literal DecimalNumber None ''0'',
                                                            Literal DecimalNumber None ''0'']])
                            [] None,
                                            If_node (FunctionCall ''xor'' [FunctionCall ''calldatasize'' [], Literal DecimalNumber None ''4''])
                            (Block [FunctionCall ''revert'' [Literal DecimalNumber None ''0'',
                                                            Literal DecimalNumber None ''0'']])
                            [] None,
                                            FunctionCall ''__mutex_lock'' [], FunctionCall ''__method_f'' [],
                                            FunctionCall ''__mutex_unlock'' []])]
                                 (Some (Default_node (Block [FunctionCall ''revert'' [Literal DecimalNumber None ''0'', Literal DecimalNumber None ''0'']])))]))),
                  FunctionCall ''stop'' []],
            [''__mutex_key'', ''__mutex_lock'', ''__mutex_unlock''])"
    by (simp add: dispatch_eval_defs locked_method_def node_explicit_defs)
  obtain res d where r: "method_call (\<lambda>n. True) (\<lambda>n. if n = ''f'' then Some locked_method else None) []
        [Identifier (m_name locked_method) True] = Inr (res, d)"
      and d: "d = [''__mutex_key'', ''__mutex_lock'', ''__mutex_unlock'']"
    by (simp add: dispatch_eval_defs locked_method_def)
  from locked_method_dispatch [OF locked, of "\<lambda>n. True" "[]" "[]" "\<lambda>n. if n = ''f'' then Some locked_method else None"] r
  have "res = Root [FunctionCall ''__mutex_lock'' [], FunctionCall (''__method_'' @ m_name locked_method) [],
                    FunctionCall ''__mutex_unlock'' []]"
    by (simp add: name, blast)
  with r d name have e2: "method_call (\<lambda>n. True) (\<lambda>n. if n = ''f'' then Some locked_method else None) []
        [Identifier ''f'' True]
     = Inr (Root [FunctionCall ''__mutex_lock'' [], FunctionCall ''__method_f'' [],
                  FunctionCall ''__mutex_unlock'' []],
            [''__mutex_key'', ''__mutex_lock'', ''__mutex_unlock''])"
    by simp
  from e1 e2 show ?thesis by (intro conjI)
qed

theorem nonpayable_guard_witness:
  "Method_check view_method
     = Inr [If_node (FunctionCall ''callvalue'' [])
              (Block [FunctionCall ''revert'' [Literal DecimalNumber None ''0'', Literal DecimalNumber None ''0'']])
              [] None,
            If_node (FunctionCall ''xor'' [FunctionCall ''calldatasize'' [], Literal DecimalNumber None ''36''])
                            (Block [FunctionCall ''revert'' [Literal DecimalNumber None ''0'',
                                                            Literal DecimalNumber None ''0'']])
                            [] None]
   \<and> method_select (\<lambda>n. True) [] [view_method] []
     = Inr (Root [Switch (FunctionCall ''lt'' [FunctionCall ''calldatasize'' [], Literal DecimalNumber None ''4''])
                    [Case_node (Literal DecimalNumber None ''1'') (Block [FunctionCall ''revert'' [Literal DecimalNumber None ''0'', Literal DecimalNumber None ''0'']])]
                    (Some (Default_node
                       (Block [Switch (FunctionCall ''shr'' [Literal DecimalNumber None ''224'',
                                         FunctionCall ''calldataload'' [Literal DecimalNumber None ''0'']])
                                 [Case_node (Literal HexNumber None ''0x00000000'')
                                    (Block [If_node (FunctionCall ''callvalue'' [])
                            (Block [FunctionCall ''revert'' [Literal DecimalNumber None ''0'',
                                                            Literal DecimalNumber None ''0'']])
                            [] None,
                                            If_node (FunctionCall ''xor'' [FunctionCall ''calldatasize'' [], Literal DecimalNumber None ''36''])
                            (Block [FunctionCall ''revert'' [Literal DecimalNumber None ''0'',
                                                            Literal DecimalNumber None ''0'']])
                            [] None,
                                            FunctionCall ''__method_g'' []])]
                                 (Some (Default_node (Block [FunctionCall ''revert'' [Literal DecimalNumber None ''0'', Literal DecimalNumber None ''0'']])))]))),
                  FunctionCall ''stop'' []],
            [])"
proof -
  have np: "m_mutability view_method \<noteq> Some ''payable''"
    by (simp add: view_method_def)
  obtain pre where pre: "Method_check view_method = Inr pre"
    and pre2: "tl pre = [If_node (FunctionCall ''xor'' [FunctionCall ''calldatasize'' [], Literal DecimalNumber None ''36''])
                            (Block [FunctionCall ''revert'' [Literal DecimalNumber None ''0'',
                                                            Literal DecimalNumber None ''0'']])
                            [] None]" "length pre = 2"
    by (simp add: dispatch_eval_defs view_method_def node_explicit_defs)
  from nonpayable_guard [OF np, of "\<lambda>n. True" "[]" "[]"] pre obtain rest where
    "pre = If_node (FunctionCall ''callvalue'' [])
              (Block [FunctionCall ''revert'' [Literal DecimalNumber None ''0'', Literal DecimalNumber None ''0'']])
              [] None # rest"
    by blast
  with pre pre2 have c1: "Method_check view_method
     = Inr [If_node (FunctionCall ''callvalue'' [])
              (Block [FunctionCall ''revert'' [Literal DecimalNumber None ''0'', Literal DecimalNumber None ''0'']])
              [] None,
            If_node (FunctionCall ''xor'' [FunctionCall ''calldatasize'' [], Literal DecimalNumber None ''36''])
                            (Block [FunctionCall ''revert'' [Literal DecimalNumber None ''0'',
                                                            Literal DecimalNumber None ''0'']])
                            [] None]"
    by simp
  have c2: "method_select (\<lambda>n. True) [] [view_method] []
     = Inr (Root [Switch (FunctionCall ''lt'' [FunctionCall ''calldatasize'' [], Literal DecimalNumber None ''4''])
                    [Case_node (Literal DecimalNumber None ''1'') (Block [FunctionCall ''revert'' [Literal DecimalNumber None ''0'', Literal DecimalNumber None ''0'']])]
                    (Some (Default_node
                       (Block [Switch (FunctionCall ''shr'' [Literal DecimalNumber None ''224'',
                                         FunctionCall ''calldataload'' [Literal DecimalNumber None ''0'']])
                                 [Case_node (Literal HexNumber None ''0x00000000'')
                                    (Block [If_node (FunctionCall ''callvalue'' [])
                            (Block [FunctionCall ''revert'' [Literal DecimalNumber None ''0'',
                                                            Literal DecimalNumber None ''0'']])
                            [] None,
                                            If_node (FunctionCall ''xor'' [FunctionCall ''calldatasize'' [], Literal DecimalNumber None ''36''])
                            (Block [FunctionCall ''revert'' [Literal DecimalNumber None ''0'',
                                                            Literal DecimalNumber None ''0'']])
                            [] None,
                                            FunctionCall ''__method_g'' []])]
                                 (Some (Default_node (Block [FunctionCall ''revert'' [Literal DecimalNumber None ''0'', Literal DecimalNumber None ''0'']])))]))),
                  FunctionCall ''stop'' []],
            [])"
    by (simp add: method_select_def select_arm_def Method_addDeps_def bind_err_def
        c1 [unfolded view_method_def] view_method_def node_explicit_defs)
  from c1 c2 show ?thesis by (intro conjI)
qed

section \<open>Calldata identifiers\<close>

lemmas parse_params_defs = MethodParams_def bind_err_def expect_def consume_def eatSpace_def
  is_space_def ABIType_def match_abitype_def is_lower_def is_digit_in_def digit_of_def digits_val_def
  Identifier_tok_def is_ident_start_def is_ident_char_def Let_def

lemmas calldata_eval_defs = rewrite_calldata_in_def rewrite_CallDataIdentifier_def Method_init_def
  bind_err_def Let_def new_MethodParam_def param_read_def param_ref_def param_decode_def isPadded_def
  Add_def Shr_def CallDataLoad_def Call_def Literal_number_def toString_def nat_toString.simps
  digit_char_def

lemma foobar_parsed:
  "MethodParams ''(uint32 id, uint64 amount, bytes32[] hashes)'' = Inr (d_params foobar_decl, [])"
  by (simp add: parse_params_defs foobar_decl_def)

text \<open>
  Claim C6, as the code has it.  For \<^verbatim>\<open>method foobar(uint32 id, uint64 amount, bytes32[]
  hashes)\<close> the transformer rewrites \<^verbatim>\<open>calldata.id\<close> to \<^verbatim>\<open>calldataload(4)\<close>,
  \<^verbatim>\<open>calldata.amount\<close> to \<^verbatim>\<open>calldataload(36)\<close>, \<^verbatim>\<open>calldata.hashes\<close> to
  \<^verbatim>\<open>add(calldataload(68), 4)\<close> and \<^verbatim>\<open>&calldata.id\<close> to the literal 4.  An unsigned integer is
  right-aligned in its slot, so \<^verbatim>\<open>MethodParam.decode\<close> shifts only the types \<^verbatim>\<open>bytes<n>\<close> and
  \<^verbatim>\<open>function\<close>.
\<close>

theorem foobar_calldata:
  "MethodParams ''(uint32 id, uint64 amount, bytes32[] hashes)'' = Inr (d_params foobar_decl, [])
   \<and> rewrite_calldata_in k foobar_decl ''id'' False
       = Inr (FunctionCall ''calldataload'' [Literal DecimalNumber None ''4''])
   \<and> rewrite_calldata_in k foobar_decl ''amount'' False
       = Inr (FunctionCall ''calldataload'' [Literal DecimalNumber None ''36''])
   \<and> rewrite_calldata_in k foobar_decl ''hashes'' False
       = Inr (FunctionCall ''add'' [FunctionCall ''calldataload'' [Literal DecimalNumber None ''68''],
                                   Literal DecimalNumber None ''4''])
   \<and> rewrite_calldata_in k foobar_decl ''id'' True = Inr (Literal DecimalNumber None ''4'')"
proof -
  have a: "rewrite_calldata_in k foobar_decl ''id'' False
       = Inr (FunctionCall ''calldataload'' [Literal DecimalNumber None ''4''])"
    by (simp add: calldata_eval_defs foobar_decl_def)
  have b: "rewrite_calldata_in k foobar_decl ''amount'' False
       = Inr (FunctionCall ''calldataload'' [Literal DecimalNumber None ''36''])"
    by (simp add: calldata_eval_defs foobar_decl_def)
  have c: "rewrite_calldata_in k foobar_decl ''hashes'' False
       = Inr (FunctionCall ''add'' [FunctionCall ''calldataload'' [Literal DecimalNumber None ''68''],
                                   Literal DecimalNumber None ''4''])"
    by (simp add: calldata_eval_defs foobar_decl_def)
  have d: "rewrite_calldata_in k foobar_decl ''id'' True = Inr (Literal DecimalNumber None ''4'')"
    by (simp add: calldata_eval_defs foobar_decl_def)
  show ?thesis by (intro conjI foobar_parsed a b c d)
qed

text \<open>The claim as written fails: \<^verbatim>\<open>calldata.id\<close> is not rewritten to \<^verbatim>\<open>shr(224, calldataload(4))\<close>.\<close>

theorem foobar_calldata_id_not_shifted:
  "rewrite_calldata_in digest0 foobar_decl ''id'' False
     \<noteq> Inr (FunctionCall ''shr'' [Literal DecimalNumber None ''224'',
                                 FunctionCall ''calldataload'' [Literal DecimalNumber None ''4'']])"
  by (simp add: calldata_eval_defs foobar_decl_def)

section \<open>Struct layout and default value\<close>

lemma struct_type_width_nonneg: "struct_type_width t = Some w \<Longrightarrow> 0 \<le> w"
  by (auto simp: struct_type_width_def split: if_splits)

lemma new_StructMember_fields:
  "new_StructMember name off w v = Inr mem \<Longrightarrow>
   sm_name mem = name \<and> sm_offset mem = off \<and> sm_width mem = w \<and> sm_shift mem = 256 - (off + w)"
  by (auto simp: new_StructMember_def Let_def split: option.splits)

lemma init_members_inv:
  "init_members decls (off, n, ms, mp) = Inr (off', n', ms', mp') \<Longrightarrow>
   \<exists>ws new. map (\<lambda>d. struct_type_width (sd_kind d)) decls = map Some ws \<and>
            off' = off + sum_list ws \<and> ms' = ms @ new \<and>
            map (\<lambda>m. (sm_name m, sm_offset m, sm_width m)) new = spec_layout (zip (map sd_name decls) ws) off \<and>
            (\<forall>m \<in> set new. sm_shift m = 256 - (sm_offset m + sm_width m)) \<and>
            n' = foldl (\<lambda>n m. n OR bigint_shl (sm_value m) (sm_shift m)) n new \<and>
            (\<forall>w \<in> set ws. 0 \<le> w)"
proof (induction decls arbitrary: off n ms mp)
  case Nil
  then show ?case by simp
next
  case (Cons d ds)
  from Cons.prems obtain w where w: "struct_type_width (sd_kind d) = Some w"
    by (auto split: option.splits)
  then have w0: "0 \<le> w" by (rule struct_type_width_nonneg)
  show ?case
  proof (cases "sd_name d = ''+''")
    case True
    with Cons.prems w have "init_members ds (off + w, n, ms, mp) = Inr (off', n', ms', mp')"
      by simp
    from Cons.IH [OF this] obtain ws new where
      "map (\<lambda>d. struct_type_width (sd_kind d)) ds = map Some ws"
      "off' = off + w + sum_list ws" "ms' = ms @ new"
      "map (\<lambda>m. (sm_name m, sm_offset m, sm_width m)) new = spec_layout (zip (map sd_name ds) ws) (off + w)"
      "\<forall>m \<in> set new. sm_shift m = 256 - (sm_offset m + sm_width m)"
      "n' = foldl (\<lambda>n m. n OR bigint_shl (sm_value m) (sm_shift m)) n new"
      "\<forall>w \<in> set ws. 0 \<le> w"
      by blast
    with True w w0 show ?thesis
      by (intro exI [of _ "w # ws"] exI [of _ new]) simp
  next
    case False
    with Cons.prems w obtain mem where
      mem: "new_StructMember (sd_name d) off w (literal_value (sd_value d)) = Inr mem"
      and rest: "init_members ds (off + w, n OR bigint_shl (sm_value mem) (sm_shift mem),
                    ms @ [mem], mp @ [(sd_name d, mem)]) = Inr (off', n', ms', mp')"
      by (auto split: if_splits sum.splits)
    note f = new_StructMember_fields [OF mem]
    from Cons.IH [OF rest] obtain ws new where
      "map (\<lambda>d. struct_type_width (sd_kind d)) ds = map Some ws"
      "off' = off + w + sum_list ws" "ms' = (ms @ [mem]) @ new"
      "map (\<lambda>m. (sm_name m, sm_offset m, sm_width m)) new = spec_layout (zip (map sd_name ds) ws) (off + w)"
      "\<forall>m \<in> set new. sm_shift m = 256 - (sm_offset m + sm_width m)"
      "n' = foldl (\<lambda>n m. n OR bigint_shl (sm_value m) (sm_shift m)) (n OR bigint_shl (sm_value mem) (sm_shift mem)) new"
      "\<forall>w \<in> set ws. 0 \<le> w"
      by blast
    with False w w0 f show ?thesis
      by (intro exI [of _ "w # ws"] exI [of _ "mem # new"]) simp
  qed
qed

lemma spec_layout_bounds:
  "length names = length ws \<Longrightarrow> \<forall>w \<in> set ws. 0 \<le> w \<Longrightarrow>
   (name, ofs, w) \<in> set (spec_layout (zip names ws) off) \<Longrightarrow>
   off \<le> ofs \<and> ofs + w \<le> off + sum_list ws"
proof (induction names ws arbitrary: off rule: list_induct2)
  case Nil
  then show ?case by simp
next
  case (Cons x xs y ys)
  from Cons.prems(1) have y: "0 \<le> y" and ys: "\<forall>w \<in> set ys. 0 \<le> w" by auto
  then have s: "0 \<le> sum_list ys" by (simp add: sum_list_nonneg)
  from Cons.prems(2) consider "(name, ofs, w) = (x, off, y)"
    | "(name, ofs, w) \<in> set (spec_layout (zip xs ys) (off + y))"
    by (auto split: if_splits)
  then show ?case
  proof cases
    case 1
    with s show ?thesis by simp
  next
    case 2
    from Cons.IH [OF ys 2] y show ?thesis by simp
  qed
qed

lemma fold_args_defaults:
  "list_all isDefaultIdentifier args \<Longrightarrow>
   fold_args (zip ms args) (n, stack)
     = Inr (foldl (\<lambda>n m. n OR bigint_shl (sm_value m) (sm_shift m)) n (take (length args) ms), stack)"
proof (induction ms arbitrary: args n)
  case Nil
  then show ?case by simp
next
  case (Cons m ms)
  then show ?case by (cases args) auto
qed

lemma Struct_fold_defaults:
  assumes "list_all isDefaultIdentifier args" "length args \<le> length (st_members s)"
    and "st_value s = Literal_bigint (foldl (\<lambda>n m. n OR bigint_shl (sm_value m) (sm_shift m)) 0 (st_members s))"
  shows "Struct_fold s args = Inr (st_value s)"
proof (cases "args = []")
  case True
  then show ?thesis by (simp add: Struct_fold_def)
next
  case False
  let ?f = "\<lambda>n m. n OR bigint_shl (sm_value m) (sm_shift m)"
  have "foldl ?f (foldl ?f 0 (take (length args) (st_members s))) (drop (length args) (st_members s))
      = foldl ?f 0 (take (length args) (st_members s) @ drop (length args) (st_members s))"
    by (simp only: foldl_append)
  then have "foldl ?f (foldl ?f 0 (take (length args) (st_members s))) (drop (length args) (st_members s))
      = foldl ?f 0 (st_members s)"
    by simp
  with False assms show ?thesis
    by (simp add: Struct_fold_def fold_args_defaults Let_def)
qed

text \<open>
  Claim C5.  When \<^verbatim>\<open>new Struct(node)\<close> succeeds, every member type has a width, the widths
  (padding included) add up to the width of the struct, which lies in \<open>(0, 256]\<close>; the named
  members stand at the offsets of the consecutive layout, each shifted left by
  \<open>256 - (offset + width)\<close>, which is not negative; the default value is the literal of the
  defaults shifted into place and combined; and an initialiser without arguments, or whose
  arguments (no more than there are members) are all \<^verbatim>\<open>@\<close>, folds to this default value.
  When the widths add up to a sum outside \<open>(0, 256]\<close>, the construction throws.
\<close>

theorem struct_layout_and_default:
  "(\<forall>s. Struct_init name decls = Inr s \<longrightarrow>
      (\<exists>ws. map (\<lambda>d. struct_type_width (sd_kind d)) decls = map Some ws \<and>
            st_width s = sum_list ws \<and> 0 < sum_list ws \<and> sum_list ws \<le> 256 \<and>
            map (\<lambda>m. (sm_name m, sm_offset m, sm_width m)) (st_members s)
              = spec_layout (zip (map sd_name decls) ws) 0) \<and>
      (\<forall>m \<in> set (st_members s). sm_shift m = 256 - (sm_offset m + sm_width m) \<and> 0 \<le> sm_shift m) \<and>
      st_value s = Literal_bigint (foldl (\<lambda>n m. n OR push_bit (nat (sm_shift m)) (sm_value m)) 0 (st_members s)) \<and>
      Struct_fold s [] = Inr (st_value s) \<and>
      (\<forall>args. list_all isDefaultIdentifier args \<and> length args \<le> length (st_members s) \<longrightarrow>
              Struct_fold s args = Inr (st_value s)))
   \<and> (\<forall>ws. map (\<lambda>d. struct_type_width (sd_kind d)) decls = map Some ws \<and>
             (sum_list ws \<le> 0 \<or> 256 < sum_list ws) \<longrightarrow>
           (\<exists>e. Struct_init name decls = Inl e))"
proof -
  let ?f = "\<lambda>n m. n OR bigint_shl (sm_value m) (sm_shift m)"
  let ?g = "\<lambda>n m. n OR push_bit (nat (sm_shift m)) (sm_value m)"
  have main: "\<exists>ws. map (\<lambda>d. struct_type_width (sd_kind d)) decls = map Some ws \<and>
            st_width s = sum_list ws \<and> 0 < sum_list ws \<and> sum_list ws \<le> 256 \<and>
            map (\<lambda>m. (sm_name m, sm_offset m, sm_width m)) (st_members s)
              = spec_layout (zip (map sd_name decls) ws) 0 \<and>
            (\<forall>m \<in> set (st_members s). sm_shift m = 256 - (sm_offset m + sm_width m) \<and> 0 \<le> sm_shift m) \<and>
            st_value s = Literal_bigint (foldl ?f 0 (st_members s))"
    if s: "Struct_init name decls = Inr s" for s
  proof -
    from s obtain off n ms mp where
      im: "init_members decls (0, 0, [], []) = Inr (off, n, ms, mp)"
      and ok: "\<not> (off = 0 \<or> off > 256)"
      and sv: "s = \<lparr>st_name = name, st_members = ms, st_map = mp, st_value = Literal_bigint n, st_width = off\<rparr>"
      by (auto simp: Struct_init_def split: sum.splits if_splits)
    from init_members_inv [OF im] obtain ws where
      ws: "map (\<lambda>d. struct_type_width (sd_kind d)) decls = map Some ws"
      and off: "off = sum_list ws"
      and lay: "map (\<lambda>m. (sm_name m, sm_offset m, sm_width m)) ms = spec_layout (zip (map sd_name decls) ws) 0"
      and sh: "\<forall>m \<in> set ms. sm_shift m = 256 - (sm_offset m + sm_width m)"
      and n: "n = foldl ?f 0 ms"
      and nonneg: "\<forall>w \<in> set ws. 0 \<le> w"
      by auto
    from nonneg have "0 \<le> sum_list ws" by (simp add: sum_list_nonneg)
    with ok off have range: "0 < sum_list ws" "sum_list ws \<le> 256" by auto
    from ws have len: "length (map sd_name decls) = length ws"
      by (metis length_map)
    have pos: "0 \<le> sm_shift m" if "m \<in> set ms" for m
    proof -
      from that have "(sm_name m, sm_offset m, sm_width m) \<in> set (map (\<lambda>m. (sm_name m, sm_offset m, sm_width m)) ms)"
        by force
      with lay have "(sm_name m, sm_offset m, sm_width m) \<in> set (spec_layout (zip (map sd_name decls) ws) 0)"
        by simp
      from spec_layout_bounds [OF len nonneg this] have "sm_offset m + sm_width m \<le> sum_list ws"
        by simp
      with range sh that show ?thesis by simp
    qed
    with sv ws off range lay sh n show ?thesis by simp
  qed
  have shift_eq: "foldl ?f a ms = foldl ?g a ms" if "\<forall>m \<in> set ms. 0 \<le> sm_shift m" for a ms
    using that by (induction ms arbitrary: a) (simp_all add: bigint_shl_def)
  have A: "\<forall>s. Struct_init name decls = Inr s \<longrightarrow>
      (\<exists>ws. map (\<lambda>d. struct_type_width (sd_kind d)) decls = map Some ws \<and>
            st_width s = sum_list ws \<and> 0 < sum_list ws \<and> sum_list ws \<le> 256 \<and>
            map (\<lambda>m. (sm_name m, sm_offset m, sm_width m)) (st_members s)
              = spec_layout (zip (map sd_name decls) ws) 0) \<and>
      (\<forall>m \<in> set (st_members s). sm_shift m = 256 - (sm_offset m + sm_width m) \<and> 0 \<le> sm_shift m) \<and>
      st_value s = Literal_bigint (foldl ?g 0 (st_members s)) \<and>
      Struct_fold s [] = Inr (st_value s) \<and>
      (\<forall>args. list_all isDefaultIdentifier args \<and> length args \<le> length (st_members s) \<longrightarrow>
              Struct_fold s args = Inr (st_value s))"
  proof (intro allI impI)
    fix s assume s: "Struct_init name decls = Inr s"
    from main [OF s] obtain ws where
      m: "map (\<lambda>d. struct_type_width (sd_kind d)) decls = map Some ws \<and>
            st_width s = sum_list ws \<and> 0 < sum_list ws \<and> sum_list ws \<le> 256 \<and>
            map (\<lambda>m. (sm_name m, sm_offset m, sm_width m)) (st_members s)
              = spec_layout (zip (map sd_name decls) ws) 0"
      and sh: "\<forall>m \<in> set (st_members s). sm_shift m = 256 - (sm_offset m + sm_width m) \<and> 0 \<le> sm_shift m"
      and v: "st_value s = Literal_bigint (foldl ?f 0 (st_members s))"
      by blast
    from sh have "\<forall>m \<in> set (st_members s). 0 \<le> sm_shift m" by blast
    then have "foldl ?f 0 (st_members s) = foldl ?g 0 (st_members s)" by (rule shift_eq)
    with v have v': "st_value s = Literal_bigint (foldl ?g 0 (st_members s))"
      by simp
    have d: "\<forall>args. list_all isDefaultIdentifier args \<and> length args \<le> length (st_members s) \<longrightarrow>
              Struct_fold s args = Inr (st_value s)"
      using Struct_fold_defaults [OF _ _ v] by blast
    have e: "Struct_fold s [] = Inr (st_value s)"
      by (simp add: Struct_fold_def)
    from m sh v' d e show "(\<exists>ws. map (\<lambda>d. struct_type_width (sd_kind d)) decls = map Some ws \<and>
            st_width s = sum_list ws \<and> 0 < sum_list ws \<and> sum_list ws \<le> 256 \<and>
            map (\<lambda>m. (sm_name m, sm_offset m, sm_width m)) (st_members s)
              = spec_layout (zip (map sd_name decls) ws) 0) \<and>
      (\<forall>m \<in> set (st_members s). sm_shift m = 256 - (sm_offset m + sm_width m) \<and> 0 \<le> sm_shift m) \<and>
      st_value s = Literal_bigint (foldl ?g 0 (st_members s)) \<and>
      Struct_fold s [] = Inr (st_value s) \<and>
      (\<forall>args. list_all isDefaultIdentifier args \<and> length args \<le> length (st_members s) \<longrightarrow>
              Struct_fold s args = Inr (st_value s))"
      by blast
  qed
  have B: "\<forall>ws. map (\<lambda>d. struct_type_width (sd_kind d)) decls = map Some ws \<and>
             (sum_list ws \<le> 0 \<or> 256 < sum_list ws) \<longrightarrow>
           (\<exists>e. Struct_init name decls = Inl e)"
  proof (intro allI impI)
    fix ws
    assume a: "map (\<lambda>d. struct_type_width (sd_kind d)) decls = map Some ws \<and>
             (sum_list ws \<le> 0 \<or> 256 < sum_list ws)"
    show "\<exists>e. Struct_init name decls = Inl e"
    proof (cases "Struct_init name decls")
      case (Inl e)
      then show ?thesis by blast
    next
      case (Inr s)
      from main [OF Inr] obtain ws' where
        "map (\<lambda>d. struct_type_width (sd_kind d)) decls = map Some ws'" "0 < sum_list ws'" "sum_list ws' \<le> 256"
        by blast
      with a have "map Some ws = map Some ws'" by simp
      then have "ws = ws'" by (simp add: inj_map_eq_map)
      with a \<open>0 < sum_list ws'\<close> \<open>sum_list ws' \<le> 256\<close> show ?thesis by simp
    qed
  qed
  show ?thesis by (intro conjI A B)
qed

lemmas struct_eval_defs = Struct_init_def Struct_fold_def new_StructMember_def struct_type_width_def
  prefix_digits_def literal_value_def isLiteral_def isDefaultIdentifier_def bigint_shl_def
  Literal_bigint_def U256_MAX_def toBigInt_def BigInt_def radix_literal_def is_digit_in_def
  digit_of_def digits_val_def toString_def nat_toString.simps digit_char_def Let_def

theorem struct_layout_and_default_witness:
  "map_sum id st_width (Struct_init ''btc_output'' btc_output) = Inr 248
   \<and> map_sum id st_value (Struct_init ''btc_output'' btc_output)
       = Inr (Literal HexNumber None ''0x160014000000000000000000000000000000000000000000'')
   \<and> isl (Struct_init ''wide''
        [\<lparr>sd_kind = ''uint256'', sd_name = ''a'', sd_value = Literal DecimalNumber None ''0''\<rparr>,
         \<lparr>sd_kind = ''uint8'', sd_name = ''b'', sd_value = Literal DecimalNumber None ''0''\<rparr>])"
proof -
  obtain s where s: "Struct_init ''btc_output'' btc_output = Inr s"
    by (simp add: struct_eval_defs btc_output_def)
  have w: "map (\<lambda>d. struct_type_width (sd_kind d)) btc_output = map Some [64, 24, 160]"
    by (simp add: struct_eval_defs btc_output_def)
  note T = struct_layout_and_default [of "''btc_output''" btc_output]
  from T s obtain ws where ws: "map (\<lambda>d. struct_type_width (sd_kind d)) btc_output = map Some ws"
    "st_width s = sum_list ws"
    by blast
  from ws(1) w have "map Some ws = map Some [64, 24, 160]" by simp
  then have "ws = [64, 24, 160]" by (simp only: inj_map_eq_map [OF inj_Some])
  with ws(2) have c1: "st_width s = 248" by simp
  have c2: "st_value s = Literal HexNumber None ''0x160014000000000000000000000000000000000000000000''"
    using s by (auto simp: struct_eval_defs btc_output_def)
  let ?wide = "[\<lparr>sd_kind = ''uint256'', sd_name = ''a'', sd_value = Literal DecimalNumber None ''0''\<rparr>,
         \<lparr>sd_kind = ''uint8'', sd_name = ''b'', sd_value = Literal DecimalNumber None ''0''\<rparr>]"
  have w2: "map (\<lambda>d. struct_type_width (sd_kind d)) ?wide = map Some [256, 8]"
    by (simp add: struct_eval_defs)
  from struct_layout_and_default [of "''wide''" ?wide] w2
  have "\<exists>e. Struct_init ''wide'' ?wide = Inl e"
    by (elim conjE allE [of _ "[256, 8]"]) simp
  then have c3: "isl (Struct_init ''wide'' ?wide)" by auto
  from s c1 c2 c3 show ?thesis by simp
qed

section \<open>The preprocessor construct\<close>

lemma fold_test_selects: "selects r \<Longrightarrow> fold_test r = Inr True"
  by (auto simp: selects_def fold_test_def)

lemma fold_test_passes: "passes_over r \<Longrightarrow> fold_test r = Inr False"
  by (auto simp: passes_over_def fold_test_def)

lemma fold_branches_skip:
  "\<forall>j < length xs. \<exists>r. rw (fst (xs ! j)) = Inr r \<and> passes_over r \<Longrightarrow>
   fold_branches rw (xs @ ys) = fold_branches rw ys"
proof (induction xs)
  case Nil
  show ?case by simp
next
  case (Cons x xs)
  from Cons.prems have "\<exists>r. rw (fst ((x # xs) ! 0)) = Inr r \<and> passes_over r" by blast
  then obtain r where r: "rw (fst x) = Inr r" "passes_over r" by auto
  have "\<forall>j < length xs. \<exists>r. rw (fst (xs ! j)) = Inr r \<and> passes_over r"
  proof (intro allI impI)
    fix j assume "j < length xs"
    then have "Suc j < length (x # xs)" by simp
    with Cons.prems have "\<exists>r. rw (fst ((x # xs) ! Suc j)) = Inr r \<and> passes_over r" by blast
    then show "\<exists>r. rw (fst (xs ! j)) = Inr r \<and> passes_over r" by simp
  qed
  from Cons.IH [OF this] r show ?case
    by (cases x) (simp add: fold_test_passes)
qed

text \<open>
  Claim C4, as the code has it.  The branches of an \<^verbatim>\<open>@if\<close> are tried in order.  A branch
  whose rewritten condition is a literal zero, or is no numeric or Boolean literal at all,
  is passed over and contributes nothing; the first branch whose rewritten condition is a
  literal other than zero is rewritten and returned (the \<^verbatim>\<open>Root\<close> it yields is spliced into the
  enclosing list of statements); when every branch is passed over, the \<^verbatim>\<open>else\<close> block is
  rewritten and returned, or the empty \<^verbatim>\<open>Root\<close> when there is none.
\<close>

theorem preprocessor_fold:
  "(\<forall>i < length ((e, b) # brs).
       (\<forall>j < i. \<exists>r. rw (fst (((e, b) # brs) ! j)) = Inr r \<and> passes_over r) \<and>
       (\<exists>r. rw (fst (((e, b) # brs) ! i)) = Inr r \<and> selects r) \<longrightarrow>
       rewrite_Fold rw (Fold e b brs ow) = rw (snd (((e, b) # brs) ! i)))
   \<and> ((\<forall>j < length ((e, b) # brs). \<exists>r. rw (fst (((e, b) # brs) ! j)) = Inr r \<and> passes_over r) \<longrightarrow>
       rewrite_Fold rw (Fold e b brs ow) = (case ow of None \<Rightarrow> Inr Null | Some blk \<Rightarrow> rw blk))"
proof -
  let ?bs = "(e, b) # brs"
  have A: "\<forall>i < length ?bs.
       (\<forall>j < i. \<exists>r. rw (fst (?bs ! j)) = Inr r \<and> passes_over r) \<and>
       (\<exists>r. rw (fst (?bs ! i)) = Inr r \<and> selects r) \<longrightarrow>
       rewrite_Fold rw (Fold e b brs ow) = rw (snd (?bs ! i))"
  proof (intro allI impI)
    fix i
    assume i: "i < length ?bs"
    assume h: "(\<forall>j < i. \<exists>r. rw (fst (?bs ! j)) = Inr r \<and> passes_over r) \<and>
       (\<exists>r. rw (fst (?bs ! i)) = Inr r \<and> selects r)"
    from h obtain r where r: "rw (fst (?bs ! i)) = Inr r" "selects r" by blast
    from i have split: "?bs = take i ?bs @ (?bs ! i) # drop (Suc i) ?bs"
      by (rule id_take_nth_drop)
    have "\<forall>j < length (take i ?bs). \<exists>r. rw (fst (take i ?bs ! j)) = Inr r \<and> passes_over r"
      using h i by simp
    then have "fold_branches rw (take i ?bs @ (?bs ! i) # drop (Suc i) ?bs)
             = fold_branches rw ((?bs ! i) # drop (Suc i) ?bs)"
      by (rule fold_branches_skip)
    with split have "fold_branches rw ?bs = fold_branches rw ((?bs ! i) # drop (Suc i) ?bs)"
      by simp
    also have "\<dots> = (case rw (snd (?bs ! i)) of Inl e \<Rightarrow> Inl e | Inr r \<Rightarrow> Inr (Some r))"
      using r by (cases "?bs ! i") (simp add: fold_test_selects)
    finally show "rewrite_Fold rw (Fold e b brs ow) = rw (snd (?bs ! i))"
      by (simp add: rewrite_Fold_def split: sum.splits)
  qed
  have B: "(\<forall>j < length ?bs. \<exists>r. rw (fst (?bs ! j)) = Inr r \<and> passes_over r) \<longrightarrow>
       rewrite_Fold rw (Fold e b brs ow) = (case ow of None \<Rightarrow> Inr Null | Some blk \<Rightarrow> rw blk)"
  proof
    assume "\<forall>j < length ?bs. \<exists>r. rw (fst (?bs ! j)) = Inr r \<and> passes_over r"
    then have "fold_branches rw (?bs @ []) = fold_branches rw []"
      by (rule fold_branches_skip)
    then have "fold_branches rw ?bs = Inr None" by simp
    then show "rewrite_Fold rw (Fold e b brs ow) = (case ow of None \<Rightarrow> Inr Null | Some blk \<Rightarrow> rw blk)"
      by (simp add: rewrite_Fold_def split: option.splits)
  qed
  show ?thesis by (intro conjI A B)
qed

lemmas prefold_eval_defs = rewrite_Fold_def fold_test_def isLiteral_def literal_value_def
  toBigInt_def BigInt_def radix_literal_def is_digit_in_def digit_of_def digits_val_def
  passes_over_def selects_def Null_def

theorem preprocessor_fold_witness:
  "rewrite_Fold Inr
     (Fold (Literal DecimalNumber None ''0'') (Root [FunctionCall ''a'' []])
        [(FunctionCall ''calldatasize'' [], Root [FunctionCall ''b'' []]),
         (Literal BoolLiteral None ''true'', Root [FunctionCall ''c'' []])]
        (Some (Root [FunctionCall ''d'' []])))
     = Inr (Root [FunctionCall ''c'' []])
   \<and> rewrite_Fold Inr
       (Fold (Literal HexNumber None ''0x00'') (Root [FunctionCall ''a'' []]) []
          (Some (Root [FunctionCall ''d'' []])))
     = Inr (Root [FunctionCall ''d'' []])"
proof -
  let ?e = "Literal DecimalNumber None ''0''"
  let ?b = "Root [FunctionCall ''a'' []]"
  let ?brs = "[(FunctionCall ''calldatasize'' [], Root [FunctionCall ''b'' []]),
         (Literal BoolLiteral None ''true'', Root [FunctionCall ''c'' []])]"
  let ?ow = "Some (Root [FunctionCall ''d'' []])"
  have p0: "passes_over ?e" "passes_over (FunctionCall ''calldatasize'' [])"
       "selects (Literal BoolLiteral None ''true'')" "passes_over (Literal HexNumber None ''0x00'')"
    by (simp_all add: prefold_eval_defs)
  have h1: "(\<forall>j < 2. \<exists>r. Inr (fst (((?e, ?b) # ?brs) ! j)) = (Inr r :: error + node) \<and> passes_over r) \<and>
            (\<exists>r. Inr (fst (((?e, ?b) # ?brs) ! 2)) = (Inr r :: error + node) \<and> selects r)"
    using p0 by (simp add: less_Suc_eq numeral_2_eq_2 numeral_3_eq_3)
  from preprocessor_fold [of ?e ?b ?brs Inr ?ow, THEN conjunct1, rule_format, of 2] h1
  have c1: "rewrite_Fold Inr (Fold ?e ?b ?brs ?ow) = Inr (Root [FunctionCall ''c'' []])"
    by simp
  let ?z = "Literal HexNumber None ''0x00''"
  have h2: "\<forall>j < length [(?z, ?b)]. \<exists>r. Inr (fst ([(?z, ?b)] ! j)) = (Inr r :: error + node) \<and> passes_over r"
    using p0 by simp
  from preprocessor_fold [of ?z ?b "[]" Inr ?ow, THEN conjunct2, rule_format] h2
  have c2: "rewrite_Fold Inr (Fold ?z ?b [] ?ow) = Inr (Root [FunctionCall ''d'' []])"
    by simp
  from c1 c2 show ?thesis by (intro conjI)
qed

text \<open>
  The claim as written fails: a condition that does not reduce to a literal raises no
  error.  In \<^verbatim>\<open>@if calldatasize() { stop() }\<close> the rewriting leaves the condition and the
  statement as they are, and the construct is rewritten to the empty \<^verbatim>\<open>Root\<close>.
\<close>

theorem preprocessor_fold_nonliteral_no_error:
  "rewrite_Fold Inr (Fold (FunctionCall ''calldatasize'' []) (Root [FunctionCall ''stop'' []]) [] None)
     = Inr (Root [])"
  by (simp add: prefold_eval_defs)

section \<open>The value of a literal\<close>


lemma digit_of_zero: "digit_of c = Some 0 \<longleftrightarrow> c = CHR ''0''"
proof
  assume a: "digit_of c = Some 0"
  have "of_char c = (48::nat)"
    using a by (auto simp: digit_of_def Let_def split: if_splits)
  then have "(of_char c :: nat) = of_char (CHR ''0'')" by simp
  then show "c = CHR ''0''" by (simp only: of_char_eq_iff)
next
  assume "c = CHR ''0''" then show "digit_of c = Some 0" by (simp add: digit_of_def)
qed

lemma all_zero_val: "all_zero_chars s \<Longrightarrow> digits_val b s = 0"
  by (induction s rule: rev_induct) (auto simp: all_zero_chars_def digits_val_snoc digit_of_def digits_val_def)

lemma all_zero_digits: "all_zero_chars s \<Longrightarrow> 0 < b \<Longrightarrow> list_all (is_digit_in b) s"
  by (induction s) (auto simp: all_zero_chars_def is_digit_in_def digit_of_def)

lemma val_zero_all_zero:
  "list_all (is_digit_in b) s \<Longrightarrow> digits_val b s = 0 \<Longrightarrow> 0 < b \<Longrightarrow> all_zero_chars s"
proof (induction s rule: rev_induct)
  case Nil
  show ?case by (simp add: all_zero_chars_def)
next
  case (snoc c s)
  from snoc.prems(1) have c: "is_digit_in b c" and s: "list_all (is_digit_in b) s" by simp_all
  from c obtain d where d: "digit_of c = Some d"
    by (cases "digit_of c") (simp_all add: is_digit_in_def)
  from snoc.prems(2) d have z: "digits_val b s * b + d = 0" by (simp add: digits_val_snoc)
  then have d0: "d = 0" and v0: "digits_val b s = 0" using snoc.prems(3) by auto
  have "all_zero_chars s" using snoc.IH s v0 snoc.prems(3) by simp
  moreover have "c = CHR ''0''" using d d0 digit_of_zero by simp
  ultimately show ?case by (simp add: all_zero_chars_def)
qed

lemma digit_hd_not_sign:
  "v \<noteq> [] \<Longrightarrow> list_all (is_digit_in 10) v \<Longrightarrow> hd v \<noteq> CHR ''-'' \<and> hd v \<noteq> CHR ''+''"
  by (cases v) (auto simp: is_digit_in_def digit_of_def)

lemma digit_not_radix:
  "list_all (is_digit_in 10) v \<Longrightarrow>
   take 2 v \<noteq> ''0x'' \<and> take 2 v \<noteq> ''0X'' \<and> take 2 v \<noteq> ''0o'' \<and> take 2 v \<noteq> ''0O'' \<and> take 2 v \<noteq> ''0b'' \<and> take 2 v \<noteq> ''0B''"
proof (cases v)
  case Nil then show ?thesis by simp
next
  case (Cons a w)
  assume l: "list_all (is_digit_in 10) v"
  show ?thesis
  proof (cases w)
    case Nil then show ?thesis using Cons by simp
  next
    case (Cons b u)
    have "is_digit_in 10 b" using l \<open>v = a # w\<close> Cons by simp
    then have "b \<noteq> CHR ''x'' \<and> b \<noteq> CHR ''X'' \<and> b \<noteq> CHR ''o'' \<and> b \<noteq> CHR ''O'' \<and> b \<noteq> CHR ''b'' \<and> b \<noteq> CHR ''B''"
      by (auto simp: is_digit_in_def digit_of_def)
    then show ?thesis using \<open>v = a # w\<close> Cons by simp
  qed
qed

lemma wf_literal_value:
  assumes "wf_literal st k v" and "isLiteral (Literal st k v)"
  shows "toBigInt v = Some (lit_val st v) \<and> 0 \<le> lit_val st v \<and> lit_val st v \<le> U256_MAX"
proof -
  consider (h) "st = HexNumber" | (d) "st = DecimalNumber" | (b) "st = BoolLiteral"
    using assms(2) by (auto simp: isLiteral_def)
  then show ?thesis
  proof cases
    case h
    then have p: "take 2 v = ''0x''" "drop 2 v \<noteq> []" "list_all (is_digit_in 16) (drop 2 v)"
        "int (digits_val 16 (drop 2 v)) \<le> U256_MAX"
      using assms(1) by (simp_all add: wf_literal_def)
    have "v \<noteq> ''false''" "v \<noteq> ''true''" "v \<noteq> []" using p(1) by auto
    then have "toBigInt v = radix_literal 16 (drop 2 v)"
      using p(1) by (simp add: toBigInt_def BigInt_def)
    then show ?thesis using p h by (simp add: radix_literal_def lit_val_def)
  next
    case d
    then have p: "v \<noteq> []" "list_all (is_digit_in 10) v" "int (digits_val 10 v) \<le> U256_MAX"
      using assms(1) by (simp_all add: wf_literal_def)
    have nb: "v \<noteq> ''false''" "v \<noteq> ''true''"
      using p(2) by (auto simp: is_digit_in_def digit_of_def)
    have "toBigInt v = radix_literal 10 v"
      using p(1) nb digit_hd_not_sign [OF p(1) p(2)] digit_not_radix [OF p(2)]
      by (simp add: toBigInt_def BigInt_def)
    then show ?thesis using p d by (simp add: radix_literal_def lit_val_def)
  next
    case b
    then have "v = ''true'' \<or> v = ''false''" using assms(1) by (simp add: wf_literal_def)
    then show ?thesis using b by (auto simp: toBigInt_def lit_val_def U256_MAX_def)
  qed
qed

lemma wf_isZero:
  assumes "wf_literal st k v" and "isLiteral (Literal st k v)"
  shows "isZero (Literal st k v) \<longleftrightarrow> lit_val st v = 0"
proof -
  consider (h) "st = HexNumber" | (d) "st = DecimalNumber" | (b) "st = BoolLiteral"
    using assms(2) by (auto simp: isLiteral_def)
  then show ?thesis
  proof cases
    case h
    then have p: "take 2 v = ''0x''" "drop 2 v \<noteq> []" "list_all (is_digit_in 16) (drop 2 v)"
      using assms(1) by (simp_all add: wf_literal_def)
    show ?thesis using h p all_zero_val [of "drop 2 v" 16] val_zero_all_zero [of 16 "drop 2 v"]
      by (auto simp: isZero_def lit_val_def)
  next
    case d
    then have p: "v \<noteq> []" "list_all (is_digit_in 10) v"
      using assms(1) by (simp_all add: wf_literal_def)
    show ?thesis using d p all_zero_val [of v 10] val_zero_all_zero [of 10 v]
      by (auto simp: isZero_def lit_val_def)
  next
    case b
    then have "v = ''true'' \<or> v = ''false''" using assms(1) by (simp add: wf_literal_def)
    then show ?thesis using b by (auto simp: isZero_def lit_val_def)
  qed
qed


lemma in_range_take_bit: "in_range x \<longleftrightarrow> take_bit 256 x = x"
  by (simp only: in_range_def U256_MAX_mask take_bit_int_eq_self_iff mask_eq_exp_minus_1) auto

lemma uint_in_range: "in_range x \<Longrightarrow> uint (word_of_int x :: 256 word) = x"
  by (simp add: in_range_take_bit uint_word_of_int_eq)

lemma unat_in_range: "in_range x \<Longrightarrow> unat (word_of_int x :: 256 word) = nat x"
  by (simp add: unat_eq_nat_uint uint_in_range)

lemma in_range_uint: "in_range (uint (w :: 256 word))"
  using uint_nonnegative [of w] uint_bounded [of w]
  by (simp only: in_range_take_bit take_bit_int_eq_self_iff) simp

lemma in_range_inj: "in_range x \<Longrightarrow> in_range y \<Longrightarrow> (word_of_int x :: 256 word) = word_of_int y \<longleftrightarrow> x = y"
  by (metis uint_in_range)

lemma in_range_zero: "in_range x \<Longrightarrow> (word_of_int x :: 256 word) = 0 \<longleftrightarrow> x = 0"
  by (metis uint_in_range uint_0_eq word_of_int_0)

lemma in_range_nonneg: "in_range x \<Longrightarrow> 0 \<le> x"
  by (simp add: in_range_def)

lemma I256_SIGN_pow: "I256_SIGN = 2 ^ 255"
  by (simp only: I256_SIGN_def push_bit_of_1)

lemma to_signed_sint: 
  assumes "in_range x"
  shows "to_signed x = sint (word_of_int x :: 256 word)"
proof -
  have t: "take_bit 256 x = x" using assms by (simp only: in_range_take_bit)
  have s: "sint (word_of_int x :: 256 word) = signed_take_bit 255 x"
    by (simp add: sint_sbintrunc')
  have e: "signed_take_bit 255 x = take_bit (Suc 255) x - 2 ^ Suc 255 * of_bool (bit x 255)"
    by (rule signed_take_bit_eq_take_bit_minus)
  have b: "x AND I256_SIGN \<noteq> 0 \<longleftrightarrow> bit x 255"
    by (simp only: I256_SIGN_pow and_exp_eq_0_iff_not_bit) simp
  show ?thesis
  proof (cases "bit x 255")
    case False
    then show ?thesis using b s e t by (simp add: to_signed_def)
  next
    case True
    have "x \<noteq> 0" using True by auto
    then have pos: "0 < x" using assms by (simp add: in_range_def)
    have lt: "x < 2 ^ 256" using t by (simp only: take_bit_int_eq_self_iff)
    have "(- x) AND U256_MAX = take_bit 256 (- x)"
      by (simp only: U256_MAX_mask take_bit_eq_mask)
    also have "\<dots> = (- x) mod 2 ^ 256" by (simp only: take_bit_eq_mod)
    also have "\<dots> = (2 ^ 256 - x) mod 2 ^ 256" by (rule twos_complement_mod)
    also have "\<dots> = 2 ^ 256 - x" using pos lt by (intro mod_pos_pos_trivial) simp_all
    finally have "(- x) AND U256_MAX = 2 ^ 256 - x" .
    then have "to_signed x = x - 2 ^ 256" using True b by (simp add: to_signed_def)
    moreover have "signed_take_bit 255 x = x - 2 ^ 256" using e t True by simp
    ultimately show ?thesis using s by simp
  qed
qed

lemma isZero_isLiteral: "isZero n \<Longrightarrow> isLiteral n"
  by (cases n) (auto simp: isZero_def isLiteral_def split: if_splits)

lemma isOne_isLiteral: "isOne n \<Longrightarrow> isLiteral n"
  by (cases n) (auto simp: isOne_def isLiteral_def split: if_splits)

lemma digits_val_one:
  assumes "s \<noteq> []" and "last s = CHR ''1''" and "all_zero_chars (butlast s)"
  shows "digits_val b s = 1"
proof -
  have "s = butlast s @ [CHR ''1'']" using assms(1,2) by (metis append_butlast_last_id)
  then have "digits_val b s = digits_val b (butlast s @ [CHR ''1''])" by simp
  also have "\<dots> = 1" using all_zero_val [OF assms(3), of b]
    by (simp only: digits_val_snoc) (simp add: digit_of_def)
  finally show ?thesis .
qed

lemma wf_isOne:
  assumes "wf_literal st k v" and "isOne (Literal st k v)"
  shows "lit_val st v = 1"
proof -
  consider (h) "st = HexNumber" | (d) "st = DecimalNumber" | (b) "st = BoolLiteral"
    using isOne_isLiteral [OF assms(2)] by (auto simp: isLiteral_def)
  then show ?thesis
  proof cases
    case h
    then have p: "drop 2 v \<noteq> []" "last v = CHR ''1''" "all_zero_chars (butlast (drop 2 v))"
      using assms(2) by (simp_all add: isOne_def)
    have "last (drop 2 v) = last v" using p(1) by (simp add: last_drop)
    then show ?thesis using h p digits_val_one [of "drop 2 v" 16] by (simp add: lit_val_def)
  next
    case d
    then have p: "v \<noteq> []" "last v = CHR ''1''" "all_zero_chars (butlast v)"
      using assms(2) by (simp_all add: isOne_def)
    then show ?thesis using d digits_val_one [of v 10] by (simp add: lit_val_def)
  next
    case b
    then show ?thesis using assms(2) by (simp add: isOne_def lit_val_def)
  qed
qed

text \<open>The facts about a well-formed literal among the arguments.\<close>

lemma literal_facts:
  assumes "wf n" and "isLiteral n"
  shows "toBigInt (literal_value n) = Some (nval n)" and "in_range (nval n)"
    and "eval env n = word_of_int (nval n)" and "isZero n \<longleftrightarrow> nval n = 0"
    and "isOne n \<Longrightarrow> nval n = 1"
proof -
  from assms(2) obtain st k v where n: "n = Literal st k v"
    by (cases n) (simp_all add: isLiteral_def)
  have w: "wf_literal st k v" using assms(1) n by simp
  have l: "isLiteral (Literal st k v)" using assms(2) n by simp
  note f = wf_literal_value [OF w l]
  show "toBigInt (literal_value n) = Some (nval n)"
    using f n by (simp add: literal_value_def nval_def)
  show "in_range (nval n)" using f n by (simp add: in_range_def nval_def)
  show "eval env n = word_of_int (nval n)" using f l n by (simp add: nval_def)
  show "isZero n \<longleftrightarrow> nval n = 0" using wf_isZero [OF w l] n by (simp add: nval_def)
  show "isOne n \<Longrightarrow> nval n = 1" using wf_isOne [OF w] n by (simp add: nval_def)
qed

lemma isZero_eval: "wf n \<Longrightarrow> isZero n \<Longrightarrow> eval env n = 0"
  using literal_facts(3) [of n env] literal_facts(4) [of n] isZero_isLiteral [of n] by simp

lemma isOne_eval: "wf n \<Longrightarrow> isOne n \<Longrightarrow> eval env n = 1"
  using literal_facts(3) [of n env] literal_facts(5) [of n] isOne_isLiteral [of n] by simp

text \<open>The literals that \<^verbatim>\<open>Literal(value)\<close> writes.\<close>

lemma digits_val_Cons0: "digits_val b (CHR ''0'' # s) = digits_val b s"
  by (simp add: digits_val_def digit_of_def)

lemma toBigInt_decimal_toString:
  assumes "0 \<le> n"
  shows "toBigInt (toString 10 n) = Some n"
proof -
  let ?s = "nat_toString 10 (nat n)"
  have d: "list_all (is_digit_in 10) ?s" by (simp add: nat_toString_digits)
  have ne: "?s \<noteq> []" by (rule nat_toString_nonempty)
  have nb: "?s \<noteq> ''false''" "?s \<noteq> ''true''"
    using d by (auto simp: is_digit_in_def digit_of_def)
  have "toBigInt ?s = radix_literal 10 ?s"
    using ne nb digit_hd_not_sign [OF ne d] digit_not_radix [OF d]
    by (simp add: toBigInt_def BigInt_def)
  then show ?thesis using assms d ne by (simp add: radix_literal_def toString_def nat_toString_val)
qed

lemma toBigInt_hex_padded:
  assumes "0 \<le> n"
  shows "toBigInt (''0x'' @ CHR ''0'' # toString 16 n) = Some n"
proof -
  let ?s = "nat_toString 16 (nat n)"
  have d: "list_all (is_digit_in 16) ?s" by (simp add: nat_toString_digits)
  have z: "is_digit_in 16 (CHR ''0'')" by (simp add: is_digit_in_def digit_of_def)
  show ?thesis using assms d z
    by (simp add: toBigInt_def BigInt_def radix_literal_def toString_def nat_toString_val digits_val_Cons0)
qed

lemma eval_Literal_bigint: "eval env (Literal_bigint v) = (word_of_int v :: 256 word)"
proof -
  let ?num = "v AND U256_MAX"
  have nn: "0 \<le> ?num" by (simp only: and_U256_MAX) simp
  have w: "(word_of_int ?num :: 256 word) = word_of_int v"
    by (simp only: U256_MAX_mask take_bit_eq_mask [symmetric]) (simp add: word_of_int_eq_iff)
  have "eval env (Literal_bigint v) = (word_of_int ?num :: 256 word)"
    using toBigInt_decimal_toString [OF nn] toBigInt_hex_toString [OF nn] toBigInt_hex_padded [OF nn]
    by (simp add: Literal_bigint_def Let_def isLiteral_def)
  then show ?thesis using w by simp
qed

lemma eval_Literal_number_0: "eval env (Literal_number 0) = 0"
  by (simp add: Literal_number_def toString_def nat_toString.simps digit_char_def isLiteral_def
      toBigInt_def BigInt_def radix_literal_def is_digit_in_def digit_of_def digits_val_def)

lemma eval_Literal_number_1: "eval env (Literal_number 1) = 1"
  by (simp add: Literal_number_def toString_def nat_toString.simps digit_char_def isLiteral_def
      toBigInt_def BigInt_def radix_literal_def is_digit_in_def digit_of_def digits_val_def)

lemma eval_Literal_bool: "eval env (Literal_bool b) = evm_bool b"
  using eval_Literal_number_0 eval_Literal_number_1 by (simp add: Literal_bool_def evm_bool_def)

section \<open>The arithmetic of \<^verbatim>\<open>BigInt\<close> and of the EVM\<close>

lemma word_less_in_range:
  "in_range x \<Longrightarrow> in_range y \<Longrightarrow> (word_of_int x :: 256 word) < word_of_int y \<longleftrightarrow> x < y"
  by (simp add: word_less_def uint_in_range)

lemma word_div_in_range:
  assumes "in_range x" and "in_range y"
  shows "(word_of_int (x sdiv y) :: 256 word) = word_of_int x div word_of_int y"
proof -
  have "0 \<le> x" "0 \<le> y" using assms by (simp_all add: in_range_def)
  then have "x sdiv y = x div y"
    by (cases "x = 0"; cases "y = 0") (simp_all add: signed_divide_int_def sgn_if)
  then show ?thesis using assms by (simp add: word_div_def uint_in_range)
qed

lemma word_mod_in_range:
  assumes "in_range x" and "in_range y"
  shows "(word_of_int (x smod y) :: 256 word) = word_of_int x mod word_of_int y"
proof -
  have "0 \<le> x" "0 \<le> y" using assms by (simp_all add: in_range_def)
  then have "x smod y = x mod y"
    by (cases "x = 0") (simp_all add: signed_modulo_int_def sgn_if)
  then show ?thesis using assms by (simp add: word_mod_def uint_in_range)
qed

lemma smod_nonneg: "0 \<le> k \<Longrightarrow> 0 \<le> l \<Longrightarrow> k smod l = k mod (l::int)"
  by (cases "k = 0") (simp_all add: signed_modulo_int_def sgn_if)

lemma mod_nonneg: "0 \<le> k \<Longrightarrow> 0 \<le> l \<Longrightarrow> 0 \<le> k mod (l::int)"
  by (cases "l = 0") simp_all

lemma word_exp_in_range:
  "in_range y \<Longrightarrow> (word_of_int (x ^ nat y) :: 256 word) = word_of_int x ^ unat (word_of_int y :: 256 word)"
  by (simp only: unat_in_range word_of_int_power_hom)

lemma word_mod_nat:
  assumes "0 \<le> k" and "in_range m"
  shows "(word_of_int (k smod m) :: 256 word) = word_of_nat (nat k mod unat (word_of_int m :: 256 word))"
proof -
  have m: "0 \<le> m" using assms(2) by (simp add: in_range_def)
  have "nat k mod nat m = nat (k mod m)" using assms(1) m by (simp add: nat_mod_distrib)
  then have "(word_of_nat (nat k mod nat m) :: 256 word) = word_of_int (k mod m)"
    using mod_nonneg [OF assms(1) m] by (simp only: word_of_int_nat)
  then show ?thesis using smod_nonneg [OF assms(1) m] assms(2) by (simp only: unat_in_range)
qed

lemma word_addmod_in_range:
  assumes "in_range x" and "in_range y" and "in_range m"
  shows "(word_of_int ((x + y) smod m) :: 256 word)
         = word_of_nat ((unat (word_of_int x :: 256 word) + unat (word_of_int y :: 256 word))
                        mod unat (word_of_int m :: 256 word))"
proof -
  have nn: "0 \<le> x" "0 \<le> y" using assms by (simp_all add: in_range_def)
  then have "0 \<le> x + y" and "nat (x + y) = nat x + nat y" by (simp_all add: nat_add_distrib)
  then show ?thesis using word_mod_nat [of "x + y" m] assms by (simp only: unat_in_range)
qed

lemma word_mulmod_in_range:
  assumes "in_range x" and "in_range y" and "in_range m"
  shows "(word_of_int ((x * y) smod m) :: 256 word)
         = word_of_nat ((unat (word_of_int x :: 256 word) * unat (word_of_int y :: 256 word))
                        mod unat (word_of_int m :: 256 word))"
proof -
  have nn: "0 \<le> x" "0 \<le> y" using assms by (simp_all add: in_range_def)
  then have "0 \<le> x * y" and "nat (x * y) = nat x * nat y" by (simp_all add: nat_mult_distrib)
  then show ?thesis using word_mod_nat [of "x * y" m] assms by (simp only: unat_in_range)
qed

lemma word_not_U256: "(word_of_int (x XOR U256_MAX) :: 256 word) = NOT (word_of_int x)"
  by (rule bit_word_eqI) (auto simp: U256_MAX_mask bit_simps)

lemma word_shl_in_range:
  assumes "in_range s"
  shows "(word_of_int (bigint_shl num s) :: 256 word)
         = (if 256 \<le> unat (word_of_int s :: 256 word) then 0
            else push_bit (unat (word_of_int s :: 256 word)) (word_of_int num))"
proof -
  have "0 \<le> s" using assms by (simp add: in_range_def)
  then have "(word_of_int (bigint_shl num s) :: 256 word) = push_bit (nat s) (word_of_int num)"
    by (simp add: bigint_shl_def of_int_push_bit)
  then show ?thesis using assms by (simp add: unat_in_range)
qed

lemma in_range_bit: "in_range x \<Longrightarrow> bit x j \<Longrightarrow> j < 256"
  by (metis bit_take_bit_iff in_range_take_bit)

lemma word_shr_in_range:
  assumes "in_range s" and "in_range num"
  shows "(word_of_int (bigint_shr num s) :: 256 word)
         = (if 256 \<le> unat (word_of_int s :: 256 word) then 0
            else drop_bit (unat (word_of_int s :: 256 word)) (word_of_int num))"
proof -
  have "0 \<le> s" using assms by (simp add: in_range_def)
  have "(word_of_int (drop_bit (nat s) num) :: 256 word) = drop_bit (nat s) (word_of_int num)"
    by (rule bit_word_eqI) (auto simp: bit_simps dest: in_range_bit [OF assms(2)])
  then have "(word_of_int (bigint_shr num s) :: 256 word) = drop_bit (nat s) (word_of_int num)"
    using \<open>0 \<le> s\<close> by (simp add: bigint_shr_def)
  then show ?thesis using assms by (simp add: unat_in_range)
qed

lemma word_of_int_sint: "word_of_int (sint w) = (w :: 256 word)"
  by (metis scast_eq scast_id)

lemma word_sar_in_range:
  assumes "in_range s" and "in_range num"
  shows "(word_of_int (bigint_shr (to_signed num) s) :: 256 word)
         = (if 256 \<le> unat (word_of_int s :: 256 word)
            then (if sint (word_of_int num :: 256 word) < 0 then - 1 else 0)
            else signed_drop_bit (unat (word_of_int s :: 256 word)) (word_of_int num))"
proof -
  let ?w = "word_of_int num :: 256 word"
  have s0: "0 \<le> s" using assms by (simp add: in_range_def)
  have e: "bigint_shr (to_signed num) s = drop_bit (nat s) (sint ?w)"
    using s0 to_signed_sint [OF assms(2)] by (simp add: bigint_shr_def)
  have "sint (signed_drop_bit (nat s) ?w) = drop_bit (nat s) (sint ?w)"
    by (rule sint_signed_drop_bit_eq)
  then have d: "(word_of_int (bigint_shr (to_signed num) s) :: 256 word) = signed_drop_bit (nat s) ?w"
    using e word_of_int_sint [of "signed_drop_bit (nat s) ?w"] by simp
  show ?thesis
  proof (cases "256 \<le> nat s")
    case True
    have "signed_drop_bit (nat s) ?w = (if bit ?w (LENGTH(256) - Suc 0) then - 1 else 0)"
      using True by (intro signed_drop_bit_beyond) simp
    also have "\<dots> = (if sint ?w < 0 then - 1 else 0)"
      by (simp only: bit_last_iff)
    finally show ?thesis using d True assms(1) by (simp only: unat_in_range if_True)
  next
    case False
    then show ?thesis using d assms(1) by (simp only: unat_in_range if_False)
  qed
qed

lemma word_drop_bit_in_range:
  "in_range num \<Longrightarrow> (word_of_int (drop_bit k num) :: 256 word) = drop_bit k (word_of_int num)"
  by (rule bit_word_eqI) (auto simp: bit_simps dest: in_range_bit)

lemma signed_take_bit_255: "signed_take_bit 255 (w :: 256 word) = w"
proof (rule bit_word_eqI)
  fix n
  assume n: "n < LENGTH(256)"
  then have "min 255 n = n" by simp
  then show "bit (signed_take_bit 255 w) n \<longleftrightarrow> bit w n" using n by (simp add: bit_simps)
qed

lemma word_signextend:
  assumes "in_range x" and "n \<le> 255"
  shows "(word_of_int (if x AND push_bit n 1 \<noteq> 0 then x OR ((push_bit n 1 - 1) XOR U256_MAX)
                       else x AND (push_bit n 1 - 1)) :: 256 word)
         = signed_take_bit n (word_of_int x)"
proof -
  have m: "push_bit n 1 - 1 = (mask n :: int)" by (simp add: mask_eq_exp_minus_1 push_bit_of_1)
  have b: "x AND push_bit n 1 \<noteq> 0 \<longleftrightarrow> bit x n"
    by (simp only: push_bit_of_1 and_exp_eq_0_iff_not_bit) simp
  show ?thesis
  proof (cases "bit x n")
    case True
    have "(word_of_int (x OR (mask n XOR mask 256)) :: 256 word) = signed_take_bit n (word_of_int x)"
      using True assms(2) by (intro bit_word_eqI) (auto simp: bit_simps min_def not_less)
    then show ?thesis using True b by (simp only: m U256_MAX_mask if_True)
  next
    case False
    have "(word_of_int (x AND mask n) :: 256 word) = signed_take_bit n (word_of_int x)"
      using False assms(2) by (intro bit_word_eqI) (auto simp: bit_simps min_def not_less)
    then show ?thesis using False b by (simp only: m if_False)
  qed
qed

lemma word_signextend_in_range:
  assumes "in_range b" and "in_range x"
  shows "(word_of_int (if b > 31 then x
                       else (let bit = b * 8 + 7; mask = bigint_shl 1 bit - 1
                             in if x AND bigint_shl 1 bit \<noteq> 0 then x OR (mask XOR U256_MAX)
                                else x AND mask)) :: 256 word)
         = (if 31 \<le> unat (word_of_int b :: 256 word) then word_of_int x
            else signed_take_bit (8 * unat (word_of_int b :: 256 word) + 7) (word_of_int x))"
proof -
  have b0: "0 \<le> b" using assms(1) by (simp add: in_range_def)
  show ?thesis
  proof (cases "b > 31")
    case True
    then have "31 \<le> nat b" by simp
    then show ?thesis using True assms(1) by (simp add: unat_in_range)
  next
    case False
    define n where "n = 8 * nat b + 7"
    have n: "n \<le> 255" using False b0 by (simp add: n_def)
    have sh: "bigint_shl 1 (b * 8 + 7) = push_bit n 1"
      using b0 by (simp add: bigint_shl_def n_def nat_add_distrib nat_mult_distrib)
    have js: "(word_of_int (let bit = b * 8 + 7; mask = bigint_shl 1 bit - 1
                             in if x AND bigint_shl 1 bit \<noteq> 0 then x OR (mask XOR U256_MAX)
                                else x AND mask) :: 256 word) = signed_take_bit n (word_of_int x)"
      using word_signextend [OF assms(2) n] by (simp only: Let_def sh)
    show ?thesis
    proof (cases "b = 31")
      case True
      then have "n = 255" by (simp add: n_def)
      then show ?thesis using js True assms(1) signed_take_bit_255 [of "word_of_int x"]
        by (simp add: unat_in_range)
    next
      case F: False
      then have "\<not> 31 \<le> nat b" using False by simp
      then show ?thesis using js False assms(1) by (simp add: unat_in_range n_def)
    qed
  qed
qed

lemma word_byte_in_range:
  assumes "in_range pos" and "in_range num" and "\<not> pos > 31"
  shows "(word_of_int (bigint_shr num (bigint_shl (31 - pos) 3) AND 255) :: 256 word)
         = (if 32 \<le> unat (word_of_int pos :: 256 word) then 0
            else drop_bit (8 * (31 - unat (word_of_int pos :: 256 word))) (word_of_int num) AND 255)"
proof -
  have p0: "0 \<le> pos" using assms(1) by (simp add: in_range_def)
  have sh: "bigint_shl (31 - pos) 3 = (31 - pos) * 8" by (simp add: bigint_shl_def push_bit_eq_mult)
  have k: "nat ((31 - pos) * 8) = 8 * (31 - nat pos)" using p0 assms(3) by simp
  have "bigint_shr num (bigint_shl (31 - pos) 3) = drop_bit (8 * (31 - nat pos)) num"
    using assms(3) k by (simp add: sh bigint_shr_def)
  then have "(word_of_int (bigint_shr num (bigint_shl (31 - pos) 3) AND 255) :: 256 word)
             = drop_bit (8 * (31 - nat pos)) (word_of_int num) AND 255"
    using word_drop_bit_in_range [OF assms(2)] by (simp add: of_int_and_eq)
  then show ?thesis using assms(1,3) p0 by (simp add: unat_in_range)
qed

lemma word_sless_in_range:
  "in_range x \<Longrightarrow> in_range y \<Longrightarrow>
   to_signed x < to_signed y \<longleftrightarrow> sint (word_of_int x :: 256 word) < sint (word_of_int y :: 256 word)"
  by (simp only: to_signed_sint)

text \<open>The rewrites of \<^verbatim>\<open>iszero(lt(x, n))\<close> and \<^verbatim>\<open>iszero(gt(x, n))\<close>.\<close>

lemma in_range_pred: "in_range n \<Longrightarrow> n \<noteq> 0 \<Longrightarrow> in_range (n - 1)"
  by (simp add: in_range_def)

lemma in_range_succ: "in_range n \<Longrightarrow> n \<noteq> U256_MAX \<Longrightarrow> in_range (n + 1)"
  by (simp only: in_range_def) arith

lemma word_not_less_pred:
  assumes "in_range n" and "n \<noteq> 0"
  shows "\<not> (w :: 256 word) < word_of_int n \<longleftrightarrow> word_of_int (n - 1) < w"
proof -
  have "uint (word_of_int (n - 1) :: 256 word) = n - 1"
    using in_range_pred [OF assms] by (rule uint_in_range)
  then show ?thesis using uint_in_range [OF assms(1)] by (simp add: word_less_def) arith
qed

lemma word_not_greater_succ:
  assumes "in_range n" and "n \<noteq> U256_MAX"
  shows "\<not> word_of_int n < (w :: 256 word) \<longleftrightarrow> w < word_of_int (n + 1)"
proof -
  have "uint (word_of_int (n + 1) :: 256 word) = n + 1"
    using in_range_succ [OF assms] by (rule uint_in_range)
  then show ?thesis using uint_in_range [OF assms(1)] by (simp add: word_less_def) arith
qed

lemma word_less_zero: "\<not> (w :: 256 word) < word_of_int 0"
  by simp

lemma word_greater_max: "\<not> word_of_int U256_MAX < (w :: 256 word)"
proof -
  have "(word_of_int U256_MAX :: 256 word) = - 1"
    unfolding U256_MAX_mask of_int_mask_eq by (rule bit_word_eqI) (simp add: bit_simps)
  then show ?thesis by (simp add: not_less)
qed

section \<open>opcodes\<close>

lemma evm_op_2:
  "evm_op ''add'' [x, y] = Some (x + y)"
  "evm_op ''sub'' [x, y] = Some (x - y)"
  "evm_op ''mul'' [x, y] = Some (x * y)"
  "evm_op ''div'' [x, y] = Some (if y = 0 then 0 else x div y)"
  "evm_op ''sdiv'' [x, y] = Some (if y = 0 then 0 else word_of_int (sint x sdiv sint y))"
  "evm_op ''mod'' [x, y] = Some (if y = 0 then 0 else x mod y)"
  "evm_op ''smod'' [x, y] = Some (if y = 0 then 0 else word_of_int (sint x smod sint y))"
  "evm_op ''exp'' [x, y] = Some (x ^ unat y)"
  "evm_op ''and'' [x, y] = Some (x AND y)"
  "evm_op ''or'' [x, y] = Some (x OR y)"
  "evm_op ''xor'' [x, y] = Some (x XOR y)"
  "evm_op ''shl'' [x, y] = Some (if 256 \<le> unat x then 0 else push_bit (unat x) y)"
  "evm_op ''shr'' [x, y] = Some (if 256 \<le> unat x then 0 else drop_bit (unat x) y)"
  "evm_op ''sar'' [x, y] = Some (if 256 \<le> unat x then (if sint y < 0 then - 1 else 0) else signed_drop_bit (unat x) y)"
  "evm_op ''signextend'' [x, y] = Some (if 31 \<le> unat x then y else signed_take_bit (8 * unat x + 7) y)"
  "evm_op ''byte'' [x, y] = Some (if 32 \<le> unat x then 0 else drop_bit (8 * (31 - unat x)) y AND 255)"
  "evm_op ''eq'' [x, y] = Some (evm_bool (x = y))"
  "evm_op ''lt'' [x, y] = Some (evm_bool (x < y))"
  "evm_op ''gt'' [x, y] = Some (evm_bool (y < x))"
  "evm_op ''slt'' [x, y] = Some (evm_bool (sint x < sint y))"
  "evm_op ''sgt'' [x, y] = Some (evm_bool (sint y < sint x))"
  by (simp_all add: evm_op_def)

lemma evm_op_1:
  "evm_op ''not'' [x] = Some (NOT x)"
  "evm_op ''iszero'' [x] = Some (evm_bool (x = 0))"
  by (simp_all add: evm_op_def)

lemma evm_op_3:
  "evm_op ''addmod'' [x, y, m] = Some (if m = 0 then 0 else word_of_nat ((unat x + unat y) mod unat m))"
  "evm_op ''mulmod'' [x, y, m] = Some (if m = 0 then 0 else word_of_nat ((unat x * unat y) mod unat m))"
  by (simp_all add: evm_op_def)

section \<open>The cases of \<^verbatim>\<open>fold\<close>\<close>

lemma args1:
  assumes "(case args of [a0] \<Rightarrow> f a0 | _ \<Rightarrow> Inr None) = Inr (Some r)"
  obtains a0 where "args = [a0]" and "f a0 = Inr (Some r)"
  using assms by (auto split: list.splits)

lemma args2:
  assumes "(case args of [a0, a1] \<Rightarrow> f a0 a1 | _ \<Rightarrow> Inr None) = Inr (Some r)"
  obtains a0 a1 where "args = [a0, a1]" and "f a0 a1 = Inr (Some r)"
  using assms by (auto split: list.splits)

lemma args3:
  assumes "(case args of [a0, a1, a2] \<Rightarrow> f a0 a1 a2 | _ \<Rightarrow> Inr None) = Inr (Some r)"
  obtains a0 a1 a2 where "args = [a0, a1, a2]" and "f a0 a1 a2 = Inr (Some r)"
  using assms by (auto split: list.splits)

lemma with_values2D:
  assumes "with_values2 a0 a1 f = Inr (Some r)" and "wf a0" and "wf a1"
  shows "isLiteral a0 \<and> isLiteral a1 \<and> f (nval a0) (nval a1) = Inr (Some r)"
proof -
  have l: "isLiteral a0" "isLiteral a1"
    using assms(1) by (auto simp: with_values2_def isLiterals_def split: if_splits)
  then show ?thesis
    using assms(1) literal_facts(1) [OF assms(2) l(1)] literal_facts(1) [OF assms(3) l(2)]
    by (simp add: with_values2_def isLiterals_def)
qed

lemma with_values3D:
  assumes "with_values3 a0 a1 a2 f = Inr (Some r)" and "wf a0" and "wf a1" and "wf a2"
  shows "isLiteral a0 \<and> isLiteral a1 \<and> isLiteral a2 \<and> f (nval a0) (nval a1) (nval a2) = Inr (Some r)"
proof -
  have l: "isLiteral a0" "isLiteral a1" "isLiteral a2"
    using assms(1) by (auto simp: with_values3_def isLiterals_def split: if_splits)
  then show ?thesis
    using assms(1) literal_facts(1) [OF assms(2) l(1)] literal_facts(1) [OF assms(3) l(2)]
      literal_facts(1) [OF assms(4) l(3)]
    by (simp add: with_values3_def isLiterals_def)
qed

lemma litD: "lit v = Inr (Some r) \<Longrightarrow> eval env r = (word_of_int v :: 256 word)"
  by (auto simp: lit_def eval_Literal_bigint)

lemma eval_call2:
  "evm_op name [eval env a0, eval env a1] = Some v \<Longrightarrow> eval env (FunctionCall name [a0, a1]) = v"
  by simp

lemma eval_call1:
  "evm_op name [eval env a0] = Some v \<Longrightarrow> eval env (FunctionCall name [a0]) = v"
  by simp

lemma eval_call3:
  "evm_op name [eval env a0, eval env a1, eval env a2] = Some v \<Longrightarrow>
   eval env (FunctionCall name [a0, a1, a2]) = v"
  by simp

lemma fold_add_sound:
  assumes "fold_add args = Inr (Some r)" and "list_all wf args"
  shows "eval env r = eval env (FunctionCall ''add'' args)"
proof -
  obtain a0 a1 where a: "args = [a0, a1]"
    and f: "(if isZero a0 then Inr (Some a1) else if isZero a1 then Inr (Some a0)
             else with_values2 a0 a1 (\<lambda>x y. lit (x + y))) = Inr (Some r)"
    using assms(1) unfolding fold_add_def by (rule args2)
  have w: "wf a0" "wf a1" using assms(2) a by simp_all
  have e: "eval env (FunctionCall ''add'' args) = eval env a0 + eval env a1"
    unfolding a by (rule eval_call2) (rule evm_op_2)
  consider (z0) "isZero a0" | (z1) "\<not> isZero a0" "isZero a1" | (l) "\<not> isZero a0" "\<not> isZero a1"
    by blast
  then show ?thesis
  proof cases
    case z0
    then show ?thesis using f e isZero_eval [OF w(1) z0] by simp
  next
    case z1
    then show ?thesis using f e isZero_eval [OF w(2) z1(2)] by simp
  next
    case l
    then have "with_values2 a0 a1 (\<lambda>x y. lit (x + y)) = Inr (Some r)" using f by simp
    from with_values2D [OF this w] have l0: "isLiteral a0" and l1: "isLiteral a1"
      and v: "lit (nval a0 + nval a1) = Inr (Some r)" by simp_all
    show ?thesis
      using litD [OF v] e literal_facts(3) [OF w(1) l0] literal_facts(3) [OF w(2) l1] by simp
  qed
qed

lemma with_values2E:
  assumes "with_values2 a0 a1 f = Inr (Some r)" and "wf a0" and "wf a1"
  obtains x y where "in_range x" and "in_range y"
    and "eval env a0 = word_of_int x" and "eval env a1 = word_of_int y"
    and "isZero a0 \<longleftrightarrow> x = 0" and "isZero a1 \<longleftrightarrow> y = 0"
    and "f x y = Inr (Some r)"
proof -
  from with_values2D [OF assms] have l: "isLiteral a0" "isLiteral a1"
    and f: "f (nval a0) (nval a1) = Inr (Some r)" by simp_all
  show thesis
    using that [of "nval a0" "nval a1"] f
      literal_facts(2-4) [OF assms(2) l(1)] literal_facts(2-4) [OF assms(3) l(2)]
    by blast
qed

lemma with_values3E:
  assumes "with_values3 a0 a1 a2 f = Inr (Some r)" and "wf a0" and "wf a1" and "wf a2"
  obtains x y m where "in_range x" and "in_range y" and "in_range m"
    and "eval env a0 = word_of_int x" and "eval env a1 = word_of_int y"
    and "eval env a2 = word_of_int m"
    and "f x y m = Inr (Some r)"
proof -
  from with_values3D [OF assms] have l: "isLiteral a0" "isLiteral a1" "isLiteral a2"
    and f: "f (nval a0) (nval a1) (nval a2) = Inr (Some r)" by simp_all
  show thesis
    using that [of "nval a0" "nval a1" "nval a2"] f
      literal_facts(2,3) [OF assms(2) l(1)] literal_facts(2,3) [OF assms(3) l(2)]
      literal_facts(2,3) [OF assms(4) l(3)]
    by blast
qed

lemma lit_ofD:
  assumes "lit_of m = Inr (Some r)"
  obtains v where "m = Inr v" and "eval env r = (word_of_int v :: 256 word)"
  using assms by (cases m) (auto simp: lit_of_def dest: litD)

lemma zeroD: "Inr (Some (Literal_number 0)) = Inr (Some r) \<Longrightarrow> eval env r = 0"
  using eval_Literal_number_0 by auto

lemma oneD: "Inr (Some (Literal_number 1)) = Inr (Some r) \<Longrightarrow> eval env r = 1"
  using eval_Literal_number_1 by auto

lemma boolD: "Inr (Some (Literal_bool b)) = Inr (Some r) \<Longrightarrow> eval env r = evm_bool b"
  using eval_Literal_bool by auto

lemma fold_sub_sound:
  assumes "fold_sub args = Inr (Some r)" and "list_all wf args"
  shows "eval env r = eval env (FunctionCall ''sub'' args)"
proof -
  obtain a0 a1 where a: "args = [a0, a1]"
    and f: "(if isZero a1 then Inr (Some a0)
             else with_values2 a0 a1 (\<lambda>x y. lit (x - y))) = Inr (Some r)"
    using assms(1) unfolding fold_sub_def by (rule args2)
  have w: "wf a0" "wf a1" using assms(2) a by simp_all
  have e: "eval env (FunctionCall ''sub'' args) = eval env a0 - eval env a1"
    unfolding a by (rule eval_call2) (rule evm_op_2)
  show ?thesis
  proof (cases "isZero a1")
    case True
    then show ?thesis using f e isZero_eval [OF w(2) True] by simp
  next
    case False
    then have "with_values2 a0 a1 (\<lambda>x y. lit (x - y)) = Inr (Some r)" using f by simp
    then obtain x y where "eval env a0 = word_of_int x" "eval env a1 = word_of_int y"
      "lit (x - y) = Inr (Some r)"
      using w by (rule with_values2E [where env = env])
    then show ?thesis using e by (simp add: litD)
  qed
qed

lemma fold_mul_sound:
  assumes "fold_mul args = Inr (Some r)" and "list_all wf args"
  shows "eval env r = eval env (FunctionCall ''mul'' args)"
proof -
  obtain a0 a1 where a: "args = [a0, a1]"
    and f: "(if isZero a0 \<or> isZero a1 then Inr (Some (Literal_number 0))
             else if isOne a0 then Inr (Some a1)
             else if isOne a1 then Inr (Some a0)
             else with_values2 a0 a1 (\<lambda>x y. lit (x * y))) = Inr (Some r)"
    using assms(1) unfolding fold_mul_def by (rule args2)
  have w: "wf a0" "wf a1" using assms(2) a by simp_all
  have e: "eval env (FunctionCall ''mul'' args) = eval env a0 * eval env a1"
    unfolding a by (rule eval_call2) (rule evm_op_2)
  consider (z) "isZero a0 \<or> isZero a1"
    | (o0) "\<not> (isZero a0 \<or> isZero a1)" "isOne a0"
    | (o1) "\<not> (isZero a0 \<or> isZero a1)" "\<not> isOne a0" "isOne a1"
    | (l) "\<not> (isZero a0 \<or> isZero a1)" "\<not> isOne a0" "\<not> isOne a1"
    by blast
  then show ?thesis
  proof cases
    case z
    then have "eval env a0 = 0 \<or> eval env a1 = 0" using isZero_eval w by blast
    moreover have "eval env r = 0" using f z by (simp add: zeroD)
    ultimately show ?thesis using e by auto
  next
    case o0
    then show ?thesis using f e isOne_eval [OF w(1) o0(2)] by simp
  next
    case o1
    then show ?thesis using f e isOne_eval [OF w(2) o1(3)] by simp
  next
    case l
    then have "with_values2 a0 a1 (\<lambda>x y. lit (x * y)) = Inr (Some r)" using f by simp
    then obtain x y where "eval env a0 = word_of_int x" "eval env a1 = word_of_int y"
      "lit (x * y) = Inr (Some r)"
      using w by (rule with_values2E [where env = env])
    then show ?thesis using e by (simp add: litD)
  qed
qed

lemma bigint_divD: "bigint_div x y = Inr v \<Longrightarrow> y \<noteq> 0 \<and> v = x sdiv y"
  by (auto simp: bigint_div_def split: if_splits)

lemma bigint_remD: "bigint_rem x y = Inr v \<Longrightarrow> y \<noteq> 0 \<and> v = x smod y"
  by (auto simp: bigint_rem_def split: if_splits)

lemma bigint_powD: "bigint_pow x y = Inr v \<Longrightarrow> 0 \<le> y \<and> v = x ^ nat y"
  by (auto simp: bigint_pow_def split: if_splits)

lemma sdiv_zero_left: "(0::int) sdiv l = 0"
  by (simp add: signed_divide_int_def)

lemma smod_zero_left: "(0::int) smod l = 0"
  by (simp add: signed_modulo_int_def)

lemma smod_one: "k smod (1::int) = 0"
  by (simp add: signed_modulo_int_def)

lemma fold_div_sound:
  assumes "fold_div False args = Inr (Some r)" and "list_all wf args"
  shows "eval env r = eval env (FunctionCall ''div'' args)"
proof -
  obtain a0 a1 where a: "args = [a0, a1]"
    and f: "(if isZero a0 \<or> isZero a1 then Inr (Some (Literal_number 0))
             else if \<not> False \<and> isOne a1 then Inr (Some a0)
             else with_values2 a0 a1 (\<lambda>x y.
                 if False then lit_of (bigint_div (to_signed x) (to_signed y))
                 else lit_of (bigint_div x y))) = Inr (Some r)"
    using assms(1) unfolding fold_div_def by (rule args2)
  have w: "wf a0" "wf a1" using assms(2) a by simp_all
  have e: "eval env (FunctionCall ''div'' args)
           = (if eval env a1 = 0 then 0 else eval env a0 div eval env a1)"
    unfolding a by (rule eval_call2) (rule evm_op_2)
  consider (z) "isZero a0 \<or> isZero a1"
    | (o1) "\<not> (isZero a0 \<or> isZero a1)" "isOne a1"
    | (l) "\<not> (isZero a0 \<or> isZero a1)" "\<not> isOne a1"
    by blast
  then show ?thesis
  proof cases
    case z
    then have "eval env a0 = 0 \<or> eval env a1 = 0" using isZero_eval w by blast
    moreover have "eval env r = 0" using f z by (simp add: zeroD)
    ultimately show ?thesis using e by auto
  next
    case o1
    then show ?thesis using f e isOne_eval [OF w(2) o1(2)] by simp
  next
    case l
    then have "with_values2 a0 a1 (\<lambda>x y. lit_of (bigint_div x y)) = Inr (Some r)" using f by simp
    then obtain x y where xy: "in_range x" "in_range y"
      and ev: "eval env a0 = word_of_int x" "eval env a1 = word_of_int y"
      and r: "lit_of (bigint_div x y) = Inr (Some r)"
      using w by (rule with_values2E [where env = env])
    from r obtain v where v: "bigint_div x y = Inr v" and rv: "eval env r = word_of_int v"
      by (rule lit_ofD [where env = env])
    from bigint_divD [OF v] have "y \<noteq> 0" and "v = x sdiv y" by simp_all
    then show ?thesis
      using e ev rv word_div_in_range [OF xy] in_range_zero [OF xy(2)] by simp
  qed
qed

lemma fold_sdiv_sound:
  assumes "fold_div True args = Inr (Some r)" and "list_all wf args"
  shows "eval env r = eval env (FunctionCall ''sdiv'' args)"
proof -
  obtain a0 a1 where a: "args = [a0, a1]"
    and f: "(if isZero a0 \<or> isZero a1 then Inr (Some (Literal_number 0))
             else if \<not> True \<and> isOne a1 then Inr (Some a0)
             else with_values2 a0 a1 (\<lambda>x y.
                 if True then lit_of (bigint_div (to_signed x) (to_signed y))
                 else lit_of (bigint_div x y))) = Inr (Some r)"
    using assms(1) unfolding fold_div_def by (rule args2)
  have w: "wf a0" "wf a1" using assms(2) a by simp_all
  have e: "eval env (FunctionCall ''sdiv'' args)
           = (if eval env a1 = 0 then 0 else word_of_int (sint (eval env a0) sdiv sint (eval env a1)))"
    unfolding a by (rule eval_call2) (rule evm_op_2)
  show ?thesis
  proof (cases "isZero a0 \<or> isZero a1")
    case True
    then have "eval env a0 = 0 \<or> eval env a1 = 0" using isZero_eval w by blast
    moreover have "eval env r = 0" using f True by (simp add: zeroD)
    ultimately show ?thesis using e by (auto simp: sdiv_zero_left)
  next
    case False
    then have "with_values2 a0 a1 (\<lambda>x y. lit_of (bigint_div (to_signed x) (to_signed y))) = Inr (Some r)"
      using f by simp
    then obtain x y where xy: "in_range x" "in_range y"
      and ev: "eval env a0 = word_of_int x" "eval env a1 = word_of_int y"
      and z: "isZero a1 \<longleftrightarrow> y = 0"
      and r: "lit_of (bigint_div (to_signed x) (to_signed y)) = Inr (Some r)"
      using w by (rule with_values2E [where env = env])
    from r obtain v where v: "bigint_div (to_signed x) (to_signed y) = Inr v"
      and rv: "eval env r = word_of_int v"
      by (rule lit_ofD [where env = env])
    from bigint_divD [OF v] have "v = to_signed x sdiv to_signed y" by simp
    moreover have "y \<noteq> 0" using z False by simp
    ultimately show ?thesis
      using e ev rv to_signed_sint [OF xy(1)] to_signed_sint [OF xy(2)] in_range_zero [OF xy(2)]
      by simp
  qed
qed

lemma fold_mod_sound:
  assumes "fold_mod False args = Inr (Some r)" and "list_all wf args"
  shows "eval env r = eval env (FunctionCall ''mod'' args)"
proof -
  obtain a0 a1 where a: "args = [a0, a1]"
    and f: "(if isZero a0 \<or> isZero a1 then Inr (Some (Literal_number 0))
             else if isOne a1 then Inr (Some (Literal_number 0))
             else with_values2 a0 a1 (\<lambda>x y.
                 if False then lit_of (bigint_rem (to_signed x) (to_signed y))
                 else lit_of (bigint_rem x y))) = Inr (Some r)"
    using assms(1) unfolding fold_mod_def by (rule args2)
  have w: "wf a0" "wf a1" using assms(2) a by simp_all
  have e: "eval env (FunctionCall ''mod'' args)
           = (if eval env a1 = 0 then 0 else eval env a0 mod eval env a1)"
    unfolding a by (rule eval_call2) (rule evm_op_2)
  consider (z) "isZero a0 \<or> isZero a1"
    | (o1) "\<not> (isZero a0 \<or> isZero a1)" "isOne a1"
    | (l) "\<not> (isZero a0 \<or> isZero a1)" "\<not> isOne a1"
    by blast
  then show ?thesis
  proof cases
    case z
    then have "eval env a0 = 0 \<or> eval env a1 = 0" using isZero_eval w by blast
    moreover have "eval env r = 0" using f z by (simp add: zeroD)
    ultimately show ?thesis using e by auto
  next
    case o1
    have "eval env r = 0" using f o1 by (simp add: zeroD)
    then show ?thesis using e isOne_eval [OF w(2) o1(2)] by simp
  next
    case l
    then have "with_values2 a0 a1 (\<lambda>x y. lit_of (bigint_rem x y)) = Inr (Some r)" using f by simp
    then obtain x y where xy: "in_range x" "in_range y"
      and ev: "eval env a0 = word_of_int x" "eval env a1 = word_of_int y"
      and r: "lit_of (bigint_rem x y) = Inr (Some r)"
      using w by (rule with_values2E [where env = env])
    from r obtain v where v: "bigint_rem x y = Inr v" and rv: "eval env r = word_of_int v"
      by (rule lit_ofD [where env = env])
    from bigint_remD [OF v] have "y \<noteq> 0" and "v = x smod y" by simp_all
    then show ?thesis
      using e ev rv word_mod_in_range [OF xy] in_range_zero [OF xy(2)] by simp
  qed
qed

lemma sint_one_256: "sint (1 :: 256 word) = 1"
  by simp

lemma fold_smod_sound:
  assumes "fold_mod True args = Inr (Some r)" and "list_all wf args"
  shows "eval env r = eval env (FunctionCall ''smod'' args)"
proof -
  obtain a0 a1 where a: "args = [a0, a1]"
    and f: "(if isZero a0 \<or> isZero a1 then Inr (Some (Literal_number 0))
             else if isOne a1 then Inr (Some (Literal_number 0))
             else with_values2 a0 a1 (\<lambda>x y.
                 if True then lit_of (bigint_rem (to_signed x) (to_signed y))
                 else lit_of (bigint_rem x y))) = Inr (Some r)"
    using assms(1) unfolding fold_mod_def by (rule args2)
  have w: "wf a0" "wf a1" using assms(2) a by simp_all
  have e: "eval env (FunctionCall ''smod'' args)
           = (if eval env a1 = 0 then 0 else word_of_int (sint (eval env a0) smod sint (eval env a1)))"
    unfolding a by (rule eval_call2) (rule evm_op_2)
  consider (z) "isZero a0 \<or> isZero a1"
    | (o1) "\<not> (isZero a0 \<or> isZero a1)" "isOne a1"
    | (l) "\<not> (isZero a0 \<or> isZero a1)" "\<not> isOne a1"
    by blast
  then show ?thesis
  proof cases
    case z
    then have "eval env a0 = 0 \<or> eval env a1 = 0" using isZero_eval w by blast
    moreover have "eval env r = 0" using f z by (simp add: zeroD)
    ultimately show ?thesis using e by (auto simp: smod_zero_left)
  next
    case o1
    have "eval env r = 0" using f o1 by (simp add: zeroD)
    then show ?thesis using e isOne_eval [OF w(2) o1(2)] by (simp add: smod_one)
  next
    case l
    then have "with_values2 a0 a1 (\<lambda>x y. lit_of (bigint_rem (to_signed x) (to_signed y))) = Inr (Some r)"
      using f by simp
    then obtain x y where xy: "in_range x" "in_range y"
      and ev: "eval env a0 = word_of_int x" "eval env a1 = word_of_int y"
      and z: "isZero a1 \<longleftrightarrow> y = 0"
      and r: "lit_of (bigint_rem (to_signed x) (to_signed y)) = Inr (Some r)"
      using w by (rule with_values2E [where env = env])
    from r obtain v where v: "bigint_rem (to_signed x) (to_signed y) = Inr v"
      and rv: "eval env r = word_of_int v"
      by (rule lit_ofD [where env = env])
    from bigint_remD [OF v] have "v = to_signed x smod to_signed y" by simp
    moreover have "y \<noteq> 0" using z l by simp
    ultimately show ?thesis
      using e ev rv to_signed_sint [OF xy(1)] to_signed_sint [OF xy(2)] in_range_zero [OF xy(2)]
      by simp
  qed
qed

text \<open>
  The case \<^verbatim>\<open>exp\<close>, when the exponent is a literal wherever the base is a literal zero.
\<close>

lemma fold_exp_sound:
  assumes "fold_exp args = Inr (Some r)" and "list_all wf args"
    and "\<not> exp_zero_base ''exp'' args"
  shows "eval env r = eval env (FunctionCall ''exp'' args)"
proof -
  obtain a0 a1 where a: "args = [a0, a1]"
    and f: "(if isZero a1 then Inr (Some (Literal_number 1))
             else if isOne a1 then Inr (Some a0)
             else if isZero a0 then Inr (Some (Literal_number 0))
             else with_values2 a0 a1 (\<lambda>x y. lit_of (bigint_pow x y))) = Inr (Some r)"
    using assms(1) unfolding fold_exp_def by (rule args2)
  have w: "wf a0" "wf a1" using assms(2) a by simp_all
  have g: "isZero a0 \<Longrightarrow> isLiteral a1" using assms(3) a by (simp add: exp_zero_base_def)
  have e: "eval env (FunctionCall ''exp'' args) = eval env a0 ^ unat (eval env a1)"
    unfolding a by (rule eval_call2) (rule evm_op_2)
  consider (z1) "isZero a1"
    | (o1) "\<not> isZero a1" "isOne a1"
    | (z0) "\<not> isZero a1" "\<not> isOne a1" "isZero a0"
    | (l) "\<not> isZero a1" "\<not> isOne a1" "\<not> isZero a0"
    by blast
  then show ?thesis
  proof cases
    case z1
    have "eval env r = 1" using f z1 by (simp add: oneD)
    then show ?thesis using e isZero_eval [OF w(2) z1] by simp
  next
    case o1
    then show ?thesis using f e isOne_eval [OF w(2) o1(2)] by simp
  next
    case z0
    have r0: "eval env r = 0" using f z0 by (simp add: zeroD)
    have l1: "isLiteral a1" using g z0 by simp
    have y: "nval a1 \<noteq> 0" "in_range (nval a1)" "eval env a1 = word_of_int (nval a1)"
      using literal_facts(2-4) [OF w(2) l1] z0(1) by simp_all
    have "0 < nat (nval a1)" using y(1,2) by (simp add: in_range_def)
    then have "0 < unat (eval env a1)" using y by (simp add: unat_in_range)
    then have "(0 :: 256 word) ^ unat (eval env a1) = 0" by (simp add: power_0_left)
    moreover have "eval env a0 = 0" by (rule isZero_eval [OF w(1) z0(3)])
    ultimately have "eval env a0 ^ unat (eval env a1) = 0" by simp
    then show ?thesis using e r0 by simp
  next
    case l
    then have "with_values2 a0 a1 (\<lambda>x y. lit_of (bigint_pow x y)) = Inr (Some r)" using f by simp
    then obtain x y where xy: "in_range x" "in_range y"
      and ev: "eval env a0 = word_of_int x" "eval env a1 = word_of_int y"
      and r: "lit_of (bigint_pow x y) = Inr (Some r)"
      using w by (rule with_values2E [where env = env])
    from r obtain v where v: "bigint_pow x y = Inr v" and rv: "eval env r = word_of_int v"
      by (rule lit_ofD [where env = env])
    from bigint_powD [OF v] have "v = x ^ nat y" by simp
    then show ?thesis using e ev rv word_exp_in_range [OF xy(2), of x] by simp
  qed
qed

lemma fold_addmod_sound:
  assumes "fold_addmod args = Inr (Some r)" and "list_all wf args"
  shows "eval env r = eval env (FunctionCall ''addmod'' args)"
proof -
  obtain a0 a1 a2 where a: "args = [a0, a1, a2]"
    and f: "(if isZero a2 then Inr (Some (Literal_number 0))
             else with_values3 a0 a1 a2 (\<lambda>x y m. lit_of (bigint_rem (x + y) m))) = Inr (Some r)"
    using assms(1) unfolding fold_addmod_def by (rule args3)
  have w: "wf a0" "wf a1" "wf a2" using assms(2) a by simp_all
  have e: "eval env (FunctionCall ''addmod'' args)
           = (if eval env a2 = 0 then 0
              else word_of_nat ((unat (eval env a0) + unat (eval env a1)) mod unat (eval env a2)))"
    unfolding a by (rule eval_call3) (rule evm_op_3)
  show ?thesis
  proof (cases "isZero a2")
    case True
    have "eval env r = 0" using f True by (simp add: zeroD)
    then show ?thesis using e isZero_eval [OF w(3) True] by simp
  next
    case False
    then have "with_values3 a0 a1 a2 (\<lambda>x y m. lit_of (bigint_rem (x + y) m)) = Inr (Some r)"
      using f by simp
    then obtain x y m where xy: "in_range x" "in_range y" "in_range m"
      and ev: "eval env a0 = word_of_int x" "eval env a1 = word_of_int y" "eval env a2 = word_of_int m"
      and r: "lit_of (bigint_rem (x + y) m) = Inr (Some r)"
      using w by (rule with_values3E [where env = env])
    from r obtain v where v: "bigint_rem (x + y) m = Inr v" and rv: "eval env r = word_of_int v"
      by (rule lit_ofD [where env = env])
    from bigint_remD [OF v] have "m \<noteq> 0" and "v = (x + y) smod m" by simp_all
    then show ?thesis
      using e ev rv word_addmod_in_range [OF xy] in_range_zero [OF xy(3)] by simp
  qed
qed

lemma fold_mulmod_sound:
  assumes "fold_mulmod args = Inr (Some r)" and "list_all wf args"
  shows "eval env r = eval env (FunctionCall ''mulmod'' args)"
proof -
  obtain a0 a1 a2 where a: "args = [a0, a1, a2]"
    and f: "(if isZero a0 \<or> isZero a1 \<or> isZero a2 then Inr (Some (Literal_number 0))
             else with_values3 a0 a1 a2 (\<lambda>x y m. lit_of (bigint_rem (x * y) m))) = Inr (Some r)"
    using assms(1) unfolding fold_mulmod_def by (rule args3)
  have w: "wf a0" "wf a1" "wf a2" using assms(2) a by simp_all
  have e: "eval env (FunctionCall ''mulmod'' args)
           = (if eval env a2 = 0 then 0
              else word_of_nat ((unat (eval env a0) * unat (eval env a1)) mod unat (eval env a2)))"
    unfolding a by (rule eval_call3) (rule evm_op_3)
  show ?thesis
  proof (cases "isZero a0 \<or> isZero a1 \<or> isZero a2")
    case True
    have "eval env r = 0" using f True by (simp add: zeroD)
    moreover have "eval env a0 = 0 \<or> eval env a1 = 0 \<or> eval env a2 = 0"
      using True isZero_eval w by blast
    ultimately show ?thesis using e by auto
  next
    case False
    then have "with_values3 a0 a1 a2 (\<lambda>x y m. lit_of (bigint_rem (x * y) m)) = Inr (Some r)"
      using f by simp
    then obtain x y m where xy: "in_range x" "in_range y" "in_range m"
      and ev: "eval env a0 = word_of_int x" "eval env a1 = word_of_int y" "eval env a2 = word_of_int m"
      and r: "lit_of (bigint_rem (x * y) m) = Inr (Some r)"
      using w by (rule with_values3E [where env = env])
    from r obtain v where v: "bigint_rem (x * y) m = Inr v" and rv: "eval env r = word_of_int v"
      by (rule lit_ofD [where env = env])
    from bigint_remD [OF v] have "m \<noteq> 0" and "v = (x * y) smod m" by simp_all
    then show ?thesis
      using e ev rv word_mulmod_in_range [OF xy] in_range_zero [OF xy(3)] by simp
  qed
qed

lemma fold_not_sound:
  assumes "fold_not args = Inr (Some r)" and "list_all wf args"
  shows "eval env r = eval env (FunctionCall ''not'' args)"
proof -
  obtain a0 where a: "args = [a0]"
    and f: "(if \<not> isLiterals [a0] then Inr None
             else (case toBigInt (literal_value a0) of
                     None \<Rightarrow> Inl SyntaxError
                   | Some x \<Rightarrow> lit (x XOR U256_MAX))) = Inr (Some r)"
    using assms(1) unfolding fold_not_def by (rule args1)
  have w: "wf a0" using assms(2) a by simp
  have e: "eval env (FunctionCall ''not'' args) = NOT (eval env a0)"
    unfolding a by (rule eval_call1) (rule evm_op_1)
  have l: "isLiteral a0" using f by (auto simp: isLiterals_def split: if_splits)
  have "lit (nval a0 XOR U256_MAX) = Inr (Some r)"
    using f l literal_facts(1) [OF w l] by (simp add: isLiterals_def)
  then show ?thesis using e literal_facts(3) [OF w l, of env] by (simp add: litD word_not_U256)
qed

lemma fold_and_sound:
  assumes "fold_and args = Inr (Some r)" and "list_all wf args"
  shows "eval env r = eval env (FunctionCall ''and'' args)"
proof -
  obtain a0 a1 where a: "args = [a0, a1]"
    and f: "(if isZero a0 then Inr (Some (Literal_number 0))
             else if isZero a1 then Inr (Some (Literal_number 0))
             else with_values2 a0 a1 (\<lambda>x y. lit (x AND y))) = Inr (Some r)"
    using assms(1) unfolding fold_and_def by (rule args2)
  have w: "wf a0" "wf a1" using assms(2) a by simp_all
  have e: "eval env (FunctionCall ''and'' args) = eval env a0 AND eval env a1"
    unfolding a by (rule eval_call2) (rule evm_op_2)
  show ?thesis
  proof (cases "isZero a0 \<or> isZero a1")
    case True
    then have "eval env a0 = 0 \<or> eval env a1 = 0" using isZero_eval w by blast
    moreover have "eval env r = 0" using f True by (auto simp: zeroD split: if_splits)
    ultimately show ?thesis using e by auto
  next
    case False
    then have "with_values2 a0 a1 (\<lambda>x y. lit (x AND y)) = Inr (Some r)" using f by simp
    then obtain x y where "eval env a0 = word_of_int x" "eval env a1 = word_of_int y"
      "lit (x AND y) = Inr (Some r)"
      using w by (rule with_values2E [where env = env])
    then show ?thesis using e by (simp add: litD of_int_and_eq)
  qed
qed

lemma fold_or_sound:
  assumes "fold_or args = Inr (Some r)" and "list_all wf args"
  shows "eval env r = eval env (FunctionCall ''or'' args)"
proof -
  obtain a0 a1 where a: "args = [a0, a1]"
    and f: "(if isZero a0 then Inr (Some a1) else if isZero a1 then Inr (Some a0)
             else with_values2 a0 a1 (\<lambda>x y. lit (x OR y))) = Inr (Some r)"
    using assms(1) unfolding fold_or_def by (rule args2)
  have w: "wf a0" "wf a1" using assms(2) a by simp_all
  have e: "eval env (FunctionCall ''or'' args) = eval env a0 OR eval env a1"
    unfolding a by (rule eval_call2) (rule evm_op_2)
  consider (z0) "isZero a0" | (z1) "\<not> isZero a0" "isZero a1" | (l) "\<not> isZero a0" "\<not> isZero a1"
    by blast
  then show ?thesis
  proof cases
    case z0
    then show ?thesis using f e isZero_eval [OF w(1) z0] by simp
  next
    case z1
    then show ?thesis using f e isZero_eval [OF w(2) z1(2)] by simp
  next
    case l
    then have "with_values2 a0 a1 (\<lambda>x y. lit (x OR y)) = Inr (Some r)" using f by simp
    then obtain x y where "eval env a0 = word_of_int x" "eval env a1 = word_of_int y"
      "lit (x OR y) = Inr (Some r)"
      using w by (rule with_values2E [where env = env])
    then show ?thesis using e by (simp add: litD of_int_or_eq)
  qed
qed

lemma fold_xor_sound:
  assumes "fold_xor args = Inr (Some r)" and "list_all wf args"
  shows "eval env r = eval env (FunctionCall ''xor'' args)"
proof -
  obtain a0 a1 where a: "args = [a0, a1]"
    and f: "(if isZero a0 then Inr (Some a1) else if isZero a1 then Inr (Some a0)
             else with_values2 a0 a1 (\<lambda>x y. lit (x XOR y))) = Inr (Some r)"
    using assms(1) unfolding fold_xor_def by (rule args2)
  have w: "wf a0" "wf a1" using assms(2) a by simp_all
  have e: "eval env (FunctionCall ''xor'' args) = eval env a0 XOR eval env a1"
    unfolding a by (rule eval_call2) (rule evm_op_2)
  consider (z0) "isZero a0" | (z1) "\<not> isZero a0" "isZero a1" | (l) "\<not> isZero a0" "\<not> isZero a1"
    by blast
  then show ?thesis
  proof cases
    case z0
    then show ?thesis using f e isZero_eval [OF w(1) z0] by simp
  next
    case z1
    then show ?thesis using f e isZero_eval [OF w(2) z1(2)] by simp
  next
    case l
    then have "with_values2 a0 a1 (\<lambda>x y. lit (x XOR y)) = Inr (Some r)" using f by simp
    then obtain x y where "eval env a0 = word_of_int x" "eval env a1 = word_of_int y"
      "lit (x XOR y) = Inr (Some r)"
      using w by (rule with_values2E [where env = env])
    then show ?thesis using e by (simp add: litD of_int_xor_eq)
  qed
qed

lemma bigint_shl_checkedD: "bigint_shl_checked x s = Inr v \<Longrightarrow> v = bigint_shl x s"
  by (auto simp: bigint_shl_checked_def split: if_splits)

lemma fold_shl_sound:
  assumes "fold_shl args = Inr (Some r)" and "list_all wf args"
  shows "eval env r = eval env (FunctionCall ''shl'' args)"
proof -
  obtain a0 a1 where a: "args = [a0, a1]"
    and f: "(if isZero a0 then Inr (Some a1)
             else with_values2 a0 a1 (\<lambda>shift num. lit_of (bigint_shl_checked num shift))) = Inr (Some r)"
    using assms(1) unfolding fold_shl_def by (rule args2)
  have w: "wf a0" "wf a1" using assms(2) a by simp_all
  have e: "eval env (FunctionCall ''shl'' args)
           = (if 256 \<le> unat (eval env a0) then 0 else push_bit (unat (eval env a0)) (eval env a1))"
    unfolding a by (rule eval_call2) (rule evm_op_2)
  show ?thesis
  proof (cases "isZero a0")
    case True
    then show ?thesis using f e isZero_eval [OF w(1) True] by simp
  next
    case False
    then have "with_values2 a0 a1 (\<lambda>shift num. lit_of (bigint_shl_checked num shift)) = Inr (Some r)"
      using f by simp
    then obtain s num where s: "in_range s"
      and ev: "eval env a0 = word_of_int s" "eval env a1 = word_of_int num"
      and r: "lit_of (bigint_shl_checked num s) = Inr (Some r)"
      using w by (rule with_values2E [where env = env])
    from r obtain v where v: "bigint_shl_checked num s = Inr v" and rv: "eval env r = word_of_int v"
      by (rule lit_ofD [where env = env])
    from bigint_shl_checkedD [OF v] have "v = bigint_shl num s" .
    then show ?thesis using e ev rv word_shl_in_range [OF s, of num] by simp
  qed
qed

lemma fold_shr_sound:
  assumes "fold_shr False args = Inr (Some r)" and "list_all wf args"
  shows "eval env r = eval env (FunctionCall ''shr'' args)"
proof -
  obtain a0 a1 where a: "args = [a0, a1]"
    and f: "(if isZero a0 then Inr (Some a1)
             else with_values2 a0 a1 (\<lambda>shift num.
                 lit (bigint_shr (if False then to_signed num else num) shift))) = Inr (Some r)"
    using assms(1) unfolding fold_shr_def by (rule args2)
  have w: "wf a0" "wf a1" using assms(2) a by simp_all
  have e: "eval env (FunctionCall ''shr'' args)
           = (if 256 \<le> unat (eval env a0) then 0 else drop_bit (unat (eval env a0)) (eval env a1))"
    unfolding a by (rule eval_call2) (rule evm_op_2)
  show ?thesis
  proof (cases "isZero a0")
    case True
    then show ?thesis using f e isZero_eval [OF w(1) True] by simp
  next
    case False
    then have "with_values2 a0 a1 (\<lambda>shift num. lit (bigint_shr num shift)) = Inr (Some r)"
      using f by simp
    then obtain s num where s: "in_range s" "in_range num"
      and ev: "eval env a0 = word_of_int s" "eval env a1 = word_of_int num"
      and r: "lit (bigint_shr num s) = Inr (Some r)"
      using w by (rule with_values2E [where env = env])
    show ?thesis using e ev litD [OF r, of env] word_shr_in_range [OF s] by simp
  qed
qed

lemma fold_sar_sound:
  assumes "fold_shr True args = Inr (Some r)" and "list_all wf args"
  shows "eval env r = eval env (FunctionCall ''sar'' args)"
proof -
  obtain a0 a1 where a: "args = [a0, a1]"
    and f: "(if isZero a0 then Inr (Some a1)
             else with_values2 a0 a1 (\<lambda>shift num.
                 lit (bigint_shr (if True then to_signed num else num) shift))) = Inr (Some r)"
    using assms(1) unfolding fold_shr_def by (rule args2)
  have w: "wf a0" "wf a1" using assms(2) a by simp_all
  have e: "eval env (FunctionCall ''sar'' args)
           = (if 256 \<le> unat (eval env a0) then (if sint (eval env a1) < 0 then - 1 else 0)
              else signed_drop_bit (unat (eval env a0)) (eval env a1))"
    unfolding a by (rule eval_call2) (rule evm_op_2)
  show ?thesis
  proof (cases "isZero a0")
    case True
    then show ?thesis using f e isZero_eval [OF w(1) True] by simp
  next
    case False
    then have "with_values2 a0 a1 (\<lambda>shift num. lit (bigint_shr (to_signed num) shift)) = Inr (Some r)"
      using f by simp
    then obtain s num where s: "in_range s" "in_range num"
      and ev: "eval env a0 = word_of_int s" "eval env a1 = word_of_int num"
      and r: "lit (bigint_shr (to_signed num) s) = Inr (Some r)"
      using w by (rule with_values2E [where env = env])
    show ?thesis using e ev litD [OF r, of env] word_sar_in_range [OF s] by simp
  qed
qed

lemma fold_signextend_sound:
  assumes "fold_signextend args = Inr (Some r)" and "list_all wf args"
  shows "eval env r = eval env (FunctionCall ''signextend'' args)"
proof -
  let ?v = "\<lambda>b x. if b > 31 then x
                   else (let bit = b * 8 + 7; mask = bigint_shl 1 bit - 1
                         in if x AND bigint_shl 1 bit \<noteq> 0 then x OR (mask XOR U256_MAX)
                            else x AND mask)"
  obtain a0 a1 where a: "args = [a0, a1]"
    and f: "with_values2 a0 a1 (\<lambda>b x.
            if b > 31 then lit x
            else (let bit = b * 8 + 7;
                      mask = bigint_shl 1 bit - 1
                  in if x AND bigint_shl 1 bit \<noteq> 0 then lit (x OR (mask XOR U256_MAX))
                     else lit (x AND mask))) = Inr (Some r)"
    using assms(1) unfolding fold_signextend_def by (rule args2)
  have w: "wf a0" "wf a1" using assms(2) a by simp_all
  have e: "eval env (FunctionCall ''signextend'' args)
           = (if 31 \<le> unat (eval env a0) then eval env a1
              else signed_take_bit (8 * unat (eval env a0) + 7) (eval env a1))"
    unfolding a by (rule eval_call2) (rule evm_op_2)
  from f obtain b x where bx: "in_range b" "in_range x"
    and ev: "eval env a0 = word_of_int b" "eval env a1 = word_of_int x"
    and r: "(if b > 31 then lit x
            else (let bit = b * 8 + 7;
                      mask = bigint_shl 1 bit - 1
                  in if x AND bigint_shl 1 bit \<noteq> 0 then lit (x OR (mask XOR U256_MAX))
                     else lit (x AND mask))) = Inr (Some r)"
    using w by (rule with_values2E [where env = env])
  have "lit (?v b x) = Inr (Some r)" using r by (simp add: Let_def split: if_splits)
  from litD [OF this, of env] show ?thesis
    using e ev word_signextend_in_range [OF bx] by simp
qed

lemma fold_byte_sound:
  assumes "fold_byte args = Inr (Some r)" and "list_all wf args"
  shows "eval env r = eval env (FunctionCall ''byte'' args)"
proof -
  obtain a0 a1 where a: "args = [a0, a1]"
    and f: "with_values2 a0 a1 (\<lambda>pos num.
            if pos > 31 then Inr (Some (Literal_number 0))
            else (let shift = bigint_shl (31 - pos) 3
                  in lit (bigint_shr num shift AND 255))) = Inr (Some r)"
    using assms(1) unfolding fold_byte_def by (rule args2)
  have w: "wf a0" "wf a1" using assms(2) a by simp_all
  have e: "eval env (FunctionCall ''byte'' args)
           = (if 32 \<le> unat (eval env a0) then 0
              else drop_bit (8 * (31 - unat (eval env a0))) (eval env a1) AND 255)"
    unfolding a by (rule eval_call2) (rule evm_op_2)
  from f obtain pos num where pn: "in_range pos" "in_range num"
    and ev: "eval env a0 = word_of_int pos" "eval env a1 = word_of_int num"
    and r: "(if pos > 31 then Inr (Some (Literal_number 0))
            else (let shift = bigint_shl (31 - pos) 3
                  in lit (bigint_shr num shift AND 255))) = Inr (Some r)"
    using w by (rule with_values2E [where env = env])
  show ?thesis
  proof (cases "pos > 31")
    case True
    then have "32 \<le> nat pos" by simp
    moreover have "eval env r = 0" using r True by (simp add: zeroD)
    ultimately show ?thesis using e ev pn(1) by (simp add: unat_in_range)
  next
    case False
    then have "lit (bigint_shr num (bigint_shl (31 - pos) 3) AND 255) = Inr (Some r)"
      using r by (simp add: Let_def)
    from litD [OF this, of env] show ?thesis
      using e ev word_byte_in_range [OF pn False] by simp
  qed
qed

lemma fold_lt_sound:
  assumes "fold_lt False args = Inr (Some r)" and "list_all wf args"
  shows "eval env r = eval env (FunctionCall ''lt'' args)"
proof -
  obtain a0 a1 where a: "args = [a0, a1]"
    and f: "with_values2 a0 a1 (\<lambda>lhs rhs.
            if False then Inr (Some (Literal_bool (to_signed lhs < to_signed rhs)))
            else Inr (Some (Literal_bool (lhs < rhs)))) = Inr (Some r)"
    using assms(1) unfolding fold_lt_def by (rule args2)
  have w: "wf a0" "wf a1" using assms(2) a by simp_all
  have e: "eval env (FunctionCall ''lt'' args) = evm_bool (eval env a0 < eval env a1)"
    unfolding a by (rule eval_call2) (rule evm_op_2)
  from f have "with_values2 a0 a1 (\<lambda>lhs rhs. Inr (Some (Literal_bool (lhs < rhs)))) = Inr (Some r)"
    by simp
  then obtain x y where xy: "in_range x" "in_range y"
    and ev: "eval env a0 = word_of_int x" "eval env a1 = word_of_int y"
    and r: "Inr (Some (Literal_bool (x < y))) = Inr (Some r)"
    using w by (rule with_values2E [where env = env]) blast
  have "eval env r = evm_bool (x < y)" using r by (simp add: boolD)
  then show ?thesis using e ev word_less_in_range [OF xy] by simp
qed

lemma fold_gt_sound:
  assumes "fold_gt False args = Inr (Some r)" and "list_all wf args"
  shows "eval env r = eval env (FunctionCall ''gt'' args)"
proof -
  obtain a0 a1 where a: "args = [a0, a1]"
    and f: "with_values2 a0 a1 (\<lambda>lhs rhs.
            if False then Inr (Some (Literal_bool (to_signed lhs > to_signed rhs)))
            else Inr (Some (Literal_bool (lhs > rhs)))) = Inr (Some r)"
    using assms(1) unfolding fold_gt_def by (rule args2)
  have w: "wf a0" "wf a1" using assms(2) a by simp_all
  have e: "eval env (FunctionCall ''gt'' args) = evm_bool (eval env a1 < eval env a0)"
    unfolding a by (rule eval_call2) (rule evm_op_2)
  from f have "with_values2 a0 a1 (\<lambda>lhs rhs. Inr (Some (Literal_bool (lhs > rhs)))) = Inr (Some r)"
    by simp
  then obtain x y where xy: "in_range x" "in_range y"
    and ev: "eval env a0 = word_of_int x" "eval env a1 = word_of_int y"
    and r: "Inr (Some (Literal_bool (x > y))) = Inr (Some r)"
    using w by (rule with_values2E [where env = env]) blast
  have "eval env r = evm_bool (y < x)" using r by (simp add: boolD)
  then show ?thesis using e ev word_less_in_range [OF xy(2) xy(1)] by simp
qed

lemma fold_slt_sound:
  assumes "fold_lt True args = Inr (Some r)" and "list_all wf args"
  shows "eval env r = eval env (FunctionCall ''slt'' args)"
proof -
  obtain a0 a1 where a: "args = [a0, a1]"
    and f: "with_values2 a0 a1 (\<lambda>lhs rhs.
            if True then Inr (Some (Literal_bool (to_signed lhs < to_signed rhs)))
            else Inr (Some (Literal_bool (lhs < rhs)))) = Inr (Some r)"
    using assms(1) unfolding fold_lt_def by (rule args2)
  have w: "wf a0" "wf a1" using assms(2) a by simp_all
  have e: "eval env (FunctionCall ''slt'' args) = evm_bool (sint (eval env a0) < sint (eval env a1))"
    unfolding a by (rule eval_call2) (rule evm_op_2)
  from f have "with_values2 a0 a1 (\<lambda>lhs rhs. Inr (Some (Literal_bool (to_signed lhs < to_signed rhs)))) = Inr (Some r)"
    by simp
  then obtain x y where xy: "in_range x" "in_range y"
    and ev: "eval env a0 = word_of_int x" "eval env a1 = word_of_int y"
    and r: "Inr (Some (Literal_bool (to_signed x < to_signed y))) = Inr (Some r)"
    using w by (rule with_values2E [where env = env]) blast
  have "eval env r = evm_bool (to_signed x < to_signed y)" using r by (simp add: boolD)
  then show ?thesis using e ev to_signed_sint [OF xy(1)] to_signed_sint [OF xy(2)] by simp
qed

lemma fold_sgt_sound:
  assumes "fold_gt True args = Inr (Some r)" and "list_all wf args"
  shows "eval env r = eval env (FunctionCall ''sgt'' args)"
proof -
  obtain a0 a1 where a: "args = [a0, a1]"
    and f: "with_values2 a0 a1 (\<lambda>lhs rhs.
            if True then Inr (Some (Literal_bool (to_signed lhs > to_signed rhs)))
            else Inr (Some (Literal_bool (lhs > rhs)))) = Inr (Some r)"
    using assms(1) unfolding fold_gt_def by (rule args2)
  have w: "wf a0" "wf a1" using assms(2) a by simp_all
  have e: "eval env (FunctionCall ''sgt'' args) = evm_bool (sint (eval env a1) < sint (eval env a0))"
    unfolding a by (rule eval_call2) (rule evm_op_2)
  from f have "with_values2 a0 a1 (\<lambda>lhs rhs. Inr (Some (Literal_bool (to_signed lhs > to_signed rhs)))) = Inr (Some r)"
    by simp
  then obtain x y where xy: "in_range x" "in_range y"
    and ev: "eval env a0 = word_of_int x" "eval env a1 = word_of_int y"
    and r: "Inr (Some (Literal_bool (to_signed x > to_signed y))) = Inr (Some r)"
    using w by (rule with_values2E [where env = env]) blast
  have "eval env r = evm_bool (to_signed y < to_signed x)" using r by (simp add: boolD)
  then show ?thesis using e ev to_signed_sint [OF xy(1)] to_signed_sint [OF xy(2)] by simp
qed

lemma evm_bool_zero: "evm_bool b = 0 \<longleftrightarrow> \<not> b"
  by (simp add: evm_bool_def)

lemma fold_eq_sound:
  assumes "fold_eq args = Inr (Some r)" and "list_all wf args"
    and "\<not> eq_strings ''eq'' args"
  shows "eval env r = eval env (FunctionCall ''eq'' args)"
proof -
  obtain a0 a1 where a: "args = [a0, a1]"
    and f: "(if isStringLiteral a0 \<and> isStringLiteral a1 then
            (case JSON_parse_string (literal_value a0) of
               None \<Rightarrow> Inl SyntaxError
             | Some lhs \<Rightarrow>
                 (case JSON_parse_string (literal_value a1) of
                    None \<Rightarrow> Inl SyntaxError
                  | Some rhs \<Rightarrow> Inr (Some (Literal_bool (lhs = rhs)))))
          else if isLiterals [a0, a1] then
            with_values2 a0 a1 (\<lambda>lhs rhs. Inr (Some (Literal_bool (lhs = rhs))))
          else if isZero a0 then Inr (Some (IsZero a1))
          else if isZero a1 then Inr (Some (IsZero a0))
          else Inr None) = Inr (Some r)"
    using assms(1) unfolding fold_eq_def by (rule args2)
  have w: "wf a0" "wf a1" using assms(2) a by simp_all
  have ns: "\<not> (isStringLiteral a0 \<and> isStringLiteral a1)"
    using assms(3) a by (simp add: eq_strings_def)
  have e: "eval env (FunctionCall ''eq'' args) = evm_bool (eval env a0 = eval env a1)"
    unfolding a by (rule eval_call2) (rule evm_op_2)
  have iz: "eval env (IsZero n) = evm_bool (eval env n = 0)" for n
    unfolding IsZero_def Call_def by (rule eval_call1) (rule evm_op_1)
  consider (l) "isLiterals [a0, a1]"
    | (z0) "\<not> isLiterals [a0, a1]" "isZero a0"
    | (z1) "\<not> isLiterals [a0, a1]" "\<not> isZero a0" "isZero a1"
    | (n) "\<not> isLiterals [a0, a1]" "\<not> isZero a0" "\<not> isZero a1"
    by blast
  then show ?thesis
  proof cases
    case l
    then have "with_values2 a0 a1 (\<lambda>lhs rhs. Inr (Some (Literal_bool (lhs = rhs)))) = Inr (Some r)"
      using f ns by simp
    then obtain x y where xy: "in_range x" "in_range y"
      and ev: "eval env a0 = word_of_int x" "eval env a1 = word_of_int y"
      and r: "Inr (Some (Literal_bool (x = y))) = Inr (Some r)"
      using w by (rule with_values2E [where env = env]) blast
    have "eval env r = evm_bool (x = y)" using r by (simp add: boolD)
    then show ?thesis using e ev in_range_inj [OF xy] by simp
  next
    case z0
    then have "r = IsZero a1" using f ns by simp
    then show ?thesis using e iz [of a1] isZero_eval [OF w(1) z0(2), of env] by auto
  next
    case z1
    then have "r = IsZero a0" using f ns by simp
    then show ?thesis using e iz [of a0] isZero_eval [OF w(2) z1(3), of env] by auto
  next
    case n
    then show ?thesis using f ns by simp
  qed
qed

text \<open>What the case \<^verbatim>\<open>iszero\<close> returns.\<close>

lemma fold_iszero_plain:
  assumes "(if \<not> isLiteral a0 then Inr None
            else (case toBigInt (literal_value a0) of
                    None \<Rightarrow> Inl SyntaxError
                  | Some x \<Rightarrow> Inr (Some (Literal_bool (x = 0))))) = Inr (Some r)"
    and "wf a0"
  shows "eval env r = evm_bool (eval env a0 = 0)"
proof -
  have l: "isLiteral a0" using assms(1) by (auto split: if_splits)
  note lf = literal_facts(1-3) [OF assms(2) l]
  have "r = Literal_bool (nval a0 = 0)" using assms(1) l lf(1) by simp
  then show ?thesis using lf(3) [of env] in_range_zero [OF lf(2)] by (simp add: eval_Literal_bool)
qed

lemma fold_iszero_lt:
  assumes "(case toBigInt (literal_value y) of
              None \<Rightarrow> Inl SyntaxError
            | Some n \<Rightarrow>
                if n = 0 then Inr (Some (Literal_number 1))
                else Inr (Some (Gt x (Literal_bigint (n - 1))))) = Inr (Some r)"
    and "wf y" and "isLiteral y"
  shows "eval env r = evm_bool (evm_bool (eval env x < eval env y) = 0)"
proof -
  note lf = literal_facts(1-3) [OF assms(2,3)]
  have g: "eval env (Gt x (Literal_bigint k)) = evm_bool (word_of_int k < eval env x)" for k
    unfolding Gt_def Call_def using eval_Literal_bigint [of env k]
    by (intro eval_call2) (simp add: evm_op_2)
  show ?thesis
  proof (cases "nval y = 0")
    case True
    then have "r = Literal_number 1" using assms(1) lf(1) by simp
    then show ?thesis using True lf(3) [of env] by (simp add: eval_Literal_number_1 evm_bool_def)
  next
    case False
    then have "r = Gt x (Literal_bigint (nval y - 1))" using assms(1) lf(1) by simp
    then show ?thesis
      using g [of "nval y - 1"] lf(3) [of env] word_not_less_pred [OF lf(2) False, of "eval env x"]
      by (simp add: evm_bool_zero)
  qed
qed

lemma fold_iszero_gt:
  assumes "(case toBigInt (literal_value y) of
              None \<Rightarrow> Inl SyntaxError
            | Some n \<Rightarrow>
                if n = U256_MAX then Inr (Some (Literal_number 1))
                else Inr (Some (Lt x (Literal_bigint (n + 1))))) = Inr (Some r)"
    and "wf y" and "isLiteral y"
  shows "eval env r = evm_bool (evm_bool (eval env y < eval env x) = 0)"
proof -
  note lf = literal_facts(1-3) [OF assms(2,3)]
  have g: "eval env (Lt x (Literal_bigint k)) = evm_bool (eval env x < word_of_int k)" for k
    unfolding Lt_def Call_def using eval_Literal_bigint [of env k]
    by (intro eval_call2) (simp add: evm_op_2)
  show ?thesis
  proof (cases "nval y = U256_MAX")
    case True
    then have "r = Literal_number 1" using assms(1) lf(1) by simp
    then show ?thesis using True lf(3) [of env] word_greater_max [of "eval env x"]
      by (simp add: eval_Literal_number_1 evm_bool_def)
  next
    case False
    then have "r = Lt x (Literal_bigint (nval y + 1))" using assms(1) lf(1) by simp
    then show ?thesis
      using g [of "nval y + 1"] lf(3) [of env] word_not_greater_succ [OF lf(2) False, of "eval env x"]
      by (simp add: evm_bool_zero)
  qed
qed

lemma fold_iszero_sound:
  assumes "fold_iszero args = Inr (Some r)" and "list_all wf args"
  shows "eval env r = eval env (FunctionCall ''iszero'' args)"
proof -
  let ?plain = "\<lambda>a0. (if \<not> isLiteral a0 then Inr None
            else (case toBigInt (literal_value a0) of
                    None \<Rightarrow> Inl SyntaxError
                  | Some x \<Rightarrow> Inr (Some (Literal_bool (x = 0)))))"
  from assms(1) obtain a0 where a: "args = [a0]"
    by (auto simp: fold_iszero_def split: list.splits)
  have w: "wf a0" using assms(2) a by simp
  have e: "eval env (FunctionCall ''iszero'' args) = evm_bool (eval env a0 = 0)"
    unfolding a by (rule eval_call1) (rule evm_op_1)
  consider (lt) x y where "a0 = FunctionCall ''lt'' [x, y]" "isLiteral y"
    | (gt) x y where "a0 = FunctionCall ''gt'' [x, y]" "isLiteral y"
    | (plain) "\<not> (\<exists>x y. a0 = FunctionCall ''lt'' [x, y] \<and> isLiteral y)"
              "\<not> (\<exists>x y. a0 = FunctionCall ''gt'' [x, y] \<and> isLiteral y)"
    by blast
  then show ?thesis
  proof cases
    case lt
    have wy: "wf y" using w lt(1) by simp
    have "(case toBigInt (literal_value y) of
              None \<Rightarrow> Inl SyntaxError
            | Some n \<Rightarrow>
                if n = 0 then Inr (Some (Literal_number 1))
                else Inr (Some (Gt x (Literal_bigint (n - 1))))) = Inr (Some r)"
      using assms(1) lt unfolding a fold_iszero_def by (simp add: Let_def)
    from fold_iszero_lt [OF this wy lt(2), of env] show ?thesis
      using e lt(1) by (simp add: evm_op_2)
  next
    case gt
    have wy: "wf y" using w gt(1) by simp
    have "(case toBigInt (literal_value y) of
              None \<Rightarrow> Inl SyntaxError
            | Some n \<Rightarrow>
                if n = U256_MAX then Inr (Some (Literal_number 1))
                else Inr (Some (Lt x (Literal_bigint (n + 1))))) = Inr (Some r)"
      using assms(1) gt unfolding a fold_iszero_def by (simp add: Let_def)
    from fold_iszero_gt [OF this wy gt(2), of env] show ?thesis
      using e gt(1) by (simp add: evm_op_2)
  next
    case plain
    have "?plain a0 = Inr (Some r)"
    proof (cases a0)
      case (FunctionCall nm as)
      show ?thesis
      proof (cases "\<exists>x y. as = [x, y]")
        case True
        then obtain x y where as: "as = [x, y]" by blast
        have "\<not> (nm = ''lt'' \<and> isLiteral y)" "\<not> (nm = ''gt'' \<and> isLiteral y)"
          using plain FunctionCall as by auto
        then show ?thesis using assms(1) FunctionCall as unfolding a fold_iszero_def
          by (auto simp: Let_def isLiteral_def split: if_splits)
      next
        case False
        then show ?thesis using assms(1) FunctionCall unfolding a fold_iszero_def
          by (auto simp: Let_def isLiteral_def split: list.splits if_splits)
      qed
    qed (use assms(1) in \<open>auto simp: a fold_iszero_def Let_def split: if_splits\<close>)
    from fold_iszero_plain [OF this w, of env] show ?thesis using e by simp
  qed
qed

section \<open>Soundness of the folding, the case of \<^verbatim>\<open>exp\<close> with a zero base apart\<close>

lemma fold_call_add: "fold_call ''add'' args = fold_add args"
  by (simp add: fold_call_def)

lemma fold_call_sub: "fold_call ''sub'' args = fold_sub args"
  by (simp add: fold_call_def)

lemma fold_call_mul: "fold_call ''mul'' args = fold_mul args"
  by (simp add: fold_call_def)

lemma fold_call_div: "fold_call ''div'' args = fold_div False args"
  by (simp add: fold_call_def)

lemma fold_call_sdiv: "fold_call ''sdiv'' args = fold_div True args"
  by (simp add: fold_call_def)

lemma fold_call_mod: "fold_call ''mod'' args = fold_mod False args"
  by (simp add: fold_call_def)

lemma fold_call_smod: "fold_call ''smod'' args = fold_mod True args"
  by (simp add: fold_call_def)

lemma fold_call_exp: "fold_call ''exp'' args = fold_exp args"
  by (simp add: fold_call_def)

lemma fold_call_addmod: "fold_call ''addmod'' args = fold_addmod args"
  by (simp add: fold_call_def)

lemma fold_call_mulmod: "fold_call ''mulmod'' args = fold_mulmod args"
  by (simp add: fold_call_def)

lemma fold_call_not: "fold_call ''not'' args = fold_not args"
  by (simp add: fold_call_def)

lemma fold_call_and: "fold_call ''and'' args = fold_and args"
  by (simp add: fold_call_def)

lemma fold_call_or: "fold_call ''or'' args = fold_or args"
  by (simp add: fold_call_def)

lemma fold_call_xor: "fold_call ''xor'' args = fold_xor args"
  by (simp add: fold_call_def)

lemma fold_call_shl: "fold_call ''shl'' args = fold_shl args"
  by (simp add: fold_call_def)

lemma fold_call_shr: "fold_call ''shr'' args = fold_shr False args"
  by (simp add: fold_call_def)

lemma fold_call_sar: "fold_call ''sar'' args = fold_shr True args"
  by (simp add: fold_call_def)

lemma fold_call_signextend: "fold_call ''signextend'' args = fold_signextend args"
  by (simp add: fold_call_def)

lemma fold_call_byte: "fold_call ''byte'' args = fold_byte args"
  by (simp add: fold_call_def)

lemma fold_call_iszero: "fold_call ''iszero'' args = fold_iszero args"
  by (simp add: fold_call_def)

lemma fold_call_eq: "fold_call ''eq'' args = fold_eq args"
  by (simp add: fold_call_def)

lemma fold_call_lt: "fold_call ''lt'' args = fold_lt False args"
  by (simp add: fold_call_def)

lemma fold_call_slt: "fold_call ''slt'' args = fold_lt True args"
  by (simp add: fold_call_def)

lemma fold_call_gt: "fold_call ''gt'' args = fold_gt False args"
  by (simp add: fold_call_def)

lemma fold_call_sgt: "fold_call ''sgt'' args = fold_gt True args"
  by (simp add: fold_call_def)

lemma folded_opcodes_cases:
  assumes "name \<in> set folded_opcodes"
  shows "name = ''add'' \<or> name = ''sub'' \<or> name = ''mul'' \<or> name = ''div'' \<or> name = ''sdiv'' \<or> name = ''mod'' \<or> name = ''smod'' \<or> name = ''exp'' \<or> name = ''addmod'' \<or> name = ''mulmod'' \<or> name = ''not'' \<or> name = ''and'' \<or> name = ''or'' \<or> name = ''xor'' \<or> name = ''shl'' \<or> name = ''shr'' \<or> name = ''sar'' \<or> name = ''signextend'' \<or> name = ''byte'' \<or> name = ''iszero'' \<or> name = ''eq'' \<or> name = ''lt'' \<or> name = ''slt'' \<or> name = ''gt'' \<or> name = ''sgt''"
  using assms unfolding folded_opcodes_def by (simp only: list.set insert_iff empty_iff simp_thms)

text \<open>
  For every opcode that \<^verbatim>\<open>fold\<close> treats and every list of arguments whose literals are
  well formed: when \<^verbatim>\<open>fold\<close> returns a replacement, the replacement has the value of the
  call under every valuation of the nodes that are no literals, unless the call is \<^verbatim>\<open>exp\<close>
  with a literal zero as base and an exponent that is no literal (or \<^verbatim>\<open>eq\<close> on two string
  literals, whose value is not modelled).
\<close>

lemma fold_call_sound:
  assumes f: "fold_call name args = Inr (Some r)" and w: "list_all wf args"
    and n: "name \<in> set folded_opcodes"
    and x: "\<not> exp_zero_base name args" and q: "\<not> eq_strings name args"
  shows "eval env r = eval env (FunctionCall name args)"
  using folded_opcodes_cases [OF n]
proof (elim disjE)
  assume e: "name = ''add''"
  from f have a: "fold_add args = Inr (Some r)" unfolding e fold_call_add .
  from fold_add_sound [OF a w] show ?thesis unfolding e .
next
  assume e: "name = ''sub''"
  from f have a: "fold_sub args = Inr (Some r)" unfolding e fold_call_sub .
  from fold_sub_sound [OF a w] show ?thesis unfolding e .
next
  assume e: "name = ''mul''"
  from f have a: "fold_mul args = Inr (Some r)" unfolding e fold_call_mul .
  from fold_mul_sound [OF a w] show ?thesis unfolding e .
next
  assume e: "name = ''div''"
  from f have a: "fold_div False args = Inr (Some r)" unfolding e fold_call_div .
  from fold_div_sound [OF a w] show ?thesis unfolding e .
next
  assume e: "name = ''sdiv''"
  from f have a: "fold_div True args = Inr (Some r)" unfolding e fold_call_sdiv .
  from fold_sdiv_sound [OF a w] show ?thesis unfolding e .
next
  assume e: "name = ''mod''"
  from f have a: "fold_mod False args = Inr (Some r)" unfolding e fold_call_mod .
  from fold_mod_sound [OF a w] show ?thesis unfolding e .
next
  assume e: "name = ''smod''"
  from f have a: "fold_mod True args = Inr (Some r)" unfolding e fold_call_smod .
  from fold_smod_sound [OF a w] show ?thesis unfolding e .
next
  assume e: "name = ''exp''"
  from f have a: "fold_exp args = Inr (Some r)" unfolding e fold_call_exp .
  from x have b: "\<not> exp_zero_base ''exp'' args" unfolding e .
  from fold_exp_sound [OF a w b] show ?thesis unfolding e .
next
  assume e: "name = ''addmod''"
  from f have a: "fold_addmod args = Inr (Some r)" unfolding e fold_call_addmod .
  from fold_addmod_sound [OF a w] show ?thesis unfolding e .
next
  assume e: "name = ''mulmod''"
  from f have a: "fold_mulmod args = Inr (Some r)" unfolding e fold_call_mulmod .
  from fold_mulmod_sound [OF a w] show ?thesis unfolding e .
next
  assume e: "name = ''not''"
  from f have a: "fold_not args = Inr (Some r)" unfolding e fold_call_not .
  from fold_not_sound [OF a w] show ?thesis unfolding e .
next
  assume e: "name = ''and''"
  from f have a: "fold_and args = Inr (Some r)" unfolding e fold_call_and .
  from fold_and_sound [OF a w] show ?thesis unfolding e .
next
  assume e: "name = ''or''"
  from f have a: "fold_or args = Inr (Some r)" unfolding e fold_call_or .
  from fold_or_sound [OF a w] show ?thesis unfolding e .
next
  assume e: "name = ''xor''"
  from f have a: "fold_xor args = Inr (Some r)" unfolding e fold_call_xor .
  from fold_xor_sound [OF a w] show ?thesis unfolding e .
next
  assume e: "name = ''shl''"
  from f have a: "fold_shl args = Inr (Some r)" unfolding e fold_call_shl .
  from fold_shl_sound [OF a w] show ?thesis unfolding e .
next
  assume e: "name = ''shr''"
  from f have a: "fold_shr False args = Inr (Some r)" unfolding e fold_call_shr .
  from fold_shr_sound [OF a w] show ?thesis unfolding e .
next
  assume e: "name = ''sar''"
  from f have a: "fold_shr True args = Inr (Some r)" unfolding e fold_call_sar .
  from fold_sar_sound [OF a w] show ?thesis unfolding e .
next
  assume e: "name = ''signextend''"
  from f have a: "fold_signextend args = Inr (Some r)" unfolding e fold_call_signextend .
  from fold_signextend_sound [OF a w] show ?thesis unfolding e .
next
  assume e: "name = ''byte''"
  from f have a: "fold_byte args = Inr (Some r)" unfolding e fold_call_byte .
  from fold_byte_sound [OF a w] show ?thesis unfolding e .
next
  assume e: "name = ''iszero''"
  from f have a: "fold_iszero args = Inr (Some r)" unfolding e fold_call_iszero .
  from fold_iszero_sound [OF a w] show ?thesis unfolding e .
next
  assume e: "name = ''eq''"
  from f have a: "fold_eq args = Inr (Some r)" unfolding e fold_call_eq .
  from q have b: "\<not> eq_strings ''eq'' args" unfolding e .
  from fold_eq_sound [OF a w b] show ?thesis unfolding e .
next
  assume e: "name = ''lt''"
  from f have a: "fold_lt False args = Inr (Some r)" unfolding e fold_call_lt .
  from fold_lt_sound [OF a w] show ?thesis unfolding e .
next
  assume e: "name = ''slt''"
  from f have a: "fold_lt True args = Inr (Some r)" unfolding e fold_call_slt .
  from fold_slt_sound [OF a w] show ?thesis unfolding e .
next
  assume e: "name = ''gt''"
  from f have a: "fold_gt False args = Inr (Some r)" unfolding e fold_call_gt .
  from fold_gt_sound [OF a w] show ?thesis unfolding e .
next
  assume e: "name = ''sgt''"
  from f have a: "fold_gt True args = Inr (Some r)" unfolding e fold_call_sgt .
  from fold_sgt_sound [OF a w] show ?thesis unfolding e .
qed

text \<open>An instance: \<^verbatim>\<open>mul(x, 1)\<close> folds to \<^verbatim>\<open>x\<close>, which has the value of the call.\<close>

lemma fold_call_sound_instance:
  "fold_call ''mul'' [Identifier ''x'' False, Literal DecimalNumber None ''1'']
     = Inr (Some (Identifier ''x'' False))
   \<and> eval env (Identifier ''x'' False)
     = eval env (FunctionCall ''mul'' [Identifier ''x'' False, Literal DecimalNumber None ''1''])"
proof -
  have f: "fold_call ''mul'' [Identifier ''x'' False, Literal DecimalNumber None ''1'']
     = Inr (Some (Identifier ''x'' False))"
    by (simp add: fold_call_mul fold_mul_def isZero_def isOne_def all_zero_chars_def)
  have w: "list_all wf [Identifier ''x'' False, Literal DecimalNumber None ''1'']"
    by (simp add: wf_literal_def is_digit_in_def digit_of_def digits_val_def U256_MAX_def)
  have n: "''mul'' \<in> set folded_opcodes" by (simp add: folded_opcodes_def)
  have x: "\<not> exp_zero_base ''mul'' [Identifier ''x'' False, Literal DecimalNumber None ''1'']"
    by (simp add: exp_zero_base_def)
  have q: "\<not> eq_strings ''mul'' [Identifier ''x'' False, Literal DecimalNumber None ''1'']"
    by (simp add: eq_strings_def)
  from fold_call_sound [OF f w n x q, of env] f show ?thesis by (simp only: simp_thms)
qed

section \<open>Folding of \<^verbatim>\<open>exp\<close> with a zero base\<close>

lemmas fold_eval_defs =
  fold_call_def fold_exp_def isZero_def isOne_def all_zero_chars_def
  Literal_number_def toString_def nat_toString.simps digit_char_def
  evm_op_def env0_def isLiteral_def toBigInt_def BigInt_def radix_literal_def
  digits_val_def is_digit_in_def digit_of_def

text \<open>
  Claim C1 (soundness of constant folding, the rewrites on non-literal arguments included).
  The case \<^verbatim>\<open>exp\<close> of \<^verbatim>\<open>fold\<close> replaces a call whose base is a literal zero by the literal
  \<^verbatim>\<open>0\<close>, whatever the exponent is, unless the exponent is a literal zero or one.  On the EVM
  \<^verbatim>\<open>exp(0, 0)\<close> is 1.  So for the call \<^verbatim>\<open>exp(0, y)\<close> with an identifier \<^verbatim>\<open>y\<close>, \<^verbatim>\<open>fold\<close> returns
  the literal \<^verbatim>\<open>0\<close>; under the valuation that gives \<^verbatim>\<open>y\<close> the value 0 the call has the
  value 1 and the replacement has the value 0: the replacement does not preserve the value
  of the call for every valuation of the non-literal argument.
\<close>

theorem fold_exp_zero_base_diverges:
  "fold_call ''exp'' [Literal DecimalNumber None ''0'', Identifier ''y'' False]
     = Inr (Some (Literal DecimalNumber None ''0''))
   \<and> eval env0 (FunctionCall ''exp'' [Literal DecimalNumber None ''0'', Identifier ''y'' False]) = 1
   \<and> eval env0 (Literal DecimalNumber None ''0'') = 0"
  by (simp add: fold_eval_defs)

section \<open>Parsing what the serializer wrote\<close>

lemmas parser_eval_defs =
  parse_def stripComments_def keyword_def consume_def expect_def eatSpace_def is_space_def
  Identifier_tok_def is_ident_start_def is_ident_char_def is_digit_in_def digit_of_def
  starts_with_def Statement_def statement_outside_def MemberAssignment_parse_def
  MemberIdentifier_parse_def member_peek_def orelse_def Assignment_parse_def control_outside_def
  BreakContinue_parse_def Leave_parse_def Emit_parse_def Throw_parse_def bind_err_def
  expression_outside_def word_paren_def interface_peek_def interface_tail_def is_ws_def
  Literal_parse_def NumberLiteral_tok_def HexNumber_tok_def DecimalNumber_tok_def match_hex_def
  match_decimal_def Literal_kind_def string_outside_def TrueLiteral_def FalseLiteral_def
  AnyIdentifier_def CallDataIdentifier_parse_def Identifier_parse_def TypeName_def
  serialize_def

text \<open>
  Claim C3 (parsing, serializing and parsing again yields the first tree).  The source
  \<^verbatim>\<open>emit Foo(0)\<close> is accepted: it parses to an \<^verbatim>\<open>Emit\<close> node with the offset \<^verbatim>\<open>0\<close> and no
  arguments.  The serializer writes the offset, a comma and the joined arguments, so for
  this node it writes \<^verbatim>\<open>emit Foo(0, )\<close>.  Parsing that text fails: after the comma
  \<^verbatim>\<open>Parser.Emit\<close> asserts an expression and finds the closing parenthesis.  So the second
  parse yields no tree at all.
\<close>

theorem emit_without_arguments_roundtrip_fails:
  "parse ''emit Foo(0)'' = Inr (Root [Emit ''Foo'' (Literal DecimalNumber None ''0'') []])
   \<and> serialize (Root [Emit ''Foo'' (Literal DecimalNumber None ''0'') []]) = Inr ''emit Foo(0, )''
   \<and> parse ''emit Foo(0, )'' = Inl ParseError"
  by (simp add: parser_eval_defs eval_nat_numeral)

text \<open>
  A \<^verbatim>\<open>throw\<close> statement is not serialized at all: its node has the offset \<^verbatim>\<open>null\<close>, which the
  serializer tries to encode.
\<close>

lemma throw_serialize_fails:
  "parse ''throw Foo(1)'' = Inr (Root [Throw ''Foo'' [Literal DecimalNumber None ''1'']])
   \<and> serialize (Root [Throw ''Foo'' [Literal DecimalNumber None ''1'']]) = Inl TypeError"
  by (simp add: parser_eval_defs eval_nat_numeral)

text \<open>With an argument after the offset the \<^verbatim>\<open>emit\<close> statement does come back.\<close>

lemma emit_with_argument_roundtrip:
  "parse ''emit Foo(0, add(x, 1))''
     = Inr (Root [Emit ''Foo'' (Literal DecimalNumber None ''0'')
                    [FunctionCall ''add'' [Identifier ''x'' True, Literal DecimalNumber None ''1'']]])
   \<and> serialize (Root [Emit ''Foo'' (Literal DecimalNumber None ''0'')
                    [FunctionCall ''add'' [Identifier ''x'' True, Literal DecimalNumber None ''1'']]])
     = Inr ''emit Foo(0, add(x, 1))''"
  by (simp add: parser_eval_defs eval_nat_numeral)

end
